(* ===== verification/Go_Prelude.thy ===== *)
theory Go_Prelude
  imports Main "HOL-Library.Multiset" "HOL-Library.Code_Target_Nat"
begin

text \<open>
  The prelude of the development: what every component shares.
  \<^item> \<open>result\<close>: how a Go function ends. A Go function returns a pair of a value and an
    \<^verbatim>\<open>error\<close>, or it panics; \<open>Ok\<close>, \<open>Err\<close> (with the text of \<^verbatim>\<open>err.Error()\<close>) and \<open>Panic\<close>
    are the three endings.
  \<^item> \<open>act\<close>: a Go function that reads and writes a world \<open>'w\<close> (kernel tables, a cloud
    service, a directory). The world is returned on every ending, since the effects of
    the statements before an error or a panic stay.
  \<^item> the functions of the package \<^verbatim>\<open>strings\<close> and \<^verbatim>\<open>strconv\<close> that the sources call, on
    \<open>string\<close>, with the laws the components use (split and join, prefixes, numerals).
  \<^item> the collections \<open>act_simps\<close> and \<open>result_simps\<close>, which unfold the two monads.
  Strings are lists of bytes, as Go strings are; the predicates on white space and
  letter case are those of the ASCII range, which covers every name, address and rule
  the sources build.
\<close>

named_theorems result_simps \<open>unfolding of the result monad\<close>
named_theorems act_simps \<open>unfolding of stateful Go functions\<close>

section \<open>How a Go function ends\<close>

datatype 'a result = Ok 'a | Err string | Panic

fun rbind :: "'a result \<Rightarrow> ('a \<Rightarrow> 'b result) \<Rightarrow> 'b result" where
  "rbind (Ok x) f = f x"
| "rbind (Err e) f = Err e"
| "rbind Panic f = Panic"

fun is_Ok :: "'a result \<Rightarrow> bool" where
  "is_Ok (Ok _) = True"
| "is_Ok _ = False"

fun is_Err :: "'a result \<Rightarrow> bool" where
  "is_Err (Err _) = True"
| "is_Err _ = False"

lemma rbind_eq_Ok: "rbind m f = Ok y \<longleftrightarrow> (\<exists>x. m = Ok x \<and> f x = Ok y)"
  by (cases m) auto

lemma rbind_eq_Err: "rbind m f = Err e \<longleftrightarrow> m = Err e \<or> (\<exists>x. m = Ok x \<and> f x = Err e)"
  by (cases m) auto

lemma rbind_eq_Panic: "rbind m f = Panic \<longleftrightarrow> m = Panic \<or> (\<exists>x. m = Ok x \<and> f x = Panic)"
  by (cases m) auto

lemma is_Ok_iff: "is_Ok m \<longleftrightarrow> (\<exists>x. m = Ok x)"
  by (cases m) auto

lemma is_Err_iff: "is_Err m \<longleftrightarrow> (\<exists>e. m = Err e)"
  by (cases m) auto

declare rbind_eq_Ok [result_simps] rbind_eq_Err [result_simps] rbind_eq_Panic [result_simps]

text \<open>Running a fallible function over a slice, stopping at the first failure.\<close>

fun rmap :: "('a \<Rightarrow> 'b result) \<Rightarrow> 'a list \<Rightarrow> 'b list result" where
  "rmap f [] = Ok []"
| "rmap f (x # xs) = rbind (f x) (\<lambda>y. rbind (rmap f xs) (\<lambda>ys. Ok (y # ys)))"

lemma rmap_Ok_iff: "rmap f xs = Ok ys \<longleftrightarrow> list_all2 (\<lambda>x y. f x = Ok y) xs ys"
  by (induction xs arbitrary: ys) (auto simp: rbind_eq_Ok list_all2_Cons1)

lemma rmap_Ok_length: "rmap f xs = Ok ys \<Longrightarrow> length ys = length xs"
  by (simp add: rmap_Ok_iff list_all2_lengthD)

lemma rmap_no_panic: "(\<And>x. x \<in> set xs \<Longrightarrow> f x \<noteq> Panic) \<Longrightarrow> rmap f xs \<noteq> Panic"
  by (induction xs) (auto simp: rbind_eq_Panic)

section \<open>Stateful Go functions\<close>

type_synonym ('w, 'a) act = "'w \<Rightarrow> 'a result \<times> 'w"

definition aret :: "'a \<Rightarrow> ('w, 'a) act" where
  "aret x = (\<lambda>w. (Ok x, w))"

definition aerr :: "string \<Rightarrow> ('w, 'a) act" where
  "aerr e = (\<lambda>w. (Err e, w))"

definition apanic :: "('w, 'a) act" where
  "apanic = (\<lambda>w. (Panic, w))"

text \<open>\<open>abind\<close> is \<^verbatim>\<open>x, err := m(); if err != nil { return err }\<close> followed by \<open>f x\<close>.\<close>

definition abind :: "('w, 'a) act \<Rightarrow> ('a \<Rightarrow> ('w, 'b) act) \<Rightarrow> ('w, 'b) act" where
  "abind m f = (\<lambda>w. case m w of
      (Ok x, w') \<Rightarrow> f x w'
    | (Err e, w') \<Rightarrow> (Err e, w')
    | (Panic, w') \<Rightarrow> (Panic, w'))"

text \<open>\<open>acase\<close> is \<^verbatim>\<open>x, err := m()\<close> with a branch of its own for the error.\<close>

definition acase :: "('w, 'a) act \<Rightarrow> ('a \<Rightarrow> ('w, 'b) act) \<Rightarrow> (string \<Rightarrow> ('w, 'b) act) \<Rightarrow> ('w, 'b) act" where
  "acase m f h = (\<lambda>w. case m w of
      (Ok x, w') \<Rightarrow> f x w'
    | (Err e, w') \<Rightarrow> h e w'
    | (Panic, w') \<Rightarrow> (Panic, w'))"

text \<open>\<open>aignore\<close> calls a function and drops its error, as a statement that only logs it.\<close>

definition aignore :: "('w, 'a) act \<Rightarrow> ('w, unit) act" where
  "aignore m = acase m (\<lambda>_. aret ()) (\<lambda>_. aret ())"

text \<open>\<open>awrap f\<close> is \<^verbatim>\<open>if err != nil { return fmt.Errorf(...) }\<close>: it rewrites the error's text.\<close>

definition awrap :: "(string \<Rightarrow> string) \<Rightarrow> ('w, 'a) act \<Rightarrow> ('w, 'a) act" where
  "awrap f m = acase m aret (\<lambda>e. aerr (f e))"

text \<open>A loop over a slice whose body may fail.\<close>

fun afor :: "'a list \<Rightarrow> ('a \<Rightarrow> ('w, unit) act) \<Rightarrow> ('w, unit) act" where
  "afor [] body = aret ()"
| "afor (x # xs) body = abind (body x) (\<lambda>_. afor xs body)"

text \<open>A deferred statement: it runs on every ending, and its own result is dropped.\<close>

definition adefer :: "('w, unit) act \<Rightarrow> ('w, 'a) act \<Rightarrow> ('w, 'a) act" where
  "adefer d m = (\<lambda>w. case m w of (r, w') \<Rightarrow>
      (case d w' of (Panic, w'') \<Rightarrow> (Panic, w'') | (_, w'') \<Rightarrow> (r, w'')))"

declare aret_def [act_simps] aerr_def [act_simps] apanic_def [act_simps] abind_def [act_simps]
  acase_def [act_simps] aignore_def [act_simps] awrap_def [act_simps] adefer_def [act_simps]

lemma abind_Ok: "m w = (Ok x, w') \<Longrightarrow> abind m f w = f x w'"
  by (simp add: abind_def)

lemma abind_Err: "m w = (Err e, w') \<Longrightarrow> abind m f w = (Err e, w')"
  by (simp add: abind_def)

lemma abind_eq_Ok:
  "abind m f w = (Ok y, w'') \<longleftrightarrow> (\<exists>x w'. m w = (Ok x, w') \<and> f x w' = (Ok y, w''))"
  by (auto simp: abind_def split: prod.splits result.splits)

lemma abind_assoc: "abind (abind m f) g = abind m (\<lambda>x. abind (f x) g)"
  by (auto simp: abind_def fun_eq_iff split: prod.splits result.splits)

text \<open>The world after a loop satisfies what every iteration keeps.\<close>

lemma afor_inv:
  assumes "I w" and "\<And>x w. x \<in> set xs \<Longrightarrow> I w \<Longrightarrow> I (snd (body x w))"
  shows "I (snd (afor xs body w))"
  using assms
proof (induction xs arbitrary: w)
  case Nil
  then show ?case by (simp add: aret_def)
next
  case (Cons x xs)
  obtain r w1 where b: "body x w = (r, w1)" by (cases "body x w")
  have i1: "I w1" using Cons.prems(1) Cons.prems(2)[of x w] b by simp
  have "I (snd (afor xs body w1))"
    by (rule Cons.IH [OF i1]) (simp add: Cons.prems(2))
  then show ?case using b i1 by (cases r) (simp_all add: abind_def)
qed

text \<open>A loop whose body never fails returns normally.\<close>

lemma afor_total:
  assumes "\<And>x w. x \<in> set xs \<Longrightarrow> \<exists>w'. body x w = (Ok (), w')"
  shows "fst (afor xs body w) = Ok ()"
  using assms
proof (induction xs arbitrary: w)
  case Nil
  then show ?case by (simp add: aret_def)
next
  case (Cons x xs)
  obtain w1 where "body x w = (Ok (), w1)" using Cons.prems[of x w] by auto
  then show ?case using Cons.IH[of w1] Cons.prems by (simp add: abind_def)
qed

lemma afor_append:
  "afor (xs @ ys) body = abind (afor xs body) (\<lambda>_. afor ys body)"
proof (induction xs)
  case Nil
  then show ?case by (simp add: abind_def aret_def)
next
  case (Cons x xs)
  then show ?case
    by (auto simp: abind_def fun_eq_iff split: prod.splits result.splits)
qed

section \<open>The package strings\<close>

fun hasPrefix :: "string \<Rightarrow> string \<Rightarrow> bool" where
  "hasPrefix s [] = True"
| "hasPrefix [] (p # ps) = False"
| "hasPrefix (c # cs) (p # ps) = (c = p \<and> hasPrefix cs ps)"

lemma hasPrefix_iff: "hasPrefix s p \<longleftrightarrow> (\<exists>t. s = p @ t)"
  by (induction s p rule: hasPrefix.induct) auto

lemma hasPrefix_append [simp]: "hasPrefix (p @ t) p"
  by (auto simp: hasPrefix_iff)

lemma hasPrefix_refl [simp]: "hasPrefix s s"
  using hasPrefix_append[of s "[]"] by simp

lemma hasPrefix_trans: "hasPrefix s p \<Longrightarrow> hasPrefix p q \<Longrightarrow> hasPrefix s q"
  by (auto simp: hasPrefix_iff)

definition hasSuffix :: "string \<Rightarrow> string \<Rightarrow> bool" where
  "hasSuffix s p = hasPrefix (rev s) (rev p)"

lemma hasSuffix_iff: "hasSuffix s p \<longleftrightarrow> (\<exists>t. s = t @ p)"
proof -
  have "hasSuffix s p \<longleftrightarrow> (\<exists>t. rev s = rev p @ t)"
    by (simp add: hasSuffix_def hasPrefix_iff)
  also have "\<dots> \<longleftrightarrow> (\<exists>t. s = rev t @ p)"
    by (metis rev_append rev_rev_ident)
  also have "\<dots> \<longleftrightarrow> (\<exists>t. s = t @ p)"
    by (metis rev_rev_ident)
  finally show ?thesis .
qed

definition trimSuffix :: "string \<Rightarrow> string \<Rightarrow> string" where
  "trimSuffix s p = (if hasSuffix s p then take (length s - length p) s else s)"

lemma trimSuffix_append [simp]: "trimSuffix (t @ p) p = t"
  by (auto simp: trimSuffix_def hasSuffix_iff)

definition trimPrefix :: "string \<Rightarrow> string \<Rightarrow> string" where
  "trimPrefix s p = (if hasPrefix s p then drop (length p) s else s)"

lemma trimPrefix_append [simp]: "trimPrefix (p @ t) p = t"
  by (simp add: trimPrefix_def)

fun contains :: "string \<Rightarrow> string \<Rightarrow> bool" where
  "contains [] sub = (sub = [])"
| "contains (c # cs) sub = (hasPrefix (c # cs) sub \<or> contains cs sub)"

lemma contains_iff: "contains s sub \<longleftrightarrow> (\<exists>a b. s = a @ sub @ b)"
proof (induction s)
  case Nil
  then show ?case by auto
next
  case (Cons c cs)
  have "contains (c # cs) sub \<longleftrightarrow> (\<exists>b. c # cs = sub @ b) \<or> (\<exists>a b. cs = a @ sub @ b)"
    using Cons by (simp add: hasPrefix_iff)
  also have "\<dots> \<longleftrightarrow> (\<exists>a b. c # cs = a @ sub @ b)"
    by (metis append_Cons append_Nil append_eq_Cons_conv)
  finally show ?case .
qed

text \<open>\<open>index s sub\<close> is \<^verbatim>\<open>strings.Index\<close>: the first position of \<open>sub\<close>, \<open>None\<close> for -1.\<close>

fun index :: "string \<Rightarrow> string \<Rightarrow> nat option" where
  "index [] sub = (if sub = [] then Some 0 else None)"
| "index (c # cs) sub =
     (if hasPrefix (c # cs) sub then Some 0 else map_option Suc (index cs sub))"

lemma index_None_iff: "index s sub = None \<longleftrightarrow> \<not> contains s sub"
  by (induction s) auto

lemma index_Some_bound: "index s sub = Some i \<Longrightarrow> i + length sub \<le> length s"
proof (induction s arbitrary: i)
  case Nil
  then show ?case by (simp split: if_splits)
next
  case (Cons c cs)
  show ?case
  proof (cases "hasPrefix (c # cs) sub")
    case True
    then obtain t where "c # cs = sub @ t" by (auto simp: hasPrefix_iff)
    then have "length (c # cs) = length sub + length t" by simp
    with True Cons.prems show ?thesis by simp
  next
    case False
    with Cons show ?thesis by auto
  qed
qed

fun join :: "string \<Rightarrow> string list \<Rightarrow> string" where
  "join sep [] = []"
| "join sep [x] = x"
| "join sep (x # y # xs) = x @ sep @ join sep (y # xs)"

lemma join_Cons: "xs \<noteq> [] \<Longrightarrow> join sep (x # xs) = x @ sep @ join sep xs"
  by (cases xs) auto

text \<open>\<open>split c s\<close> is \<^verbatim>\<open>strings.Split\<close> with a separator of one character, as every call of the sources has.\<close>

fun split :: "char \<Rightarrow> string \<Rightarrow> string list" where
  "split c [] = [[]]"
| "split c (x # xs) =
     (if x = c then [] # split c xs
      else (case split c xs of [] \<Rightarrow> [[x]] | y # ys \<Rightarrow> (x # y) # ys))"

lemma split_nonempty [simp]: "split c s \<noteq> []"
  by (induction s) (auto split: list.splits)

lemma join_split: "join [c] (split c s) = s"
proof (induction s)
  case Nil
  then show ?case by simp
next
  case (Cons x xs)
  obtain y ys where s: "split c xs = y # ys"
    by (cases "split c xs") auto
  show ?case
  proof (cases "x = c")
    case True
    then show ?thesis using Cons s by (simp add: join_Cons)
  next
    case False
    then show ?thesis using Cons s by (cases ys) auto
  qed
qed

lemma split_no_sep: "c \<notin> set s \<Longrightarrow> split c s = [s]"
  by (induction s) auto

lemma split_pieces: "p \<in> set (split c s) \<Longrightarrow> c \<notin> set p"
proof (induction s arbitrary: p)
  case Nil
  then show ?case by simp
next
  case (Cons x xs)
  obtain y ys where s: "split c xs = y # ys"
    by (cases "split c xs") auto
  have yn: "c \<notin> set y" and ysn: "\<forall>p \<in> set ys. c \<notin> set p"
    using Cons.IH s by auto
  show ?case
  proof (cases "x = c")
    case True
    with Cons.prems s yn ysn show ?thesis by auto
  next
    case False
    with Cons.prems s yn ysn show ?thesis by auto
  qed
qed

lemma split_append_sep: "c \<notin> set s \<Longrightarrow> split c (s @ c # t) = s # split c t"
  by (induction s) auto

lemma split_join:
  "xs \<noteq> [] \<Longrightarrow> (\<And>x. x \<in> set xs \<Longrightarrow> c \<notin> set x) \<Longrightarrow> split c (join [c] xs) = xs"
proof (induction xs)
  case Nil
  then show ?case by simp
next
  case (Cons x xs)
  show ?case
  proof (cases "xs = []")
    case True
    then show ?thesis using Cons.prems by (simp add: split_no_sep)
  next
    case False
    then show ?thesis using Cons by (simp add: join_Cons split_append_sep)
  qed
qed

definition isSpace :: "char \<Rightarrow> bool" where
  "isSpace c \<longleftrightarrow> c \<in> {CHR '' '', CHR 0x09, CHR 0x0A, CHR 0x0B, CHR 0x0C, CHR 0x0D}"

definition trimLeft :: "(char \<Rightarrow> bool) \<Rightarrow> string \<Rightarrow> string" where
  "trimLeft p s = dropWhile p s"

definition trimBy :: "(char \<Rightarrow> bool) \<Rightarrow> string \<Rightarrow> string" where
  "trimBy p s = rev (dropWhile p (rev (dropWhile p s)))"

definition trimSpace :: "string \<Rightarrow> string" where
  "trimSpace s = trimBy isSpace s"

text \<open>\<open>trimQuotes\<close> is \<^verbatim>\<open>strings.Trim(s, "\"")\<close>.\<close>

definition trimQuotes :: "string \<Rightarrow> string" where
  "trimQuotes s = trimBy (\<lambda>c. c = CHR 0x22) s"

lemma trimBy_id:
  assumes "s = [] \<or> (\<not> p (hd s) \<and> \<not> p (last s))"
  shows "trimBy p s = s"
proof (cases "s = []")
  case True
  then show ?thesis by (simp add: trimBy_def)
next
  case False
  then have "dropWhile p s = s" using assms by (cases s) auto
  moreover have "dropWhile p (rev s) = rev s"
    using assms False by (metis dropWhile_eq_self_iff hd_rev)
  ultimately show ?thesis by (simp add: trimBy_def)
qed

lemma dropWhile_hd: "dropWhile p s \<noteq> [] \<Longrightarrow> \<not> p (hd (dropWhile p s))"
  by (induction s) auto

lemma trimBy_idem: "trimBy p (trimBy p s) = trimBy p s"
proof (rule trimBy_id)
  define t where "t = dropWhile p s"
  define u where "u = dropWhile p (rev t)"
  have ts: "trimBy p s = rev u" by (simp add: trimBy_def t_def u_def)
  show "trimBy p s = [] \<or> \<not> p (hd (trimBy p s)) \<and> \<not> p (last (trimBy p s))"
  proof (cases "u = []")
    case True
    then show ?thesis by (simp add: ts)
  next
    case False
    have l: "\<not> p (last (rev u))"
      using False dropWhile_hd[of p "rev t"] by (simp add: u_def last_rev)
    obtain v where v: "rev t = v @ u"
      by (metis u_def takeWhile_dropWhile_id)
    have "hd (rev u) = hd t"
    proof -
      have "t = rev u @ rev v" using v by (metis rev_append rev_rev_ident)
      then show ?thesis using False by (simp add: hd_append)
    qed
    moreover have "t \<noteq> []" using False u_def by auto
    ultimately have "\<not> p (hd (rev u))" using dropWhile_hd[of p s] by (simp add: t_def)
    then show ?thesis using l by (simp add: ts)
  qed
qed

lemma trimSpace_idem [simp]: "trimSpace (trimSpace s) = trimSpace s"
  by (simp add: trimSpace_def trimBy_idem)

lemma trimSpace_Nil [simp]: "trimSpace [] = []"
  by (simp add: trimSpace_def trimBy_def)

text \<open>\<open>strFields s\<close> is \<^verbatim>\<open>strings.Fields\<close>: the maximal runs of characters that are not white space.\<close>

fun strFields_acc :: "string \<Rightarrow> string \<Rightarrow> string list" where
  "strFields_acc acc [] = (if acc = [] then [] else [rev acc])"
| "strFields_acc acc (c # cs) =
     (if isSpace c then (if acc = [] then strFields_acc [] cs else rev acc # strFields_acc [] cs)
      else strFields_acc (c # acc) cs)"

definition strFields :: "string \<Rightarrow> string list" where
  "strFields s = strFields_acc [] s"

lemma strFields_acc_pieces:
  "\<forall>c \<in> set acc. \<not> isSpace c \<Longrightarrow>
     \<forall>f \<in> set (strFields_acc acc s). f \<noteq> [] \<and> (\<forall>c \<in> set f. \<not> isSpace c)"
proof (induction s arbitrary: acc)
  case Nil
  then show ?case by simp
next
  case (Cons c cs)
  show ?case
  proof (cases "isSpace c")
    case True
    have "\<forall>f \<in> set (strFields_acc [] cs). f \<noteq> [] \<and> (\<forall>c \<in> set f. \<not> isSpace c)"
      by (rule Cons.IH) simp
    with True Cons.prems show ?thesis by simp
  next
    case False
    have "\<forall>f \<in> set (strFields_acc (c # acc) cs). f \<noteq> [] \<and> (\<forall>c \<in> set f. \<not> isSpace c)"
      by (rule Cons.IH) (use False Cons.prems in simp)
    with False show ?thesis by simp
  qed
qed

lemma strFields_pieces: "f \<in> set (strFields s) \<Longrightarrow> f \<noteq> [] \<and> (\<forall>c \<in> set f. \<not> isSpace c)"
  using strFields_acc_pieces[of "[]" s] by (simp add: strFields_def)

definition toLowerChar :: "char \<Rightarrow> char" where
  "toLowerChar c = (if 65 \<le> (of_char c :: nat) \<and> (of_char c :: nat) \<le> 90
     then char_of ((of_char c :: nat) + 32) else c)"

definition toLower :: "string \<Rightarrow> string" where
  "toLower s = map toLowerChar s"

section \<open>The package strconv: decimal numerals\<close>

definition isDigit :: "char \<Rightarrow> bool" where
  "isDigit c \<longleftrightarrow> 48 \<le> (of_char c :: nat) \<and> (of_char c :: nat) \<le> 57"

definition digitVal :: "char \<Rightarrow> nat" where
  "digitVal c = (of_char c :: nat) - 48"

definition digitChar :: "nat \<Rightarrow> char" where
  "digitChar d = char_of (48 + d)"

lemma digitVal_digitChar [simp]: "d < 10 \<Longrightarrow> digitVal (digitChar d) = d"
  by (simp add: digitVal_def digitChar_def)

lemma isDigit_digitChar [simp]: "d < 10 \<Longrightarrow> isDigit (digitChar d)"
  by (simp add: isDigit_def digitChar_def)

fun showNat :: "nat \<Rightarrow> string" where
  "showNat n = (if n < 10 then [digitChar n] else showNat (n div 10) @ [digitChar (n mod 10)])"

declare showNat.simps [simp del]

definition itoa :: "int \<Rightarrow> string" where
  "itoa i = (if i < 0 then CHR ''-'' # showNat (nat (- i)) else showNat (nat i))"

definition readNat :: "string \<Rightarrow> nat" where
  "readNat s = foldl (\<lambda>n c. 10 * n + digitVal c) 0 s"

lemma readNat_snoc: "readNat (s @ [c]) = 10 * readNat s + digitVal c"
  by (simp add: readNat_def)

lemma readNat_showNat [simp]: "readNat (showNat n) = n"
proof (induction n rule: showNat.induct)
  case (1 n)
  show ?case
  proof (cases "n < 10")
    case True
    then show ?thesis by (simp add: showNat.simps[of n] readNat_def)
  next
    case False
    then show ?thesis using 1 by (simp add: showNat.simps[of n] readNat_snoc)
  qed
qed

lemma showNat_digits: "list_all isDigit (showNat n) \<and> showNat n \<noteq> []"
proof (induction n rule: showNat.induct)
  case (1 n)
  then show ?case by (cases "n < 10") (simp_all add: showNat.simps[of n])
qed

lemma showNat_inj: "showNat m = showNat n \<Longrightarrow> m = n"
  by (metis readNat_showNat)

text \<open>
  \<open>atoi\<close> is \<^verbatim>\<open>strconv.Atoi\<close>: an optional sign, at least one digit, nothing else, and a value that
  fits the 64-bit \<^verbatim>\<open>int\<close>; \<open>None\<close> is its error.
\<close>

definition atoi :: "string \<Rightarrow> int option" where
  "atoi s =
     (let neg = (s \<noteq> [] \<and> hd s = CHR ''-'');
          body = (if s \<noteq> [] \<and> (hd s = CHR ''-'' \<or> hd s = CHR ''+'') then tl s else s);
          v = (if neg then - int (readNat body) else int (readNat body))
      in if body = [] \<or> \<not> list_all isDigit body then None
         else if v < - (2 ^ 63) \<or> v \<ge> 2 ^ 63 then None
         else Some v)"

lemma showNat_hd_digit: "isDigit (hd (showNat n))"
  using showNat_digits[of n] by (cases "showNat n") auto

lemma not_isDigit_sign [simp]: "\<not> isDigit (CHR ''-'')" "\<not> isDigit (CHR ''+'')"
  by (simp_all add: isDigit_def)

lemma atoi_itoa:
  assumes "- (2 ^ 63) \<le> i" and "i < 2 ^ 63"
  shows "atoi (itoa i) = Some i"
proof (cases "i < 0")
  case True
  then show ?thesis
    using assms showNat_digits[of "nat (- i)"]
    by (auto simp: atoi_def itoa_def Let_def)
next
  case False
  have "hd (showNat (nat i)) \<noteq> CHR ''-''" and "hd (showNat (nat i)) \<noteq> CHR ''+''"
    using showNat_hd_digit[of "nat i"] not_isDigit_sign by metis+
  then show ?thesis
    using False assms showNat_digits[of "nat i"]
    by (auto simp: atoi_def itoa_def Let_def)
qed

section \<open>Lists and maps\<close>

lemma length_tl_dropWhile: "dropWhile p s \<noteq> [] \<Longrightarrow> length (tl (dropWhile p s)) < length s"
proof -
  assume "dropWhile p s \<noteq> []"
  then have "length (tl (dropWhile p s)) < length (dropWhile p s)"
    unfolding length_tl by (intro diff_less zero_less_one) (simp only: length_greater_0_conv not_False_eq_True)
  also have "\<dots> \<le> length s" by (rule length_dropWhile_le)
  finally show ?thesis .
qed

text \<open>The first element with a property, as the loops of the sources that return at a hit do.\<close>

lemma find_Some_hit: "List.find P xs = Some x \<Longrightarrow> P x \<and> x \<in> set xs"
  by (auto simp: find_Some_iff)

lemma find_None_miss: "List.find P xs = None \<longleftrightarrow> (\<forall>x \<in> set xs. \<not> P x)"
  by (auto simp: find_None_iff)

text \<open>\<open>findIdx\<close> is a loop that returns the index of the first hit.\<close>

fun findIdx :: "('a \<Rightarrow> bool) \<Rightarrow> 'a list \<Rightarrow> nat option" where
  "findIdx p [] = None"
| "findIdx p (x # xs) = (if p x then Some 0 else map_option Suc (findIdx p xs))"

lemma findIdx_None: "findIdx p xs = None \<longleftrightarrow> (\<forall>x \<in> set xs. \<not> p x)"
  by (induction xs) auto

lemma findIdx_Some:
  "findIdx p xs = Some i \<Longrightarrow> i < length xs \<and> p (xs ! i) \<and> (\<forall>j < i. \<not> p (xs ! j))"
proof (induction xs arbitrary: i)
  case Nil
  then show ?case by simp
next
  case (Cons x xs)
  then show ?case
    by (cases i) (auto split: if_splits simp: nth_Cons split: nat.splits)
qed

text \<open>\<^verbatim>\<open>append(xs[:i], xs[i+1:]...)\<close>: the slice without the element at \<open>i\<close>.\<close>

definition removeAt :: "nat \<Rightarrow> 'a list \<Rightarrow> 'a list" where
  "removeAt i xs = take i xs @ drop (Suc i) xs"

lemma length_removeAt: "i < length xs \<Longrightarrow> length (removeAt i xs) = length xs - 1"
  by (simp add: removeAt_def)

lemma mset_removeAt: "i < length xs \<Longrightarrow> mset xs = add_mset (xs ! i) (mset (removeAt i xs))"
proof -
  assume i: "i < length xs"
  have "mset xs = mset (take i xs @ xs ! i # drop (Suc i) xs)"
    using id_take_nth_drop[OF i] by simp
  then show ?thesis by (simp add: removeAt_def)
qed

lemma set_removeAt_subset: "set (removeAt i xs) \<subseteq> set xs"
  by (auto simp: removeAt_def dest: in_set_takeD in_set_dropD)

lemma removeAt_findIdx_distinct:
  assumes "findIdx (\<lambda>y. f y = k) xs = Some i" and "distinct (map f xs)"
  shows "set (removeAt i xs) = {y \<in> set xs. f y \<noteq> k}"
proof -
  have i: "i < length xs" "f (xs ! i) = k" using findIdx_Some[OF assms(1)] by auto
  have m: "mset xs = add_mset (xs ! i) (mset (removeAt i xs))" by (rule mset_removeAt[OF i(1)])
  then have "mset (map f xs) = add_mset k (mset (map f (removeAt i xs)))"
    using i(2) by (metis image_mset_add_mset mset_map)
  then have "distinct (k # map f (removeAt i xs))"
    using assms(2) by (metis mset.simps(2) mset_eq_imp_distinct_iff)
  then have k: "\<forall>y \<in> set (removeAt i xs). f y \<noteq> k" by auto
  have "set xs = insert (xs ! i) (set (removeAt i xs))"
    using m by (metis set_mset_add_mset_insert set_mset_mset)
  then show ?thesis using k i(2) by auto
qed

end
