(* ===== verification/Go_Net.thy ===== *)
theory Go_Net
  imports Go_Prelude "HOL-Library.Word"
begin

unbundle bit_operations_syntax

text \<open>
  What the sources use of Go's package \<^verbatim>\<open>net\<close> (the release 1.13 that
  \<^verbatim>\<open>build/docker/cni.Dockerfile\<close> pins): addresses as byte slices, masks, networks, their parsers and
  printers, and of the vendored package \<^verbatim>\<open>plugins/pkg/ip\<close> the comparison and successor of
  addresses. The lemmas relate byte-wise masking to integer division
  (\<open>netAnd_prefix\<close>), from which follows that a CIDR block is an interval, and show that
  printing and parsing an IPv4 address or network round-trips.
\<close>

section \<open>Machine integers\<close>

text \<open>\<open>int64\<close>: what a 64-bit two's complement number keeps of an integer; Go's \<^verbatim>\<open>int\<close> on the supported platforms.\<close>

definition int64 :: "int \<Rightarrow> int" where
  "int64 x = sint (word_of_int x :: 64 word)"

lemma int64_id: "- (2 ^ 63) \<le> x \<Longrightarrow> x < 2 ^ 63 \<Longrightarrow> int64 x = x"
  by (simp add: int64_def sint_sbintrunc' signed_take_bit_int_eq_self)

section \<open>Addresses and networks\<close>

text \<open>A \<^verbatim>\<open>net.IP\<close> is a byte slice; the nil slice is \<open>[]\<close>.\<close>

type_synonym ip = "8 word list"

record ipnet =
  IPNet_IP :: ip
  IPNet_Mask :: "8 word list"

definition v4InV6Prefix :: ip where
  "v4InV6Prefix = [0, 0, 0, 0, 0, 0, 0, 0, 0, 0, 255, 255]"

definition To4 :: "ip \<Rightarrow> ip option" where
  "To4 ip = (if length ip = 4 then Some ip
     else if length ip = 16 \<and> take 12 ip = v4InV6Prefix then Some (drop 12 ip)
     else None)"

definition To16 :: "ip \<Rightarrow> ip option" where
  "To16 ip = (if length ip = 4 then Some (v4InV6Prefix @ ip)
     else if length ip = 16 then Some ip
     else None)"

text \<open>\<open>IPv4\<close> is \<^verbatim>\<open>net.IPv4(a,b,c,d)\<close>, in the 16-byte form.\<close>

definition IPv4 :: "8 word \<Rightarrow> 8 word \<Rightarrow> 8 word \<Rightarrow> 8 word \<Rightarrow> ip" where
  "IPv4 a b c d = v4InV6Prefix @ [a, b, c, d]"

text \<open>The inner loop of \<^verbatim>\<open>simpleMaskLength\<close>: shift out the leading ones of a byte.\<close>

fun leadOnes :: "nat \<Rightarrow> 8 word \<Rightarrow> nat \<times> 8 word" where
  "leadOnes 0 v = (0, v)"
| "leadOnes (Suc k) v =
     (if v AND 0x80 \<noteq> 0 then (case leadOnes k (push_bit 1 v) of (n, v') \<Rightarrow> (Suc n, v')) else (0, v))"

text \<open>\<open>None\<close> is the length -1 of a mask that is not a run of ones followed by zeros.\<close>

fun simpleMaskLength :: "8 word list \<Rightarrow> nat option" where
  "simpleMaskLength [] = Some 0"
| "simpleMaskLength (v # vs) =
     (if v = 255 then map_option ((+) 8) (simpleMaskLength vs)
      else (case leadOnes 8 v of (n, v') \<Rightarrow>
        if v' \<noteq> 0 then None
        else if list_all (\<lambda>b. b = 0) vs then Some n else None))"

definition maskSize :: "8 word list \<Rightarrow> int \<times> int" where
  "maskSize m = (case simpleMaskLength m of None \<Rightarrow> (0, 0) | Some n \<Rightarrow> (int n, 8 * int (length m)))"

definition CIDRMaskByte :: "nat \<Rightarrow> 8 word" where
  "CIDRMaskByte n = (if n \<ge> 8 then 255 else NOT (mask (8 - n)))"

fun CIDRMaskBytes :: "nat \<Rightarrow> nat \<Rightarrow> 8 word list" where
  "CIDRMaskBytes n 0 = []"
| "CIDRMaskBytes n (Suc l) = CIDRMaskByte n # CIDRMaskBytes (n - 8) l"

text \<open>\<open>CIDRMask ones bits\<close>, nil for arguments that are not a mask.\<close>

definition CIDRMask :: "nat \<Rightarrow> nat \<Rightarrow> 8 word list" where
  "CIDRMask ones bits = (if (bits \<noteq> 32 \<and> bits \<noteq> 128) \<or> ones > bits then []
     else CIDRMaskBytes ones (bits div 8))"

definition bytesAnd :: "8 word list \<Rightarrow> 8 word list \<Rightarrow> 8 word list" where
  "bytesAnd xs ys = map2 (AND) xs ys"

definition ipMask :: "ip \<Rightarrow> 8 word list \<Rightarrow> ip" where
  "ipMask ip m =
     (let m' = (if length m = 16 \<and> length ip = 4 \<and> list_all (\<lambda>b. b = 255) (take 12 m) then drop 12 m else m);
          ip' = (if length m' = 4 \<and> length ip = 16 \<and> take 12 ip = v4InV6Prefix then drop 12 ip else ip)
      in if length ip' \<noteq> length m' then [] else bytesAnd ip' m')"

definition networkNumberAndMask :: "ipnet \<Rightarrow> ip \<times> 8 word list" where
  "networkNumberAndMask n =
     (let ip = (case To4 (IPNet_IP n) of Some x \<Rightarrow> x | None \<Rightarrow> IPNet_IP n);
          m = IPNet_Mask n
      in if length ip \<noteq> 4 \<and> length ip \<noteq> 16 then ([], [])
         else if length m = 4 then (if length ip \<noteq> 4 then ([], []) else (ip, m))
         else if length m = 16 then (if length ip = 4 then (ip, drop 12 m) else (ip, m))
         else ([], []))"

definition netContains :: "ipnet \<Rightarrow> ip \<Rightarrow> bool" where
  "netContains n ip =
     (case networkNumberAndMask n of (nn, m) \<Rightarrow>
      let x = (case To4 ip of Some x \<Rightarrow> x | None \<Rightarrow> ip)
      in length x = length nn \<and> bytesAnd nn m = bytesAnd x m)"

section \<open>Printers\<close>

definition hexDigit :: "nat \<Rightarrow> char" where
  "hexDigit d = (if d < 10 then char_of (48 + d) else char_of (87 + d))"

definition hexByte :: "8 word \<Rightarrow> string" where
  "hexByte b = [hexDigit (unat b div 16), hexDigit (unat b mod 16)]"

definition hexString :: "8 word list \<Rightarrow> string" where
  "hexString bs = concat (map hexByte bs)"

text \<open>\<open>appendHex\<close>: the group without leading zeros.\<close>

definition showHex16 :: "nat \<Rightarrow> string" where
  "showHex16 n = (if n = 0 then ''0'' else
     dropWhile (\<lambda>c. c = CHR ''0'')
       [hexDigit (n div 4096 mod 16), hexDigit (n div 256 mod 16), hexDigit (n div 16 mod 16), hexDigit (n mod 16)])"

fun ipGroups :: "ip \<Rightarrow> nat list" where
  "ipGroups (a # b # r) = (256 * unat a + unat b) # ipGroups r"
| "ipGroups _ = []"

definition zeroRun :: "nat list \<Rightarrow> nat" where
  "zeroRun gs = length (takeWhile (\<lambda>g. g = 0) gs)"

text \<open>The first longest run of zero groups: its first group and its length.\<close>

fun longestZeros :: "nat \<Rightarrow> nat list \<Rightarrow> nat \<times> nat \<Rightarrow> nat \<times> nat" where
  "longestZeros i [] best = best"
| "longestZeros i (g # gs) best =
     longestZeros (Suc i) gs (if zeroRun (g # gs) > snd best then (i, zeroRun (g # gs)) else best)"

definition showGroups :: "nat list \<Rightarrow> string" where
  "showGroups gs = join '':'' (map showHex16 gs)"

definition ipString :: "ip \<Rightarrow> string" where
  "ipString ip =
     (if ip = [] then ''<nil>'' else
      case To4 ip of
        Some x \<Rightarrow> join ''.'' (map (\<lambda>b. showNat (unat b)) x)
      | None \<Rightarrow>
          if length ip \<noteq> 16 then ''?'' @ hexString ip
          else (case longestZeros 0 (ipGroups ip) (0, 0) of (s, l) \<Rightarrow>
            if l < 2 then showGroups (ipGroups ip)
            else showGroups (take s (ipGroups ip)) @ ''::'' @ showGroups (drop (s + l) (ipGroups ip))))"

definition netString :: "ipnet \<Rightarrow> string" where
  "netString n = (case networkNumberAndMask n of (nn, m) \<Rightarrow>
     if nn = [] \<or> m = [] then ''<nil>''
     else (case simpleMaskLength m of
        None \<Rightarrow> ipString nn @ ''/'' @ hexString m
      | Some l \<Rightarrow> ipString nn @ ''/'' @ showNat l))"

section \<open>Parsers\<close>

text \<open>
  \<open>dtoi\<close> reads a decimal number at the start of a string and stops, failing, at \<^verbatim>\<open>0xFFFFFF\<close>;
  it returns the number and the rest of the string.
\<close>

fun dtoi_loop :: "nat \<Rightarrow> string \<Rightarrow> (nat \<times> string) option" where
  "dtoi_loop n [] = Some (n, [])"
| "dtoi_loop n (c # cs) =
     (if isDigit c then
        (let n' = n * 10 + digitVal c in if n' \<ge> 0xFFFFFF then None else dtoi_loop n' cs)
      else Some (n, c # cs))"

definition dtoi :: "string \<Rightarrow> (nat \<times> string) option" where
  "dtoi s = (if s = [] \<or> \<not> isDigit (hd s) then None else dtoi_loop 0 s)"

definition hexVal :: "char \<Rightarrow> nat option" where
  "hexVal c = (let k = (of_char c :: nat) in
     if 48 \<le> k \<and> k \<le> 57 then Some (k - 48)
     else if 97 \<le> k \<and> k \<le> 102 then Some (k - 87)
     else if 65 \<le> k \<and> k \<le> 70 then Some (k - 55)
     else None)"

fun xtoi_loop :: "nat \<Rightarrow> string \<Rightarrow> (nat \<times> string) option" where
  "xtoi_loop n [] = Some (n, [])"
| "xtoi_loop n (c # cs) =
     (case hexVal c of
        Some d \<Rightarrow> (let n' = n * 16 + d in if n' \<ge> 0xFFFFFF then None else xtoi_loop n' cs)
      | None \<Rightarrow> Some (n, c # cs))"

definition xtoi :: "string \<Rightarrow> (nat \<times> string) option" where
  "xtoi s = (if s = [] \<or> hexVal (hd s) = None then None else xtoi_loop 0 s)"

text \<open>The four octets; the flag is set for the octets after the first, which follow a dot.\<close>

fun octets :: "nat \<Rightarrow> bool \<Rightarrow> string \<Rightarrow> 8 word list option" where
  "octets 0 dot s = (if s = [] then Some [] else None)"
| "octets (Suc k) dot s =
     (if s = [] then None
      else if dot \<and> hd s \<noteq> CHR ''.'' then None
      else (case dtoi (if dot then tl s else s) of
          None \<Rightarrow> None
        | Some (n, r) \<Rightarrow> if n > 255 then None else
            (case octets k True r of None \<Rightarrow> None | Some bs \<Rightarrow> Some (word_of_nat n # bs))))"

definition parseIPv4 :: "string \<Rightarrow> ip option" where
  "parseIPv4 s = map_option (\<lambda>bs. v4InV6Prefix @ bs) (octets 4 False s)"

text \<open>
  The loop of \<^verbatim>\<open>parseIPv6\<close>: the bytes read so far, the position of the ellipsis, the rest
  of the string; \<open>k\<close> counts the groups that still fit.
\<close>

fun v6_loop :: "nat \<Rightarrow> 8 word list \<Rightarrow> nat option \<Rightarrow> string \<Rightarrow> (8 word list \<times> nat option \<times> string) option" where
  "v6_loop 0 acc ell s = Some (acc, ell, s)"
| "v6_loop (Suc k) acc ell s =
     (case xtoi s of
        None \<Rightarrow> None
      | Some (n, r) \<Rightarrow>
          if n > 0xFFFF then None
          else if r \<noteq> [] \<and> hd r = CHR ''.'' then
            (if ell = None \<and> length acc \<noteq> 12 then None
             else if length acc + 4 > 16 then None
             else (case octets 4 False s of None \<Rightarrow> None | Some bs \<Rightarrow> Some (acc @ bs, ell, [])))
          else
            (let acc' = acc @ [word_of_nat (n div 256), word_of_nat (n mod 256)] in
             if r = [] then Some (acc', ell, [])
             else if hd r \<noteq> CHR '':'' \<or> tl r = [] then None
             else if hd (tl r) = CHR '':'' then
               (if ell \<noteq> None then None
                else if tl (tl r) = [] then Some (acc', Some (length acc'), [])
                else v6_loop k acc' (Some (length acc')) (tl (tl r)))
             else v6_loop k acc' ell (tl r)))"

definition v6_finish :: "(8 word list \<times> nat option \<times> string) \<Rightarrow> ip option" where
  "v6_finish st = (case st of (acc, ell, s) \<Rightarrow>
     if s \<noteq> [] then None
     else if length acc < 16 then
       (case ell of None \<Rightarrow> None
        | Some e \<Rightarrow> Some (take e acc @ replicate (16 - length acc) 0 @ drop e acc))
     else if ell \<noteq> None then None else Some acc)"

definition parseIPv6 :: "string \<Rightarrow> ip option" where
  "parseIPv6 s =
     (if hasPrefix s ''::'' then
        (if s = ''::'' then Some (replicate 16 0)
         else Option.bind (v6_loop 8 [] (Some 0) (drop 2 s)) v6_finish)
      else Option.bind (v6_loop 8 [] None s) v6_finish)"

fun parseIP_scan :: "string \<Rightarrow> string \<Rightarrow> ip option" where
  "parseIP_scan [] s = None"
| "parseIP_scan (c # cs) s =
     (if c = CHR ''.'' then parseIPv4 s else if c = CHR '':'' then parseIPv6 s else parseIP_scan cs s)"

text \<open>\<open>ParseIP\<close> returns the nil slice for a string that is no address.\<close>

definition ParseIP :: "string \<Rightarrow> ip" where
  "ParseIP s = (case parseIP_scan s s of None \<Rightarrow> [] | Some ip \<Rightarrow> ip)"

definition ParseCIDR :: "string \<Rightarrow> (ip \<times> ipnet) result" where
  "ParseCIDR s =
     (let bad = Err (''invalid CIDR address: '' @ s) in
      case index s ''/'' of
        None \<Rightarrow> bad
      | Some i \<Rightarrow>
          (let addr = take i s; msk = drop (Suc i) s;
               v4 = parseIPv4 addr;
               iplen = (if v4 = None then 16 else 4);
               ip = (if v4 = None then parseIPv6 addr else v4)
           in case (ip, dtoi msk) of
                (Some a, Some (n, [])) \<Rightarrow>
                   if n > 8 * iplen then bad
                   else Ok (a, \<lparr>IPNet_IP = ipMask a (CIDRMask n (8 * iplen)), IPNet_Mask = CIDRMask n (8 * iplen)\<rparr>)
              | _ \<Rightarrow> bad))"

section \<open>The vendored package plugins/pkg/ip\<close>

text \<open>\<^verbatim>\<open>big.Int.SetBytes\<close> and \<^verbatim>\<open>big.Int.Bytes\<close>: big-endian, without leading zero bytes.\<close>

fun bytesVal :: "8 word list \<Rightarrow> nat" where
  "bytesVal [] = 0"
| "bytesVal (b # bs) = unat b * 256 ^ length bs + bytesVal bs"

fun natBytes :: "nat \<Rightarrow> 8 word list" where
  "natBytes n = (if n = 0 then [] else natBytes (n div 256) @ [word_of_nat (n mod 256)])"

declare natBytes.simps [simp del]

definition ipToInt :: "ip \<Rightarrow> nat" where
  "ipToInt ip = (case To4 ip of Some v \<Rightarrow> bytesVal v
     | None \<Rightarrow> (case To16 ip of Some v \<Rightarrow> bytesVal v | None \<Rightarrow> 0))"

definition intToIP :: "nat \<Rightarrow> ip" where
  "intToIP n = natBytes n"

definition NextIP :: "ip \<Rightarrow> ip" where
  "NextIP ip = intToIP (ipToInt ip + 1)"

definition Cmp :: "ip \<Rightarrow> ip \<Rightarrow> int" where
  "Cmp a b = (if ipToInt a < ipToInt b then -1 else if ipToInt a = ipToInt b then 0 else 1)"

section \<open>Masks and integer division\<close>

lemma length_bytesAnd [simp]: "length (bytesAnd xs ys) = min (length xs) (length ys)"
  by (simp add: bytesAnd_def)

lemma bytesAnd_Nil [simp]: "bytesAnd [] ys = []" "bytesAnd xs [] = []"
  by (simp_all add: bytesAnd_def)

lemma bytesAnd_Cons [simp]: "bytesAnd (x # xs) (y # ys) = (x AND y) # bytesAnd xs ys"
  by (simp add: bytesAnd_def)

lemma unat8_less [simp]: "unat (b :: 8 word) < 256"
  using unsigned_less[of b, where ?'a = nat] by simp

lemma bytesVal_less: "bytesVal bs < 256 ^ length bs"
proof (induction bs)
  case Nil
  then show ?case by simp
next
  case (Cons b bs)
  have "unat b * 256 ^ length bs + bytesVal bs < (unat b + 1) * 256 ^ length bs"
    using Cons by simp
  also have "\<dots> \<le> 256 * 256 ^ length bs"
    using unat8_less[of b] by (intro mult_right_mono) (simp_all add: Suc_le_eq del: unat8_less)
  finally show ?case by simp
qed

lemma pow256: "(256 :: nat) ^ n = 2 ^ (8 * n)"
  by (simp add: power_mult)

lemma bytesVal_div_head:
  assumes "k \<le> 8 * length bs"
  shows "bytesVal (b # bs) div 2 ^ k = unat b * 2 ^ (8 * length bs - k) + bytesVal bs div 2 ^ k"
proof -
  have "(2 :: nat) ^ (8 * length bs) = 2 ^ (8 * length bs - k) * 2 ^ k"
    using assms by (simp add: power_add [symmetric])
  then have "bytesVal (b # bs) = bytesVal bs + unat b * 2 ^ (8 * length bs - k) * 2 ^ k"
    by (simp add: pow256)
  then show ?thesis by (simp only: div_mult_self3 [of "2 ^ k"]) simp
qed

lemma leadOnes_mask: "leadOnes k v = (n, 0) \<Longrightarrow> k \<le> 8 \<Longrightarrow> n \<le> k \<and> v = NOT (mask (8 - n))"
proof (induction k arbitrary: v n)
  case 0
  then show ?case by (auto intro!: bit_word_eqI simp: bit_simps)
next
  case (Suc k)
  show ?case
  proof (cases "v AND 0x80 = 0")
    case True
    with Suc.prems have "n = 0" "v = 0" by auto
    then show ?thesis by (auto intro!: bit_word_eqI simp: bit_simps)
  next
    case False
    have b7: "bit v 7"
    proof (rule ccontr)
      assume "\<not> bit v 7"
      then have "v AND 0x80 = 0"
        using and_exp_eq_0_iff_not_bit[of v 7] by simp
      with False show False by simp
    qed
    obtain n' where n: "n = Suc n'" and l: "leadOnes k (push_bit 1 v) = (n', 0)"
      using Suc.prems False by (auto split: prod.splits)
    have IH: "n' \<le> k" "push_bit 1 v = NOT (mask (8 - n'))" using Suc.IH[OF l] Suc.prems(2) by auto
    have "v = NOT (mask (8 - n))"
    proof (rule bit_word_eqI)
      fix i assume i: "i < LENGTH(8)"
      show "bit v i = bit (NOT (mask (8 - n)) :: 8 word) i"
      proof (cases "i = 7")
        case True
        then show ?thesis using b7 n by (simp add: bit_simps)
      next
        case False
        then have "bit v i = bit (push_bit 1 v) (Suc i)" using i by (simp add: bit_push_bit_iff del: push_bit_of_1 push_bit_Suc)
        also have "\<dots> = bit (NOT (mask (8 - n)) :: 8 word) i"
          unfolding IH(2) using i False n by (auto simp: bit_simps)
        finally show ?thesis .
      qed
    qed
    then show ?thesis using IH(1) n by simp
  qed
qed

lemma and_255: "x AND 255 = x" for x :: "8 word"
proof -
  have m: "(255 :: 8 word) = mask 8" by (simp add: mask_eq_exp_minus_1)
  show ?thesis unfolding m by (rule bit_word_eqI) (simp add: bit_simps)
qed

lemma byteAnd_div:
  "x AND NOT (mask k) = y AND NOT (mask k) \<longleftrightarrow> unat x div 2 ^ k = unat y div 2 ^ k"
  for x y :: "8 word"
proof -
  have "x AND NOT (mask k) = y AND NOT (mask k) \<longleftrightarrow> drop_bit k x = drop_bit k y"
  proof
    assume a: "x AND NOT (mask k) = y AND NOT (mask k)"
    show "drop_bit k x = drop_bit k y"
    proof (rule bit_word_eqI)
      fix n assume "n < LENGTH(8)"
      have "bit (x AND NOT (mask k)) (k + n) = bit (y AND NOT (mask k)) (k + n)" using a by simp
      then show "bit (drop_bit k x) n = bit (drop_bit k y) n"
        by (auto simp: bit_simps dest: bit_imp_le_length)
    qed
  next
    assume a: "drop_bit k x = drop_bit k y"
    show "x AND NOT (mask k) = y AND NOT (mask k)"
    proof (rule bit_word_eqI)
      fix n assume n: "n < LENGTH(8)"
      show "bit (x AND NOT (mask k)) n = bit (y AND NOT (mask k)) n"
      proof (cases "n < k")
        case True
        then show ?thesis by (simp add: bit_simps)
      next
        case False
        have "bit (drop_bit k x) (n - k) = bit (drop_bit k y) (n - k)" using a by simp
        then show ?thesis using False by (auto simp: bit_simps)
      qed
    qed
  qed
  also have "\<dots> \<longleftrightarrow> unat (drop_bit k x) = unat (drop_bit k y)"
    by (simp add: word_unat_eq_iff)
  also have "\<dots> \<longleftrightarrow> unat x div 2 ^ k = unat y div 2 ^ k"
    by (simp only: unat_drop_bit_eq) (simp only: drop_bit_eq_div)
  finally show ?thesis .
qed

lemma simpleMaskLength_bound: "simpleMaskLength m = Some n \<Longrightarrow> n \<le> 8 * length m"
proof (induction m arbitrary: n)
  case Nil
  then show ?case by simp
next
  case (Cons v vs)
  show ?case
  proof (cases "v = 255")
    case True
    with Cons show ?thesis by auto
  next
    case False
    with Cons.prems obtain k where "leadOnes 8 v = (k, 0)" "n = k"
      by (auto split: prod.splits if_splits)
    then show ?thesis using leadOnes_mask[of 8 v k] by simp
  qed
qed

lemma bytesAnd_zeros: "list_all (\<lambda>b. b = 0) m \<Longrightarrow> length xs = length m \<Longrightarrow> bytesAnd xs m = m"
  by (induction m arbitrary: xs) (auto simp: length_Suc_conv)

lemma radix_eq:
  assumes "(u :: nat) < B" "v < B"
  shows "x * B + u = y * B + v \<longleftrightarrow> x = y \<and> u = v"
proof
  assume e: "x * B + u = y * B + v"
  have "(x * B + u) div B = x" "(y * B + v) div B = y" using assms by simp_all
  then show "x = y \<and> u = v" using e by simp
qed simp

theorem netAnd_prefix:
  assumes "simpleMaskLength m = Some n" and "length xs = length m" and "length ys = length m"
  shows "bytesAnd xs m = bytesAnd ys m \<longleftrightarrow>
    bytesVal xs div 2 ^ (8 * length m - n) = bytesVal ys div 2 ^ (8 * length m - n)"
  using assms
proof (induction m arbitrary: n xs ys)
  case Nil
  then show ?case by simp
next
  case (Cons v vs)
  obtain x xs' y ys' where xy: "xs = x # xs'" "ys = y # ys'"
    and l: "length xs' = length vs" "length ys' = length vs"
    using Cons.prems(2,3) by (cases xs; cases ys) auto
  show ?case
  proof (cases "v = 255")
    case True
    with Cons.prems(1) obtain n' where n': "simpleMaskLength vs = Some n'" "n = 8 + n'" by auto
    let ?k = "8 * length vs - n'"
    have kk: "8 * length (v # vs) - n = ?k" using n' by simp
    have kl: "?k \<le> 8 * length xs'" "?k \<le> 8 * length ys'" using l by auto
    have b: "bytesVal xs' div 2 ^ ?k < 2 ^ (8 * length vs - ?k)"
      "bytesVal ys' div 2 ^ ?k < 2 ^ (8 * length vs - ?k)"
      using bytesVal_less[of xs'] bytesVal_less[of ys'] l
      by (auto simp: pow256 div_less_iff_less_mult less_mult_imp_div_less power_add [symmetric])
    have "x AND 255 = x" "y AND 255 = y"
      by (rule and_255)+
    then have "bytesAnd xs (v # vs) = bytesAnd ys (v # vs) \<longleftrightarrow>
        x = y \<and> bytesVal xs' div 2 ^ ?k = bytesVal ys' div 2 ^ ?k"
      using Cons.IH[OF n'(1) l] True xy by simp
    also have "\<dots> \<longleftrightarrow> bytesVal xs div 2 ^ ?k = bytesVal ys div 2 ^ ?k"
      using b by (auto simp: xy bytesVal_div_head kl l radix_eq word_unat_eq_iff[of x y] simp del: bytesVal.simps)
    finally show ?thesis by (simp only: kk)
  next
    case False
    with Cons.prems(1) have lo: "leadOnes 8 v = (n, 0)" and z: "list_all (\<lambda>b. b = 0) vs"
      by (auto split: prod.splits if_splits)
    have n: "n \<le> 8" "v = NOT (mask (8 - n))" using leadOnes_mask[OF lo] by auto
    have k: "8 * length (v # vs) - n = 8 * length vs + (8 - n)" using n by simp
    have d: "bytesVal (b # bs) div 2 ^ (8 * length vs + (8 - n)) = unat b div 2 ^ (8 - n)"
      if "length bs = length vs" for b bs
    proof -
      have "bytesVal (b # bs) div 2 ^ (8 * length vs) = unat b"
        using bytesVal_div_head[of "8 * length vs" bs b] bytesVal_less[of bs] that
        by (simp add: pow256)
      then show ?thesis by (simp add: power_add div_mult2_eq)
    qed
    have "bytesAnd xs (v # vs) = bytesAnd ys (v # vs) \<longleftrightarrow> x AND v = y AND v"
      using bytesAnd_zeros[OF z] xy l by simp
    also have "\<dots> \<longleftrightarrow> unat x div 2 ^ (8 - n) = unat y div 2 ^ (8 - n)"
      unfolding n(2) by (rule byteAnd_div)
    also have "\<dots> \<longleftrightarrow> bytesVal xs div 2 ^ (8 * length vs + (8 - n)) = bytesVal ys div 2 ^ (8 * length vs + (8 - n))"
      by (simp only: xy d l)
    finally show ?thesis by (simp only: k)
  qed
qed


section \<open>The masks of CIDRMask\<close>

lemma leadOnes_CIDRMaskByte: "n < 8 \<Longrightarrow> leadOnes 8 (CIDRMaskByte n) = (n, 0) \<and> CIDRMaskByte n \<noteq> 255"
proof -
  have "\<forall>n \<in> set [0..<8]. leadOnes 8 (CIDRMaskByte n) = (n, 0) \<and> CIDRMaskByte n \<noteq> 255"
    by code_simp
  then show "n < 8 \<Longrightarrow> leadOnes 8 (CIDRMaskByte n) = (n, 0) \<and> CIDRMaskByte n \<noteq> 255" by simp
qed

lemma CIDRMaskByte_0 [simp]: "CIDRMaskByte 0 = 0"
  by code_simp

lemma CIDRMaskBytes_0: "list_all (\<lambda>b. b = 0) (CIDRMaskBytes 0 l)"
  by (induction l) simp_all

lemma length_CIDRMaskBytes [simp]: "length (CIDRMaskBytes n l) = l"
  by (induction l arbitrary: n) simp_all

lemma simpleMaskLength_CIDRMaskBytes: "n \<le> 8 * l \<Longrightarrow> simpleMaskLength (CIDRMaskBytes n l) = Some n"
proof (induction l arbitrary: n)
  case 0
  then show ?case by simp
next
  case (Suc l)
  show ?case
  proof (cases "n < 8")
    case True
    then show ?thesis using leadOnes_CIDRMaskByte[OF True] CIDRMaskBytes_0 by simp
  next
    case False
    then have "CIDRMaskByte n = 255" by (simp add: CIDRMaskByte_def)
    then show ?thesis using Suc.IH[of "n - 8"] Suc.prems False by simp
  qed
qed

lemma bytesVal_inj: "length xs = length ys \<Longrightarrow> bytesVal xs = bytesVal ys \<Longrightarrow> xs = ys"
proof (induction xs ys rule: list_induct2)
  case Nil
  then show ?case by simp
next
  case (Cons x xs y ys)
  have "unat x = unat y \<and> bytesVal xs = bytesVal ys"
    using Cons.prems Cons.hyps radix_eq[of "bytesVal xs" "256 ^ length xs" "bytesVal ys" "unat x" "unat y"]
      bytesVal_less[of xs] bytesVal_less[of ys] by simp
  then show ?case using Cons.IH by (simp add: word_unat_eq_iff)
qed

section \<open>Round trips\<close>

lemma dtoi_loop_digits:
  "list_all isDigit s \<Longrightarrow> foldl (\<lambda>n c. 10 * n + digitVal c) a s < 0xFFFFFF \<Longrightarrow>
     r = [] \<or> \<not> isDigit (hd r) \<Longrightarrow>
     dtoi_loop a (s @ r) = Some (foldl (\<lambda>n c. 10 * n + digitVal c) a s, r)"
proof (induction s arbitrary: a)
  case Nil
  then show ?case by (cases r) auto
next
  case (Cons c s)
  have mono: "a' \<le> foldl (\<lambda>n c. 10 * n + digitVal c) a' s" for a'
  proof (induction s arbitrary: a')
    case (Cons d s)
    have "a' \<le> 10 * a' + digitVal d" by simp
    also have "\<dots> \<le> foldl (\<lambda>n c. 10 * n + digitVal c) (10 * a' + digitVal d) s" by (rule Cons)
    finally show ?case by simp
  qed simp
  have "10 * a + digitVal c < 0xFFFFFF"
    using Cons.prems(2) mono[of "10 * a + digitVal c"] by simp
  then show ?case using Cons by (simp add: Let_def mult.commute)
qed

lemma dtoi_showNat:
  assumes "n < 0xFFFFFF" and "r = [] \<or> \<not> isDigit (hd r)"
  shows "dtoi (showNat n @ r) = Some (n, r)"
proof -
  have "foldl (\<lambda>n c. 10 * n + digitVal c) 0 (showNat n) = n"
    using readNat_showNat[of n] by (simp only: readNat_def)
  then have "dtoi_loop 0 (showNat n @ r) = Some (n, r)"
    using dtoi_loop_digits[of "showNat n" 0 r] showNat_digits[of n] assms by simp
  moreover have "isDigit (hd (showNat n @ r))"
    using showNat_hd_digit[of n] showNat_digits[of n] by (simp add: hd_append)
  ultimately show ?thesis using showNat_digits[of n] by (simp add: dtoi_def)
qed

lemma not_isDigit_punct [simp]: "\<not> isDigit (CHR ''.'')" "\<not> isDigit (CHR ''/'')" "\<not> isDigit (CHR '':'')"
  by (simp_all add: isDigit_def)

definition showBytes :: "8 word list \<Rightarrow> string" where
  "showBytes bs = join ''.'' (map (\<lambda>b. showNat (unat b)) bs)"

lemma showBytes_Cons:
  "showBytes (b # bs) = showNat (unat b) @ (if bs = [] then [] else ''.'' @ showBytes bs)"
  by (cases bs) (simp_all add: showBytes_def)

lemma octets_showBytes:
  "bs \<noteq> [] \<Longrightarrow> octets (length bs) dot ((if dot then ''.'' else []) @ showBytes bs) = Some bs"
proof (induction bs arbitrary: dot)
  case Nil
  then show ?case by simp
next
  case (Cons b bs)
  define rest where "rest = (if bs = [] then [] else ''.'' @ showBytes bs)"
  have sb: "showBytes (b # bs) = showNat (unat b) @ rest"
    by (simp add: showBytes_Cons rest_def)
  have "rest = [] \<or> \<not> isDigit (hd rest)" by (simp add: rest_def)
  then have d: "dtoi (showNat (unat b) @ rest) = Some (unat b, rest)"
    using less_trans[OF unat8_less[of b]] by (intro dtoi_showNat) simp_all
  have o: "octets (length bs) True rest = Some bs"
    using Cons.IH[of True] by (cases "bs = []") (simp_all add: rest_def)
  have ne: "showNat (unat b) \<noteq> []" using showNat_digits by simp
  have "unat b \<le> 255" using unat8_less[of b] by linarith
  then show ?case using d o ne by (simp add: sb del: unat8_less)
qed

lemma parseIP_scan_digits:
  "list_all isDigit s \<Longrightarrow> parseIP_scan (s @ CHR ''.'' # t) u = parseIPv4 u"
proof (induction s)
  case Nil
  then show ?case by simp
next
  case (Cons c s)
  have "c \<noteq> CHR ''.''" "c \<noteq> CHR '':''" using Cons.prems not_isDigit_punct by auto
  then show ?case using Cons by simp
qed

lemma parseIPv4_showBytes: "length x = 4 \<Longrightarrow> parseIPv4 (showBytes x) = Some (v4InV6Prefix @ x)"
  using octets_showBytes[of x False] by (cases "x = []") (simp_all add: parseIPv4_def del: octets.simps)

theorem parse_print_v4:
  assumes "length x = 4"
  shows "ParseIP (ipString x) = v4InV6Prefix @ x"
proof -
  obtain a b c d where x: "x = [a, b, c, d]"
    using assms by (auto simp: length_Suc_conv numeral_eq_Suc)
  have s: "ipString x = showBytes x" by (simp add: x ipString_def To4_def showBytes_def)
  have p: "parseIPv4 (showBytes x) = Some (v4InV6Prefix @ x)"
    by (rule parseIPv4_showBytes[OF assms])
  have "showBytes x = showNat (unat a) @ CHR ''.'' # showBytes [b, c, d]" by (simp add: x showBytes_Cons)
  then have "parseIP_scan (showBytes x) (showBytes x) = parseIPv4 (showBytes x)"
    using parseIP_scan_digits showNat_digits by metis
  then show ?thesis by (simp add: ParseIP_def s p)
qed

lemma ipString_mapped: "length x = 4 \<Longrightarrow> ipString (v4InV6Prefix @ x) = ipString x"
  by (auto simp: ipString_def To4_def v4InV6Prefix_def)

lemma index_skip: "c \<notin> set s \<Longrightarrow> index (s @ c # t) [c] = Some (length s)"
  by (induction s) auto

lemma showNat_no_punct: "\<not> isDigit c \<Longrightarrow> c \<notin> set (showNat n)"
  using showNat_digits[of n] by (auto simp: list_all_iff)

lemma showBytes_no_slash: "CHR ''/'' \<notin> set (showBytes bs)"
proof (induction bs)
  case Nil
  then show ?case by (simp add: showBytes_def)
next
  case (Cons b bs)
  then show ?case by (simp add: showBytes_Cons showNat_no_punct)
qed

theorem parse_print_cidr_v4:
  assumes "length x = 4" and "n \<le> 32"
  shows "ParseCIDR (ipString x @ ''/'' @ showNat n) =
    Ok (v4InV6Prefix @ x, \<lparr>IPNet_IP = bytesAnd x (CIDRMask n 32), IPNet_Mask = CIDRMask n 32\<rparr>)"
proof -
  have s: "ipString x = showBytes x" using assms by (auto simp: ipString_def To4_def showBytes_def)
  have i: "index (ipString x @ ''/'' @ showNat n) ''/'' = Some (length (ipString x))"
    using index_skip[OF showBytes_no_slash] by (simp add: s)
  have p: "parseIPv4 (ipString x) = Some (v4InV6Prefix @ x)"
    using parseIPv4_showBytes[OF assms(1)] by (simp only: s)
  have d: "dtoi (showNat n) = Some (n, [])" using dtoi_showNat[of n "[]"] assms by simp
  have m: "ipMask (v4InV6Prefix @ x) (CIDRMask n 32) = bytesAnd x (CIDRMask n 32)"
    using assms by (simp add: ipMask_def CIDRMask_def Let_def v4InV6Prefix_def)
  show ?thesis using assms by (simp add: ParseCIDR_def i [simplified] p d m Let_def)
qed

end
