(* ===== verification/Ranges.thy ===== *)
theory Ranges
  imports Go_Net
begin

unbundle bit_operations_syntax

text \<open>
  \<^verbatim>\<open>pkg/ipam/backend/allocator/range.go\<close> and \<^verbatim>\<open>range_set.go\<close>: address ranges of the IPAM
  configuration. \<^verbatim>\<open>Range.Canonicalize\<close> updates its receiver in place, also on the way to an
  error, so it is a stateful function on the record \<open>Range\<close>, in the four steps the code has
  (subnet, gateway, start, end). The lemmas show what a canonical range guarantees, that
  \<^verbatim>\<open>Overlaps\<close> decides whether two ranges share an address, and that a canonical range
  set is pairwise disjoint, so that \<^verbatim>\<open>RangeFor\<close> is unambiguous.
\<close>

section \<open>Range\<close>

record Range =
  RangeStart :: ip
  RangeEnd :: ip
  Subnet :: ipnet
  Gateway :: ip

text \<open>\<open>canonicalizeIP\<close> replaces an address by its shortest form.\<close>

definition canonicalizeIP :: "ip \<Rightarrow> ip result" where
  "canonicalizeIP ip =
     (case To4 ip of
        Some x \<Rightarrow> Ok x
      | None \<Rightarrow> (case To16 ip of
            Some x \<Rightarrow> Ok x
          | None \<Rightarrow> Err (''IP '' @ ipString ip @ '' not v4 nor v6'')))"

definition Range_Contains :: "Range \<Rightarrow> ip \<Rightarrow> bool" where
  "Range_Contains r a =
     (case canonicalizeIP a of
        Ok addr \<Rightarrow>
          (if length addr \<noteq> length (IPNet_IP (Subnet r)) then False
           else if \<not> netContains (Subnet r) addr then False
           else if RangeStart r \<noteq> [] \<and> Cmp addr (RangeStart r) < 0 then False
           else if RangeEnd r \<noteq> [] \<and> Cmp addr (RangeEnd r) > 0 then False
           else True)
      | _ \<Rightarrow> False)"

definition Range_Overlaps :: "Range \<Rightarrow> Range \<Rightarrow> bool" where
  "Range_Overlaps r r1 =
     (if length (RangeStart r) \<noteq> length (RangeStart r1) then False
      else Range_Contains r (RangeStart r1) \<or> Range_Contains r (RangeEnd r1)
         \<or> Range_Contains r1 (RangeStart r) \<or> Range_Contains r1 (RangeEnd r))"

definition Range_String :: "Range \<Rightarrow> string" where
  "Range_String r = ipString (RangeStart r) @ ''-'' @ ipString (RangeEnd r)"

text \<open>
  \<open>lastIP\<close> sets the host bits and steps back from the broadcast address in IPv4; reading
  beyond the mask, or the fourth byte of a shorter address, panics.
\<close>

definition lastIP :: "ipnet \<Rightarrow> ip result" where
  "lastIP subnet =
     (if length (IPNet_Mask subnet) < length (IPNet_IP subnet) then Panic
      else let end0 = map2 (\<lambda>b m. b OR NOT m) (IPNet_IP subnet) (IPNet_Mask subnet)
           in if To4 (IPNet_IP subnet) \<noteq> None
              then Ok (end0[3 := end0 ! 3 - 1])
              else Ok end0)"

definition canonSubnet :: "(Range, unit) act" where
  "canonSubnet = (\<lambda>r.
     case canonicalizeIP (IPNet_IP (Subnet r)) of
       Err e \<Rightarrow> (Err e, r)
     | Panic \<Rightarrow> (Panic, r)
     | Ok ip \<Rightarrow>
         (let r = r\<lparr>Subnet := (Subnet r)\<lparr>IPNet_IP := ip\<rparr>\<rparr> in
          case maskSize (IPNet_Mask (Subnet r)) of (ones, masklen) \<Rightarrow>
            if ones > masklen - 2
            then (Err (''Network '' @ netString (Subnet r) @ '' too small to allocate from''), r)
            else if length (IPNet_IP (Subnet r)) \<noteq> length (IPNet_Mask (Subnet r))
            then (Err ''IPNet IP and Mask version mismatch'', r)
            else (Ok (), r)))"

definition canonGateway :: "(Range, unit) act" where
  "canonGateway = (\<lambda>r.
     if Gateway r = [] then (Ok (), r\<lparr>Gateway := NextIP (IPNet_IP (Subnet r))\<rparr>)
     else case canonicalizeIP (Gateway r) of
       Err e \<Rightarrow> (Err e, r)
     | Panic \<Rightarrow> (Panic, r)
     | Ok gw \<Rightarrow>
         (let r = r\<lparr>Gateway := gw\<rparr> in
          if \<not> netContains (Subnet r) (Gateway r)
          then (Err (''gateway '' @ ipString (Gateway r) @ '' not in network '' @ netString (Subnet r)), r)
          else (Ok (), r)))"

definition canonStart :: "(Range, unit) act" where
  "canonStart = (\<lambda>r.
     if RangeStart r \<noteq> [] then
       (case canonicalizeIP (RangeStart r) of
          Err e \<Rightarrow> (Err e, r)
        | Panic \<Rightarrow> (Panic, r)
        | Ok ip \<Rightarrow>
            (let r = r\<lparr>RangeStart := ip\<rparr> in
             if \<not> Range_Contains r (RangeStart r)
             then (Err (''RangeStart '' @ ipString (RangeStart r) @ '' not in network '' @ netString (Subnet r)), r)
             else (Ok (), r)))
     else (Ok (), r\<lparr>RangeStart := NextIP (IPNet_IP (Subnet r))\<rparr>))"

definition canonEnd :: "(Range, unit) act" where
  "canonEnd = (\<lambda>r.
     if RangeEnd r \<noteq> [] then
       (case canonicalizeIP (RangeEnd r) of
          Err e \<Rightarrow> (Err e, r)
        | Panic \<Rightarrow> (Panic, r)
        | Ok ip \<Rightarrow>
            (let r = r\<lparr>RangeEnd := ip\<rparr> in
             if \<not> Range_Contains r (RangeEnd r)
             then (Err (''RangeEnd '' @ ipString (RangeEnd r) @ '' not in network '' @ netString (Subnet r)), r)
             else (Ok (), r)))
     else (case lastIP (Subnet r) of
         Ok ip \<Rightarrow> (Ok (), r\<lparr>RangeEnd := ip\<rparr>)
       | Err e \<Rightarrow> (Err e, r)
       | Panic \<Rightarrow> (Panic, r)))"

definition Range_Canonicalize :: "(Range, unit) act" where
  "Range_Canonicalize =
     abind canonSubnet (\<lambda>_. abind canonGateway (\<lambda>_. abind canonStart (\<lambda>_. canonEnd)))"

section \<open>RangeSet\<close>

type_synonym RangeSet = "Range list"

definition RangeSet_String :: "RangeSet \<Rightarrow> string" where
  "RangeSet_String s = join '','' (map Range_String s)"

definition RangeFor :: "RangeSet \<Rightarrow> ip \<Rightarrow> Range result" where
  "RangeFor s a =
     rbind (canonicalizeIP a) (\<lambda>addr.
       case List.find (\<lambda>r. Range_Contains r addr) s of
         Some r \<Rightarrow> Ok r
       | None \<Rightarrow> Err (ipString addr @ '' not in range set '' @ RangeSet_String s))"

definition RangeSet_Contains :: "RangeSet \<Rightarrow> ip \<Rightarrow> bool" where
  "RangeSet_Contains s a = is_Ok (RangeFor s a)"

definition RangeSet_Overlaps :: "RangeSet \<Rightarrow> RangeSet \<Rightarrow> bool" where
  "RangeSet_Overlaps s p1 = (\<exists>r \<in> set s. \<exists>r1 \<in> set p1. Range_Overlaps r r1)"

text \<open>
  The first loop of \<^verbatim>\<open>RangeSet.Canonicalize\<close>: \<open>done\<close> are the ranges already canonical (in
  reverse), \<open>fam\<close> the address length of the first one.
\<close>

fun canonRanges :: "nat option \<Rightarrow> RangeSet \<Rightarrow> RangeSet \<Rightarrow> unit result \<times> RangeSet" where
  "canonRanges fam prev [] = (Ok (), rev prev)"
| "canonRanges fam prev (r # rs) =
     (case Range_Canonicalize r of
        (Ok _, r') \<Rightarrow>
          (case fam of
             None \<Rightarrow> canonRanges (Some (length (RangeStart r'))) (r' # prev) rs
           | Some f \<Rightarrow> if f \<noteq> length (RangeStart r')
               then (Err ''mixed address families'', rev prev @ r' # rs)
               else canonRanges fam (r' # prev) rs)
      | (Err e, r') \<Rightarrow> (Err e, rev prev @ r' # rs)
      | (Panic, r') \<Rightarrow> (Panic, rev prev @ r' # rs))"

text \<open>The second loop: the first pair that overlaps.\<close>

fun findOverlap :: "RangeSet \<Rightarrow> (Range \<times> Range) option" where
  "findOverlap [] = None"
| "findOverlap (r1 # rs) =
     (case List.find (Range_Overlaps r1) rs of
        Some r2 \<Rightarrow> Some (r1, r2)
      | None \<Rightarrow> findOverlap rs)"

definition RangeSet_Canonicalize :: "(RangeSet, unit) act" where
  "RangeSet_Canonicalize s =
     (if s = [] then (Err ''empty range set'', s)
      else case canonRanges None [] s of
        (Ok _, s') \<Rightarrow>
          (case findOverlap s' of
             Some (r1, r2) \<Rightarrow>
               (Err (''subnets '' @ Range_String r1 @ '' and '' @ Range_String r2 @ '' overlap''), s')
           | None \<Rightarrow> (Ok (), s'))
      | (Err e, s') \<Rightarrow> (Err e, s')
      | (Panic, s') \<Rightarrow> (Panic, s'))"

section \<open>Well-formed ranges are intervals\<close>

definition canonical_ip :: "ip \<Rightarrow> bool" where
  "canonical_ip a \<longleftrightarrow> length a = 4 \<or> (length a = 16 \<and> To4 a = None)"

lemma canonicalizeIP_canonical: "canonicalizeIP a = Ok x \<Longrightarrow> canonical_ip x"
  by (auto simp: canonicalizeIP_def canonical_ip_def To4_def To16_def split: if_splits)

lemma canonicalizeIP_id: "canonical_ip a \<Longrightarrow> canonicalizeIP a = Ok a"
  by (auto simp: canonicalizeIP_def canonical_ip_def To4_def To16_def split: if_splits)

lemma canonicalizeIP_no_panic [simp]: "canonicalizeIP a \<noteq> Panic"
  by (auto simp: canonicalizeIP_def split: option.splits)

lemma canonical_To4: "canonical_ip a \<Longrightarrow> (case To4 a of Some x \<Rightarrow> x | None \<Rightarrow> a) = a"
  by (auto simp: canonical_ip_def To4_def split: if_splits)

lemma canonical_ipToInt: "canonical_ip a \<Longrightarrow> ipToInt a = bytesVal a"
  by (auto simp: canonical_ip_def To4_def To16_def ipToInt_def split: if_splits)

lemma canonical_length: "canonical_ip a \<Longrightarrow> length a = 4 \<or> length a = 16"
  by (auto simp: canonical_ip_def)

lemma canonical_not_Nil: "canonical_ip a \<Longrightarrow> a \<noteq> []"
  by (auto simp: canonical_ip_def)

text \<open>A subnet as Canonicalize leaves it: canonical address, contiguous mask of the same length, at least two host bits.\<close>

definition subnet_wf :: "ipnet \<Rightarrow> bool" where
  "subnet_wf n \<longleftrightarrow> canonical_ip (IPNet_IP n) \<and> length (IPNet_Mask n) = length (IPNet_IP n) \<and>
     (case simpleMaskLength (IPNet_Mask n) of None \<Rightarrow> False
      | Some l \<Rightarrow> l + 2 \<le> 8 * length (IPNet_Mask n))"

definition hostBits :: "ipnet \<Rightarrow> nat" where
  "hostBits n = 8 * length (IPNet_Mask n) - (case simpleMaskLength (IPNet_Mask n) of None \<Rightarrow> 0 | Some l \<Rightarrow> l)"

lemma netContains_div:
  assumes "subnet_wf n" and "canonical_ip a"
  shows "netContains n a \<longleftrightarrow> length a = length (IPNet_IP n) \<and>
    bytesVal a div 2 ^ hostBits n = bytesVal (IPNet_IP n) div 2 ^ hostBits n"
proof -
  obtain l where l: "simpleMaskLength (IPNet_Mask n) = Some l"
    using assms(1) by (auto simp: subnet_wf_def split: option.splits)
  have lm: "length (IPNet_Mask n) = length (IPNet_IP n)" and ci: "canonical_ip (IPNet_IP n)"
    using assms(1) by (auto simp: subnet_wf_def)
  have nn: "networkNumberAndMask n = (IPNet_IP n, IPNet_Mask n)"
    using canonical_length[OF ci] lm by (auto simp: networkNumberAndMask_def canonical_To4[OF ci] Let_def)
  have "netContains n a \<longleftrightarrow> length a = length (IPNet_IP n) \<and>
      bytesAnd (IPNet_IP n) (IPNet_Mask n) = bytesAnd a (IPNet_Mask n)"
    by (simp add: netContains_def nn canonical_To4[OF assms(2)])
  then show ?thesis
    using netAnd_prefix[OF l, of "IPNet_IP n" a] lm by (auto simp: hostBits_def l)
qed

definition Range_wf :: "Range \<Rightarrow> bool" where
  "Range_wf r \<longleftrightarrow> subnet_wf (Subnet r) \<and>
     canonical_ip (RangeStart r) \<and> netContains (Subnet r) (RangeStart r) \<and>
     canonical_ip (RangeEnd r) \<and> netContains (Subnet r) (RangeEnd r) \<and>
     canonical_ip (Gateway r) \<and> netContains (Subnet r) (Gateway r) \<and>
     Cmp (RangeStart r) (RangeEnd r) \<le> 0"

lemma Cmp_less: "Cmp a b < 0 \<longleftrightarrow> ipToInt a < ipToInt b"
  by (simp add: Cmp_def)

lemma Cmp_greater: "Cmp a b > 0 \<longleftrightarrow> ipToInt b < ipToInt a"
  by (simp add: Cmp_def)

lemma Cmp_le: "Cmp a b \<le> 0 \<longleftrightarrow> ipToInt a \<le> ipToInt b"
  by (simp add: Cmp_def)

lemma Range_Contains_iff:
  assumes "Range_wf r"
  shows "Range_Contains r a \<longleftrightarrow> (\<exists>x. canonicalizeIP a = Ok x \<and>
     length x = length (IPNet_IP (Subnet r)) \<and>
     bytesVal x div 2 ^ hostBits (Subnet r) = bytesVal (IPNet_IP (Subnet r)) div 2 ^ hostBits (Subnet r) \<and>
     bytesVal (RangeStart r) \<le> bytesVal x \<and> bytesVal x \<le> bytesVal (RangeEnd r))"
proof (cases "canonicalizeIP a")
  case (Ok x)
  have cx: "canonical_ip x" by (rule canonicalizeIP_canonical[OF Ok])
  show ?thesis
    using assms canonical_not_Nil
    by (auto simp: Range_Contains_def Ok Range_wf_def netContains_div[OF _ cx] Cmp_less Cmp_greater
        canonical_ipToInt cx not_less)
qed (auto simp: Range_Contains_def)

lemma Range_Contains_ends:
  assumes "Range_wf r"
  shows "Range_Contains r (RangeStart r)" and "Range_Contains r (RangeEnd r)"
  using assms
  by (auto simp: Range_Contains_iff[OF assms] Range_wf_def canonicalizeIP_id Cmp_le canonical_ipToInt
      netContains_div)

lemma div_between:
  "(a :: nat) \<le> b \<Longrightarrow> b \<le> c \<Longrightarrow> a div m = n \<Longrightarrow> c div m = n \<Longrightarrow> b div m = n"
  by (metis div_le_mono le_antisym)

lemma overlap_start:
  assumes "Range_wf r" "Range_wf r1" "Range_Contains r a" "Range_Contains r1 a"
    and "bytesVal (RangeStart r) \<le> bytesVal (RangeStart r1)"
  shows "Range_Contains r (RangeStart r1)"
proof -
  obtain x where x: "canonicalizeIP a = Ok x" "length x = length (IPNet_IP (Subnet r))"
     "bytesVal x div 2 ^ hostBits (Subnet r) = bytesVal (IPNet_IP (Subnet r)) div 2 ^ hostBits (Subnet r)"
     "bytesVal x \<le> bytesVal (RangeEnd r)"
    using assms(3) Range_Contains_iff[OF assms(1)] by auto
  have x1: "length x = length (IPNet_IP (Subnet r1))" "bytesVal (RangeStart r1) \<le> bytesVal x"
    using assms(4) Range_Contains_iff[OF assms(2)] x(1) by auto
  have s1: "canonical_ip (RangeStart r1)" "length (RangeStart r1) = length (IPNet_IP (Subnet r1))"
    using assms(2) by (auto simp: Range_wf_def netContains_div)
  have s: "bytesVal (RangeStart r) div 2 ^ hostBits (Subnet r) =
      bytesVal (IPNet_IP (Subnet r)) div 2 ^ hostBits (Subnet r)"
    using assms(1) by (auto simp: Range_wf_def netContains_div)
  have "bytesVal (RangeStart r1) div 2 ^ hostBits (Subnet r) =
      bytesVal (IPNet_IP (Subnet r)) div 2 ^ hostBits (Subnet r)"
    by (rule div_between[OF assms(5) x1(2) s x(3)])
  then show ?thesis
    using s1 x(2,4) x1 assms(5) by (auto simp: Range_Contains_iff[OF assms(1)] canonicalizeIP_id)
qed

lemma Range_Overlaps_sym: "Range_Overlaps r r1 = Range_Overlaps r1 r"
  by (auto simp: Range_Overlaps_def)

lemma Range_Overlaps_complete:
  assumes "Range_wf r" "Range_wf r1" "Range_Contains r a" "Range_Contains r1 a"
  shows "Range_Overlaps r r1"
proof -
  have l: "length (RangeStart q) = length (IPNet_IP (Subnet q))" if "Range_wf q" for q
    using that by (auto simp: Range_wf_def netContains_div)
  have "length (IPNet_IP (Subnet r)) = length (IPNet_IP (Subnet r1))"
    using assms(3,4) by (auto simp: Range_Contains_iff[OF assms(1)] Range_Contains_iff[OF assms(2)])
  then have "length (RangeStart r) = length (RangeStart r1)" using l assms(1,2) by simp
  moreover have "Range_Contains r (RangeStart r1) \<or> Range_Contains r1 (RangeStart r)"
    using overlap_start[OF assms] overlap_start[OF assms(2,1,4,3)] by linarith
  ultimately show ?thesis by (auto simp: Range_Overlaps_def)
qed

lemma Range_Overlaps_sound:
  assumes "Range_wf r" "Range_wf r1" "Range_Overlaps r r1"
  shows "\<exists>a. Range_Contains r a \<and> Range_Contains r1 a"
  using assms Range_Contains_ends[OF assms(1)] Range_Contains_ends[OF assms(2)]
  by (auto simp: Range_Overlaps_def split: if_splits)

section \<open>Defaults: the next and the last address\<close>

lemma bytesVal_snoc: "bytesVal (bs @ [b]) = 256 * bytesVal bs + unat b"
  by (induction bs) (simp_all add: algebra_simps)

lemma bytesVal_natBytes: "bytesVal (natBytes n) = n"
proof (induction n rule: natBytes.induct)
  case (1 n)
  show ?case
  proof (cases "n = 0")
    case True
    then show ?thesis by (simp add: natBytes.simps)
  next
    case False
    then have "bytesVal (natBytes n) = 256 * (n div 256) + unat (word_of_nat (n mod 256) :: 8 word)"
      using 1 by (simp add: natBytes.simps[of n] bytesVal_snoc)
    then show ?thesis by (simp add: unat_of_nat)
  qed
qed

lemma length_natBytes: "256 ^ l \<le> n \<Longrightarrow> n < 256 ^ Suc l \<Longrightarrow> length (natBytes n) = Suc l"
proof (induction l arbitrary: n)
  case 0
  then show ?case by (simp add: natBytes.simps[of n] natBytes.simps[of 0])
next
  case (Suc l)
  have "256 ^ l \<le> n div 256" and "n div 256 < 256 ^ Suc l"
    using Suc.prems by (simp_all add: less_eq_div_iff_mult_less_eq div_less_iff_less_mult mult.commute)
  then have "length (natBytes (n div 256)) = Suc l" by (rule Suc.IH)
  moreover have "n \<noteq> 0" using Suc.prems(1) by (metis le_zero_eq power_not_zero zero_neq_numeral)
  ultimately show ?case by (simp add: natBytes.simps[of n])
qed

lemma bytesVal_ge_head: "b \<noteq> 0 \<Longrightarrow> 256 ^ length bs \<le> bytesVal (b # bs)"
proof -
  assume "b \<noteq> 0"
  then have "1 \<le> unat b" by (simp add: Suc_leI unat_gt_0)
  then have "1 * 256 ^ length bs \<le> unat b * 256 ^ length bs" by (rule mult_right_mono) simp
  then have "256 ^ length bs \<le> unat b * 256 ^ length bs" by simp
  then show ?thesis by (simp only: bytesVal.simps trans_le_add1)
qed

lemma bytesVal_small_head: "bytesVal (b # bs) < 256 ^ length bs \<Longrightarrow> b = 0"
  using bytesVal_ge_head by (metis not_le)

lemma canonical_by_value:
  assumes "length a = 4 \<or> length a = 16" and "256 ^ (length a - 1) \<le> bytesVal a"
  shows "canonical_ip a"
proof (cases "length a = 4")
  case False
  then obtain b bs where a: "a = b # bs" "length bs = 15" using assms(1) by (cases a) auto
  have "b \<noteq> 0"
  proof
    assume "b = 0"
    then have "bytesVal a = bytesVal bs" using a by simp
    then show False using assms(2) bytesVal_less[of bs] a by simp
  qed
  then have "take 12 a \<noteq> v4InV6Prefix" using a by (auto simp: v4InV6Prefix_def)
  then show ?thesis using False assms(1) by (auto simp: canonical_ip_def To4_def)
qed (simp add: canonical_ip_def)

lemma hostBits_bounds:
  assumes "subnet_wf n"
  shows "2 \<le> hostBits n" and "hostBits n \<le> 8 * length (IPNet_IP n)"
  using assms by (auto simp: subnet_wf_def hostBits_def split: option.splits)

lemma bytesVal_zeros: "list_all (\<lambda>b. b = 0) bs \<Longrightarrow> bytesVal bs = 0"
  by (induction bs) simp_all

lemma network_low_bits:
  assumes "simpleMaskLength m = Some n" and "length xs = length m" and "bytesAnd xs m = xs"
  shows "2 ^ (8 * length m - n) dvd bytesVal xs"
  using assms
proof (induction m arbitrary: n xs)
  case Nil
  then show ?case by simp
next
  case (Cons v vs)
  obtain x xs' where x: "xs = x # xs'" "length xs' = length vs" using Cons.prems(2) by (cases xs) auto
  show ?case
  proof (cases "v = 255")
    case True
    then obtain n' where n': "simpleMaskLength vs = Some n'" "n = 8 + n'" using Cons.prems(1) by auto
    have d: "2 ^ (8 * length vs - n') dvd bytesVal xs'"
      by (rule Cons.IH[OF n'(1) x(2)]) (use Cons.prems(3) x in simp)
    have "(2 :: nat) ^ (8 * length vs - n') dvd 2 ^ (8 * length vs)" by (simp add: le_imp_power_dvd)
    then have "2 ^ (8 * length vs - n') dvd unat x * 256 ^ length xs'" using x(2) by (simp add: pow256)
    then show ?thesis using d n' x by simp
  next
    case False
    have lo: "leadOnes 8 v = (n, 0)" and z: "list_all (\<lambda>b. b = 0) vs"
      using False Cons.prems(1) by (auto split: prod.splits if_splits)
    have n: "n \<le> 8" "v = NOT (mask (8 - n))" using leadOnes_mask[OF lo] by auto
    have "xs' = vs" using bytesAnd_zeros[OF z x(2)] Cons.prems(3) x by simp
    then have "bytesVal xs' = 0" using z by (auto simp: bytesVal_zeros)
    moreover have "2 ^ (8 - n) dvd unat x"
    proof -
      have "x AND mask (8 - n) = 0"
      proof -
        have "x = x AND NOT (mask (8 - n))" using Cons.prems(3) x n(2) by simp
        then have "x AND mask (8 - n) = x AND (NOT (mask (8 - n)) AND mask (8 - n))"
          by (metis and.assoc)
        then show ?thesis by simp
      qed
      then have "take_bit (8 - n) (unat x) = 0"
        by (metis take_bit_eq_mask unat_0 unsigned_take_bit_eq)
      then show ?thesis by (simp add: take_bit_eq_mod mod_eq_0_iff_dvd)
    qed
    ultimately have "2 ^ (8 * length vs) * 2 ^ (8 - n) dvd bytesVal xs"
      using x by (simp add: pow256 mult.commute)
    moreover have "8 * length (v # vs) - n = 8 * length vs + (8 - n)" using n by simp
    ultimately show ?thesis by (simp only: power_add)
  qed
qed

lemma NextIP_props:
  assumes w: "subnet_wf n" and z: "bytesAnd (IPNet_IP n) (IPNet_Mask n) = IPNet_IP n"
    and h: "hd (IPNet_IP n) \<noteq> 0"
  shows "canonical_ip (NextIP (IPNet_IP n))" and "netContains n (NextIP (IPNet_IP n))"
    and "bytesVal (NextIP (IPNet_IP n)) = bytesVal (IPNet_IP n) + 1"
proof -
  let ?a = "IPNet_IP n" and ?k = "hostBits n"
  have c: "canonical_ip ?a" and lm: "length (IPNet_Mask n) = length ?a" using w by (auto simp: subnet_wf_def)
  obtain b bs where a: "?a = b # bs" using canonical_not_Nil[OF c] by (cases ?a) auto
  obtain l where l: "simpleMaskLength (IPNet_Mask n) = Some l"
    using w by (auto simp: subnet_wf_def split: option.splits)
  have "2 ^ ?k dvd bytesVal ?a"
    using network_low_bits[OF l _ z] lm by (simp add: hostBits_def l)
  then obtain q where q: "bytesVal ?a = 2 ^ ?k * q" by (auto elim: dvdE)
  have k2: "(2 :: nat) ^ ?k > 1" using hostBits_bounds(1)[OF w] by (intro one_less_power) auto
  have "2 ^ ?k dvd (256 :: nat) ^ length ?a"
    using hostBits_bounds(2)[OF w] by (simp add: pow256 le_imp_power_dvd)
  then obtain p where p: "(256 :: nat) ^ length ?a = 2 ^ ?k * p" by (auto elim: dvdE)
  have qp: "q < p" using bytesVal_less[of ?a] q p by simp
  then have "2 ^ ?k * (q + 1) \<le> 2 ^ ?k * p" by (intro mult_le_mono2) simp
  then have up: "bytesVal ?a + 1 < 256 ^ length ?a" using q p k2 by (simp add: algebra_simps)
  have low: "256 ^ length bs \<le> bytesVal ?a + 1" using bytesVal_ge_head[of b bs] h a by simp
  have len: "length (NextIP ?a) = length ?a"
    using length_natBytes[OF low] up canonical_ipToInt[OF c] a by (simp add: NextIP_def intToIP_def)
  show v: "bytesVal (NextIP ?a) = bytesVal ?a + 1"
    by (simp add: NextIP_def intToIP_def canonical_ipToInt[OF c] bytesVal_natBytes)
  show cn: "canonical_ip (NextIP ?a)"
    using canonical_length[OF c] len low v a by (intro canonical_by_value) auto
  have "bytesVal (NextIP ?a) div 2 ^ ?k = bytesVal ?a div 2 ^ ?k"
    using div_mult_self3[of "2 ^ ?k" q 1] k2 by (simp add: v q mult.commute)
  then show "netContains n (NextIP ?a)" using netContains_div[OF w cn] len by simp
qed

lemma unat_or_mask:
  fixes x :: "8 word"
  assumes "j \<le> 8"
  shows "unat (x OR mask j) = unat x div 2 ^ j * 2 ^ j + (2 ^ j - 1)"
proof -
  have "unat (x OR mask j) = unat x OR unat (mask j :: 8 word)" by (simp add: unsigned_or_eq)
  also have "unat (mask j :: 8 word) = mask j"
    by (rule bit_eqI) (use assms in \<open>auto simp: bit_simps\<close>)
  also have "unat x OR mask j = push_bit j (drop_bit j (unat x)) OR mask j"
    by (rule bit_eqI) (auto simp: bit_simps)
  also have "\<dots> = push_bit j (drop_bit j (unat x)) + mask j"
    by (rule disjunctive_add [symmetric]) (auto simp: bit_simps)
  also have "\<dots> = unat x div 2 ^ j * 2 ^ j + (2 ^ j - 1)"
    by (simp add: push_bit_eq_mult drop_bit_eq_div mask_eq_exp_minus_1)
  finally show ?thesis .
qed

lemma or_not_255: "x OR NOT (255 :: 8 word) = x"
proof -
  have "NOT (255 :: 8 word) = 0" by code_simp
  then show ?thesis by (simp only: or.right_neutral)
qed

lemma bytesVal_ones: "list_all (\<lambda>b. b = 0) m \<Longrightarrow> length xs = length m \<Longrightarrow>
   bytesVal (map2 (\<lambda>b m. b OR NOT m) xs m) = 256 ^ length m - 1"
proof (induction m arbitrary: xs)
  case Nil
  then show ?case by simp
next
  case (Cons v vs)
  obtain x xs' where x: "xs = x # xs'" "length xs' = length vs" using Cons.prems(2) by (cases xs) auto
  have "unat (-1 :: 8 word) = 255" by code_simp
  then have "bytesVal (map2 (\<lambda>b m. b OR NOT m) xs (v # vs)) = 255 * 256 ^ length vs + (256 ^ length vs - 1)"
    using Cons x by simp
  moreover have "(1 :: nat) \<le> 256 ^ length vs" by simp
  ultimately show ?case by simp
qed

lemma bytesVal_hostOnes:
  assumes "simpleMaskLength m = Some n" and "length xs = length m"
  shows "bytesVal (map2 (\<lambda>b m. b OR NOT m) xs m) + 1 =
    (bytesVal xs div 2 ^ (8 * length m - n) + 1) * 2 ^ (8 * length m - n)"
  using assms
proof (induction m arbitrary: n xs)
  case Nil
  then show ?case by simp
next
  case (Cons v vs)
  obtain x xs' where x: "xs = x # xs'" "length xs' = length vs" using Cons.prems(2) by (cases xs) auto
  show ?case
  proof (cases "v = 255")
    case True
    then obtain n' where n': "simpleMaskLength vs = Some n'" "n = 8 + n'" using Cons.prems(1) by auto
    let ?k = "8 * length vs - n'"
    have kk: "8 * length (v # vs) - n = ?k" using n' by simp
    have e: "(2 :: nat) ^ (8 * length vs) = 2 ^ (8 * length vs - ?k) * 2 ^ ?k"
      by (simp add: power_add [symmetric])
    have "x OR NOT v = x" unfolding True by (rule or_not_255)
    then have "bytesVal (map2 (\<lambda>b m. b OR NOT m) xs (v # vs)) + 1 =
        unat x * 2 ^ (8 * length vs) + (bytesVal xs' div 2 ^ ?k + 1) * 2 ^ ?k"
      using Cons.IH[OF n'(1) x(2)] x by (simp add: pow256)
    also have "\<dots> = (unat x * 2 ^ (8 * length vs - ?k) + bytesVal xs' div 2 ^ ?k + 1) * 2 ^ ?k"
      by (simp only: e) (simp add: algebra_simps)
    also have "\<dots> = (bytesVal xs div 2 ^ ?k + 1) * 2 ^ ?k"
      using bytesVal_div_head[of ?k xs' x] x by (simp del: bytesVal.simps)
    finally show ?thesis by (simp only: kk)
  next
    case False
    have lo: "leadOnes 8 v = (n, 0)" and z: "list_all (\<lambda>b. b = 0) vs"
      using False Cons.prems(1) by (auto split: prod.splits if_splits)
    have n: "n \<le> 8" "v = NOT (mask (8 - n))" using leadOnes_mask[OF lo] by auto
    have k: "8 * length (v # vs) - n = 8 * length vs + (8 - n)" using n by simp
    have h: "bytesVal xs div 2 ^ (8 * length vs) = unat x"
      using bytesVal_div_head[of "8 * length vs" xs' x] bytesVal_less[of xs'] x
      by (simp add: pow256 del: bytesVal.simps)
    have "bytesVal (map2 (\<lambda>b m. b OR NOT m) xs (v # vs)) =
        unat (x OR mask (8 - n)) * 2 ^ (8 * length vs) + (2 ^ (8 * length vs) - 1)"
      using bytesVal_ones[OF z x(2)] x n(2) by (simp add: pow256)
    then have "bytesVal (map2 (\<lambda>b m. b OR NOT m) xs (v # vs)) + 1 =
        (unat (x OR mask (8 - n)) + 1) * 2 ^ (8 * length vs)"
      by (simp add: algebra_simps)
    also have "unat (x OR mask (8 - n)) + 1 = (unat x div 2 ^ (8 - n) + 1) * 2 ^ (8 - n)"
      by (simp add: unat_or_mask algebra_simps)
    finally show ?thesis
      by (simp only: k power_add div_mult2_eq h) (simp add: algebra_simps)
  qed
qed

section \<open>The default end of a range\<close>

text \<open>A network address: no host bit is set, and its first byte is not zero.\<close>

definition network_wf :: "ipnet \<Rightarrow> bool" where
  "network_wf n \<longleftrightarrow> subnet_wf n \<and> bytesAnd (IPNet_IP n) (IPNet_Mask n) = IPNet_IP n \<and> hd (IPNet_IP n) \<noteq> 0"

lemma network_base:
  assumes "network_wf n"
  shows "2 ^ hostBits n dvd bytesVal (IPNet_IP n)"
    and "256 ^ (length (IPNet_IP n) - 1) \<le> bytesVal (IPNet_IP n)"
proof -
  have w: "subnet_wf n" "canonical_ip (IPNet_IP n)" "hd (IPNet_IP n) \<noteq> 0"
    using assms by (auto simp: network_wf_def subnet_wf_def)
  obtain l where l: "simpleMaskLength (IPNet_Mask n) = Some l"
    using w by (auto simp: subnet_wf_def split: option.splits)
  show "2 ^ hostBits n dvd bytesVal (IPNet_IP n)"
    using network_low_bits[OF l] assms by (simp add: hostBits_def l network_wf_def subnet_wf_def)
  show "256 ^ (length (IPNet_IP n) - 1) \<le> bytesVal (IPNet_IP n)"
    using canonical_not_Nil[OF w(2)] w(3) bytesVal_ge_head by (cases "IPNet_IP n") auto
qed

lemma div_low: "j < k \<Longrightarrow> (k * q + j) div k = (q :: nat)"
  by simp

lemma length4: "length e = 4 \<Longrightarrow> \<exists>a b c d. e = [a, b, c, d]"
  by (auto simp: length_Suc_conv numeral_eq_Suc)

lemma bytesVal_dec_last:
  assumes "length e = 4" and "e ! 3 \<noteq> 0"
  shows "bytesVal (e[3 := e ! 3 - 1]) = bytesVal e - 1"
proof -
  obtain a b c d where e: "e = [a, b, c, d]"
    using length4[OF assms(1)] by blast
  have "unat (d - 1) = unat d - 1" "unat d > 0" using assms(2) e by (simp_all add: unat_minus_one unat_gt_0)
  then show ?thesis by (simp add: e)
qed

text \<open>The last address of a network has all host bits set; in IPv4 it is the one before.\<close>

lemma lastIP_props:
  assumes "network_wf n"
  obtains e where "lastIP n = Ok e" "canonical_ip e" "netContains n e"
    "bytesVal e = bytesVal (IPNet_IP n) + 2 ^ hostBits n - (if length (IPNet_IP n) = 4 then 2 else 1)"
proof -
  let ?a = "IPNet_IP n" and ?m = "IPNet_Mask n" and ?k = "hostBits n"
  let ?f = "map2 (\<lambda>b m. b OR NOT m) ?a ?m"
  have w: "subnet_wf n" using assms by (simp add: network_wf_def)
  have c: "canonical_ip ?a" and lm: "length ?m = length ?a" using w by (auto simp: subnet_wf_def)
  obtain l where l: "simpleMaskLength ?m = Some l"
    using w by (auto simp: subnet_wf_def split: option.splits)
  obtain q where q: "bytesVal ?a = 2 ^ ?k * q" using network_base(1)[OF assms] by (auto elim: dvdE)
  have "bytesVal ?f + 1 = (bytesVal ?a div 2 ^ ?k + 1) * 2 ^ ?k"
    using bytesVal_hostOnes[OF l, of ?a] lm by (simp add: hostBits_def l)
  then have f: "bytesVal ?f + 1 = bytesVal ?a + 2 ^ ?k" by (simp add: q algebra_simps)
  have k2: "(4 :: nat) \<le> 2 ^ ?k"
    using power_increasing[OF hostBits_bounds(1)[OF w], of "2 :: nat"] by simp
  have d4: "(4 :: nat) dvd 2 ^ ?k" using le_imp_power_dvd[OF hostBits_bounds(1)[OF w], of "2 :: nat"] by simp
  have lf: "length ?f = length ?a" using lm by simp
  have lo: "256 ^ (length ?a - 1) \<le> bytesVal ?a" by (rule network_base(2)[OF assms])
  show ?thesis
  proof (cases "length ?a = 4")
    case True
    have "length ?f = 4" using lf True by simp
    from length4[OF this] obtain a b c d where e: "?f = [a, b, c, d]" by (elim exE)
    have nz: "?f ! 3 \<noteq> 0"
    proof
      assume "?f ! 3 = 0"
      then have "bytesVal ?f = 256 * (unat a * 65536 + unat b * 256 + unat c)" by (simp add: e)
      then have "4 dvd bytesVal ?f" by presburger
      moreover have "4 dvd bytesVal ?f + 1" unfolding f using d4 q by simp
      ultimately have "(4 :: nat) dvd 1" using dvd_add_right_iff by blast
      then show False by simp
    qed
    let ?e = "?f[3 := ?f ! 3 - 1]"
    have v: "bytesVal ?e = bytesVal ?a + 2 ^ ?k - 2"
      using bytesVal_dec_last[OF _ nz] lf True f by simp
    have "bytesVal ?e = 2 ^ ?k * q + (2 ^ ?k - 2)" using k2 q v by simp
    then have "bytesVal ?e div 2 ^ ?k = q" using div_low[of "2 ^ ?k - 2" "2 ^ ?k" q] k2 by simp
    then have "bytesVal ?e div 2 ^ ?k = bytesVal ?a div 2 ^ ?k" by (simp add: q)
    moreover have ce: "canonical_ip ?e" using lf True by (simp add: canonical_ip_def)
    ultimately have "netContains n ?e" using netContains_div[OF w ce] lf by simp
    moreover have "lastIP n = Ok ?e" using lm True by (simp add: lastIP_def To4_def Let_def)
    ultimately show ?thesis using that ce v True by simp
  next
    case False
    then have l16: "length ?a = 16" and t4: "To4 ?a = None" using c by (auto simp: canonical_ip_def)
    have v: "bytesVal ?f = bytesVal ?a + 2 ^ ?k - 1" using f by simp
    have "bytesVal ?f = 2 ^ ?k * q + (2 ^ ?k - 1)" using k2 q v by simp
    then have "bytesVal ?f div 2 ^ ?k = q" using div_low[of "2 ^ ?k - 1" "2 ^ ?k" q] k2 by (simp only:)
    then have "bytesVal ?f div 2 ^ ?k = bytesVal ?a div 2 ^ ?k" by (simp add: q)
    moreover have ce: "canonical_ip ?f"
      using lf l16 lo v k2 by (intro canonical_by_value) auto
    ultimately have "netContains n ?f" using netContains_div[OF w ce] lf by simp
    moreover have "lastIP n = Ok ?f" using lm t4 by (simp add: lastIP_def Let_def)
    ultimately show ?thesis using that ce v False by simp
  qed
qed

section \<open>Canonicalize\<close>

lemma maskSize_wf:
  assumes "maskSize m = (ones, masklen)" and "\<not> ones > masklen - 2"
  shows "\<exists>l. simpleMaskLength m = Some l \<and> l + 2 \<le> 8 * length m"
  using assms by (auto simp: maskSize_def split: option.splits)

lemma canonSubnet_Ok:
  assumes "canonSubnet r = (Ok (), r')"
  shows "subnet_wf (Subnet r')" and "\<exists>ip. canonicalizeIP (IPNet_IP (Subnet r)) = Ok ip \<and>
    r' = r\<lparr>Subnet := (Subnet r)\<lparr>IPNet_IP := ip\<rparr>\<rparr>"
  using assms maskSize_wf[of "IPNet_Mask (Subnet r)"] canonicalizeIP_canonical[of "IPNet_IP (Subnet r)"]
  by (fastforce simp: canonSubnet_def subnet_wf_def Let_def split: result.splits prod.splits if_splits)+

lemma canonGateway_Ok:
  assumes "canonGateway r = (Ok (), r')"
  shows "if Gateway r = [] then r' = r\<lparr>Gateway := NextIP (IPNet_IP (Subnet r))\<rparr>
    else \<exists>gw. canonicalizeIP (Gateway r) = Ok gw \<and> netContains (Subnet r) gw \<and> r' = r\<lparr>Gateway := gw\<rparr>"
  using assms by (auto simp: canonGateway_def Let_def split: result.splits if_splits)

lemma canonStart_Ok:
  assumes "canonStart r = (Ok (), r')"
  shows "if RangeStart r = [] then r' = r\<lparr>RangeStart := NextIP (IPNet_IP (Subnet r))\<rparr>
    else \<exists>a. canonicalizeIP (RangeStart r) = Ok a \<and> r' = r\<lparr>RangeStart := a\<rparr> \<and> Range_Contains r' a"
  using assms by (auto simp: canonStart_def Let_def split: result.splits if_splits)

lemma canonEnd_Ok:
  assumes "canonEnd r = (Ok (), r')"
  shows "if RangeEnd r = [] then \<exists>a. lastIP (Subnet r) = Ok a \<and> r' = r\<lparr>RangeEnd := a\<rparr>
    else \<exists>a. canonicalizeIP (RangeEnd r) = Ok a \<and> r' = r\<lparr>RangeEnd := a\<rparr> \<and> Range_Contains r' a"
  using assms by (auto simp: canonEnd_def Let_def split: result.splits if_splits)

lemma Range_Contains_net: "Range_Contains r a \<Longrightarrow> canonical_ip a \<Longrightarrow> netContains (Subnet r) a"
  by (auto simp: Range_Contains_def canonicalizeIP_id split: if_splits)

lemma Range_Canonicalize_steps:
  assumes "Range_Canonicalize r = (Ok (), r')"
  obtains r1 r2 r3 where "canonSubnet r = (Ok (), r1)" "canonGateway r1 = (Ok (), r2)"
    "canonStart r2 = (Ok (), r3)" "canonEnd r3 = (Ok (), r')"
  using assms by (auto simp: Range_Canonicalize_def abind_eq_Ok)

lemma default_start_below_last:
  assumes "network_wf n" and "lastIP n = Ok e"
  shows "bytesVal (NextIP (IPNet_IP n)) \<le> bytesVal e"
proof -
  have w: "subnet_wf n" using assms by (simp add: network_wf_def)
  have k2: "(4 :: nat) \<le> 2 ^ hostBits n"
    using power_increasing[OF hostBits_bounds(1)[OF w], of "2 :: nat"] by simp
  have "bytesVal (NextIP (IPNet_IP n)) = bytesVal (IPNet_IP n) + 1"
    using assms(1) by (intro NextIP_props) (auto simp: network_wf_def)
  moreover obtain e' where "lastIP n = Ok e'"
    "bytesVal e' = bytesVal (IPNet_IP n) + 2 ^ hostBits n - (if length (IPNet_IP n) = 4 then 2 else 1)"
    using lastIP_props[OF assms(1)] .
  ultimately show ?thesis using assms(2) k2 by (simp split: if_splits)
qed

lemma network_wf_next:
  assumes "network_wf n"
  shows "canonical_ip (NextIP (IPNet_IP n))" "netContains n (NextIP (IPNet_IP n))"
  using assms NextIP_props[of n] by (auto simp: network_wf_def)

lemma Range_Canonicalize_wf:
  assumes "Range_Canonicalize r = (Ok (), r')" and "network_wf (Subnet r')"
    and "RangeStart r = [] \<or> RangeEnd r \<noteq> []"
  shows "Range_wf r'"
proof -
  obtain r1 r2 r3 where s: "canonSubnet r = (Ok (), r1)" "canonGateway r1 = (Ok (), r2)"
    "canonStart r2 = (Ok (), r3)" "canonEnd r3 = (Ok (), r')"
    using assms(1) by (rule Range_Canonicalize_steps)
  note o1 = canonSubnet_Ok[OF s(1)] and o2 = canonGateway_Ok[OF s(2)] and o3 = canonStart_Ok[OF s(3)]
    and o4 = canonEnd_Ok[OF s(4)]
  have fix_net: "Subnet r1 = Subnet r'" "Subnet r2 = Subnet r'" "Subnet r3 = Subnet r'"
    and same: "RangeStart r' = RangeStart r3" "Gateway r' = Gateway r2" "RangeStart r2 = RangeStart r"
      "RangeEnd r3 = RangeEnd r"
    using o1 o2 o3 o4 by (auto split: if_splits)
  note nw = assms(2) network_wf_next[OF assms(2)]
  have w: "subnet_wf (Subnet r')" using o1(1) fix_net by simp
  have g: "canonical_ip (Gateway r')" "netContains (Subnet r') (Gateway r')"
    using o2 nw canonicalizeIP_canonical fix_net same by (auto split: if_splits)
  have a: "canonical_ip (RangeStart r') \<and> netContains (Subnet r') (RangeStart r')"
    using o3 nw canonicalizeIP_canonical Range_Contains_net[of r3] fix_net same
    by (auto split: if_splits)
  have e: "canonical_ip (RangeEnd r') \<and> netContains (Subnet r') (RangeEnd r')"
  proof (cases "RangeEnd r = []")
    case True
    obtain e' where e': "lastIP (Subnet r') = Ok e'" "canonical_ip e'" "netContains (Subnet r') e'"
      using lastIP_props[OF assms(2)] .
    have "\<exists>a. lastIP (Subnet r3) = Ok a \<and> RangeEnd r' = a" using o4 True same(4) by auto
    then have "RangeEnd r' = e'" using e'(1) by (simp only: fix_net) simp
    then show ?thesis using e' by simp
  next
    case False
    then obtain x where x: "canonicalizeIP (RangeEnd r) = Ok x" "RangeEnd r' = x" "Range_Contains r' x"
      using o4 same by auto
    then show ?thesis using canonicalizeIP_canonical Range_Contains_net by blast
  qed
  have "Cmp (RangeStart r') (RangeEnd r') \<le> 0"
  proof (cases "RangeEnd r = []")
    case True
    have "\<exists>x. lastIP (Subnet r3) = Ok x \<and> RangeEnd r' = x" using o4 True same(4) by auto
    then have l: "lastIP (Subnet r') = Ok (RangeEnd r')" by (simp add: fix_net)
    have "RangeStart r3 = NextIP (IPNet_IP (Subnet r2))" using o3 assms(3) True same(3) by auto
    then have "RangeStart r' = NextIP (IPNet_IP (Subnet r'))" by (simp only: same fix_net)
    then show ?thesis using default_start_below_last[OF assms(2) l] a e
      by (simp add: Cmp_le canonical_ipToInt)
  next
    case False
    then have "Range_Contains r' (RangeEnd r')" using o4 same by auto
    then show ?thesis using a e canonical_not_Nil
      by (auto simp: Range_Contains_def canonicalizeIP_id Cmp_less Cmp_le split: if_splits)
  qed
  then show ?thesis using w g a e by (simp add: Range_wf_def)
qed

lemma Range_Canonicalize_fixpoint:
  assumes "Range_wf r"
  shows "Range_Canonicalize r = (Ok (), r)"
proof -
  have w: "subnet_wf (Subnet r)" and c: "canonical_ip (RangeStart r)" "canonical_ip (RangeEnd r)"
     "canonical_ip (Gateway r)" "netContains (Subnet r) (Gateway r)"
    using assms by (auto simp: Range_wf_def)
  have i: "canonical_ip (IPNet_IP (Subnet r))" "length (IPNet_IP (Subnet r)) = length (IPNet_Mask (Subnet r))"
    using w by (auto simp: subnet_wf_def)
  have m: "\<not> fst (maskSize (IPNet_Mask (Subnet r))) > snd (maskSize (IPNet_Mask (Subnet r))) - 2"
    using w by (auto simp: subnet_wf_def maskSize_def split: option.splits)
  have "canonSubnet r = (Ok (), r)"
    using m i by (auto simp: canonSubnet_def canonicalizeIP_id Let_def split: prod.splits)
  moreover have "canonGateway r = (Ok (), r)"
    using c by (simp add: canonGateway_def canonicalizeIP_id canonical_not_Nil Let_def)
  moreover have "canonStart r = (Ok (), r)" "canonEnd r = (Ok (), r)"
    using c Range_Contains_ends[OF assms]
    by (simp_all add: canonStart_def canonEnd_def canonicalizeIP_id canonical_not_Nil Let_def)
  ultimately show ?thesis by (simp add: Range_Canonicalize_def abind_Ok)
qed

text \<open>The only panic of \<^verbatim>\<open>lastIP\<close> needs a mask shorter than the address, which the subnet step excludes.\<close>

lemma lastIP_subnet_wf: "subnet_wf n \<Longrightarrow> \<exists>e. lastIP n = Ok e"
  by (auto simp: lastIP_def subnet_wf_def Let_def)

lemma Range_Canonicalize_total: "fst (Range_Canonicalize r) \<noteq> Panic"
proof
  assume p: "fst (Range_Canonicalize r) = Panic"
  have n: "fst (canonSubnet r) \<noteq> Panic" "fst (canonGateway q) \<noteq> Panic" "fst (canonStart q) \<noteq> Panic" for r q
    by (auto simp: canonSubnet_def canonGateway_def canonStart_def Let_def split: result.splits prod.splits)
  obtain r1 r2 r3 where s: "canonSubnet r = (Ok (), r1)" "canonGateway r1 = (Ok (), r2)"
    "canonStart r2 = (Ok (), r3)" "fst (canonEnd r3) = Panic"
    using p n(1)[of r] n(2,3) 
    by (auto simp: Range_Canonicalize_def abind_def split: prod.splits result.splits) (metis fst_conv)+
  have "Subnet r3 = Subnet r1"
    using canonGateway_Ok[OF s(2)] canonStart_Ok[OF s(3)] by (auto split: if_splits)
  then obtain e where "lastIP (Subnet r3) = Ok e"
    using lastIP_subnet_wf canonSubnet_Ok(1)[OF s(1)] by auto
  then show False using s(4) by (auto simp: canonEnd_def Let_def split: result.splits if_splits)
qed

section \<open>Canonical range sets\<close>

lemma canonRanges_Ok:
  "canonRanges fam prev rs = (Ok (), s') \<Longrightarrow>
   \<exists>rs'. s' = rev prev @ rs' \<and> list_all2 (\<lambda>r r'. Range_Canonicalize r = (Ok (), r')) rs rs'"
proof (induction fam prev rs rule: canonRanges.induct)
  case (1 fam prev)
  then show ?case by simp
next
  case (2 fam prev r rs)
  obtain r' where r': "Range_Canonicalize r = (Ok (), r')"
    using 2(3) by (auto split: prod.splits result.splits)
  have "\<exists>fam'. canonRanges fam' (r' # prev) rs = (Ok (), s') \<and> 
     (\<exists>rs'. s' = rev (r' # prev) @ rs' \<and> list_all2 (\<lambda>r r'. Range_Canonicalize r = (Ok (), r')) rs rs')"
    using 2(1)[OF r'[symmetric]] 2(2)[OF r'[symmetric]] 2(3) r' by (auto split: option.splits if_splits)
  then obtain rs' where "s' = rev (r' # prev) @ rs'"
    "list_all2 (\<lambda>r r'. Range_Canonicalize r = (Ok (), r')) rs rs'" by blast
  then show ?case using r' by (intro exI[of _ "r' # rs'"]) simp
qed

lemma findOverlap_None:
  "findOverlap rs = None \<Longrightarrow> i < j \<Longrightarrow> j < length rs \<Longrightarrow> \<not> Range_Overlaps (rs ! i) (rs ! j)"
proof (induction rs arbitrary: i j)
  case (Cons r rs)
  have f: "List.find (Range_Overlaps r) rs = None" and n: "findOverlap rs = None"
    using Cons.prems(1) by (auto split: option.splits)
  obtain j' where j: "j = Suc j'" "j' < length rs" using Cons.prems by (cases j) auto
  show ?case
  proof (cases i)
    case 0
    then show ?thesis using f j by (auto simp: find_None_iff)
  next
    case (Suc i')
    then show ?thesis using Cons.IH[OF n, of i' j'] Cons.prems(2) j by simp
  qed
qed simp

lemma RangeSet_Canonicalize_Ok:
  assumes "RangeSet_Canonicalize s = (Ok (), s')"
  shows "list_all2 (\<lambda>r r'. Range_Canonicalize r = (Ok (), r')) s s'" and "findOverlap s' = None" and "s \<noteq> []"
proof -
  have "s \<noteq> []" "canonRanges None [] s = (Ok (), s')" "findOverlap s' = None"
    using assms by (auto simp: RangeSet_Canonicalize_def split: if_splits prod.splits result.splits option.splits)
  then show "list_all2 (\<lambda>r r'. Range_Canonicalize r = (Ok (), r')) s s'" "findOverlap s' = None" "s \<noteq> []"
    using canonRanges_Ok[of None "[]" s s'] by auto
qed

text \<open>The inputs for which the defaults are consistent: see \<open>start_without_end_inverted\<close> for the others.\<close>

definition range_input_ok :: "Range \<Rightarrow> bool" where
  "range_input_ok r \<longleftrightarrow> RangeStart r = [] \<or> RangeEnd r \<noteq> []"

definition RangeSet_wf :: "RangeSet \<Rightarrow> bool" where
  "RangeSet_wf s \<longleftrightarrow> list_all Range_wf s \<and> findOverlap s = None"

lemma RangeSet_Canonicalize_wf:
  assumes "RangeSet_Canonicalize s = (Ok (), s')" and "list_all range_input_ok s"
    and "list_all (\<lambda>r. network_wf (Subnet r)) s'"
  shows "RangeSet_wf s'"
proof -
  note o = RangeSet_Canonicalize_Ok[OF assms(1)]
  have "Range_wf (s' ! i)" if "i < length s'" for i
    using o(1) that assms(2,3)
    by (intro Range_Canonicalize_wf[of "s ! i"])
       (auto simp: list_all2_conv_all_nth list_all_length range_input_ok_def)
  then show ?thesis using o(2) by (simp add: RangeSet_wf_def list_all_length)
qed

lemma RangeSet_wf_unique:
  assumes "RangeSet_wf s" "i < length s" "j < length s" "Range_Contains (s ! i) a" "Range_Contains (s ! j) a"
  shows "i = j"
proof (rule ccontr)
  assume "i \<noteq> j"
  have w: "Range_wf (s ! i)" "Range_wf (s ! j)" using assms(1-3) by (auto simp: RangeSet_wf_def list_all_length)
  have "Range_Overlaps (s ! i) (s ! j)" by (rule Range_Overlaps_complete[OF w assms(4,5)])
  moreover have "\<not> Range_Overlaps (s ! min i j) (s ! max i j)"
    using findOverlap_None[of s "min i j" "max i j"] assms(1-3) \<open>i \<noteq> j\<close> by (auto simp: RangeSet_wf_def)
  ultimately show False using Range_Overlaps_sym by (metis max_def min_def)
qed

lemma Range_Contains_canonical:
  "canonicalizeIP a = Ok x \<Longrightarrow> Range_Contains r x = Range_Contains r a"
  using canonicalizeIP_id[OF canonicalizeIP_canonical] by (simp add: Range_Contains_def)

lemma RangeFor_Ok_iff:
  assumes "RangeSet_wf s" and "canonicalizeIP a = Ok x"
  shows "RangeFor s a = Ok r \<longleftrightarrow> r \<in> set s \<and> Range_Contains r a"
proof
  assume "RangeFor s a = Ok r"
  then show "r \<in> set s \<and> Range_Contains r a"
    using assms(2) Range_Contains_canonical[OF assms(2)]
    by (auto simp: RangeFor_def rbind_eq_Ok find_Some_iff split: option.splits)
next
  assume r: "r \<in> set s \<and> Range_Contains r a"
  then obtain i where i: "i < length s" "s ! i = r" by (auto simp: in_set_conv_nth)
  have "List.find (\<lambda>r. Range_Contains r x) s = Some r"
    unfolding find_Some_iff
    using i r RangeSet_wf_unique[OF assms(1)] Range_Contains_canonical[OF assms(2)]
    by (intro exI[of _ i]) (metis less_trans nat_neq_iff)
  then show "RangeFor s a = Ok r" by (simp add: RangeFor_def assms(2))
qed

section \<open>Properties\<close>

definition net10 :: "8 word \<Rightarrow> ipnet" where
  "net10 b = \<lparr>IPNet_IP = [10, b, 0, 0], IPNet_Mask = [255, 255, 0, 0]\<rparr>"

definition range10 :: "8 word \<Rightarrow> Range" where
  "range10 b = \<lparr>RangeStart = [], RangeEnd = [], Subnet = net10 b, Gateway = []\<rparr>"

definition range10_canon :: "8 word \<Rightarrow> Range" where
  "range10_canon b = \<lparr>RangeStart = [10, b, 0, 1], RangeEnd = [10, b, 255, 254], Subnet = net10 b, Gateway = [10, b, 0, 1]\<rparr>"







text \<open>\<^verbatim>\<open>Canonicalize\<close> never panics, whatever bytes the configuration holds: each of its indexings is guarded.\<close>

theorem Canonicalize_never_panics: "fst (Range_Canonicalize r) \<noteq> Panic"
  by (rule Range_Canonicalize_total)

text \<open>C28. \<^verbatim>\<open>Overlaps\<close>, which tests only the four end points, decides whether two canonical ranges share an address.\<close>

theorem Overlaps_iff_common_address:
  assumes "Range_wf r" and "Range_wf r1"
  shows "Range_Overlaps r r1 \<longleftrightarrow> (\<exists>a. Range_Contains r a \<and> Range_Contains r1 a)"
  using Range_Overlaps_complete[OF assms] Range_Overlaps_sound[OF assms] by blast

theorem Overlaps_iff_common_address_witness:
  "\<not> (\<exists>a. Range_Contains (range10_canon 1) a \<and> Range_Contains (range10_canon 2) a)"
proof -
  have "Range_wf (range10_canon 1)" "Range_wf (range10_canon 2)"
    "\<not> Range_Overlaps (range10_canon 1) (range10_canon 2)" by code_simp+
  then show ?thesis using Overlaps_iff_common_address by blast
qed

text \<open>
  The check of the start address runs while the end is still unset, so a range that gives the
  broadcast address as its start and no end is accepted although it holds no address at all.
\<close>

theorem start_without_end_inverted:
  "\<exists>r'. Range_Canonicalize (range10 1 \<lparr>RangeStart := [10, 1, 255, 255]\<rparr>) = (Ok (), r') \<and>
     Cmp (RangeStart r') (RangeEnd r') > 0"
proof -
  have "Range_Canonicalize (range10 1 \<lparr>RangeStart := [10, 1, 255, 255]\<rparr>) =
     (Ok (), range10_canon 1 \<lparr>RangeStart := [10, 1, 255, 255]\<rparr>)" by code_simp
  moreover have "Cmp [10, 1, 255, 255] (RangeEnd (range10_canon 1)) > 0" by code_simp
  ultimately show ?thesis by simp
qed

end
