(* ===== verification/Backend.thy ===== *)
theory Backend
  imports Ranges "HOL-Library.AList" "HOL-Library.Char_ord" "HOL-Library.List_Lexorder"
begin

text \<open>
  \<^verbatim>\<open>pkg/ipam/backend\<close>: the system the neutron stores work on (\<^verbatim>\<open>sys\<close>: the cloud, the files and
  directories of the node, the locks, the objects the stores point at), the calls of the packages
  \<^verbatim>\<open>os\<close>, \<^verbatim>\<open>path/filepath\<close> and \<^verbatim>\<open>sync\<close> the stores make on it, the client of the OpenStack services
  (\<^verbatim>\<open>neutron/utils.go\<close>), the file lock (\<^verbatim>\<open>neutron/lock.go\<close>), and the configuration
  (\<^verbatim>\<open>allocator/config.go\<close>, \<^verbatim>\<open>constants.go\<close>, \<^verbatim>\<open>utils.go\<close>).
  The OpenStack services and netlink are the parameter \<open>env\<close>: one field per call the sources make,
  acting on a cloud \<open>'c\<close> of which nothing is assumed here.
\<close>

section \<open>Constants\<close>

definition IPAM_MODE_SEPARATE :: string where "IPAM_MODE_SEPARATE = ''separate''"
definition IPAM_MODE_MIX :: string where "IPAM_MODE_MIX = ''mix''"
definition IPAM_MODE_MIX_ROUTE :: string where "IPAM_MODE_MIX_ROUTE = ''mix-route''"
definition IPAM_MODE_ENI :: string where "IPAM_MODE_ENI = ''eni''"
definition DefaultDataDir :: string where "DefaultDataDir = ''/var/lib/cni/networks''"
definition SERVICE_TYPE_NETWORK :: string where "SERVICE_TYPE_NETWORK = ''network''"
definition SERVICE_TYPE_COMPUTE :: string where "SERVICE_TYPE_COMPUTE = ''compute''"
definition MAX_ENIS :: nat where "MAX_ENIS = 16"
definition MAX_IPS :: nat where "MAX_IPS = 20"

section \<open>Configuration\<close>

record OpenStackConf =
  os_UserName :: string
  os_PassWord :: string
  os_Project :: string
  os_Domain :: string
  os_AuthUrl :: string

record NeutronConf =
  nc_Mode :: string
  nc_DataDir :: string
  nc_HostInterface :: string
  nc_Networks :: "string list"

text \<open>The field for routes is carried through unread; the routes are CNI's, shown as their text.\<close>

record IPAMConfig =
  ic_Range :: "Range option"
  ic_Name :: string
  ic_Type :: string
  ic_Routes :: "string list"
  ic_IPArgs :: "ip list"
  ic_ResolvConf :: string
  ic_OpenStackConf :: "OpenStackConf option"
  ic_NeutronConf :: "NeutronConf option"

text \<open>\<open>net_Args\<close> is \<^verbatim>\<open>Args.A.IPs\<close> with the two pointers on the way.\<close>

record Net =
  net_Name :: string
  net_CNIVersion :: string
  net_IPAM :: "IPAMConfig option"
  net_IPRanges :: "Range list list"
  net_Args :: "ip list option option"

section \<open>The objects of OpenStack\<close>

record FixedIP =
  fi_SubnetID :: string
  fi_IPAddress :: string

record Port =
  po_ID :: string
  po_Name :: string
  po_FixedIPs :: "FixedIP list"
  po_MACAddress :: string

record CreateOpts =
  co_NetworkID :: string
  co_Name :: string
  co_Description :: string
  co_AdminStateUp :: bool

record Subnet =
  su_ID :: string
  su_CIDR :: string
  su_GatewayIP :: string

record Network =
  nw_ID :: string
  nw_Subnets :: "string list"

text \<open>\<open>sv_Addresses\<close>: per network, the value of the map as \<^verbatim>\<open>fmt.Sprintf("%v", v)\<close> shows it.\<close>

record Server =
  sv_ID :: string
  sv_Addresses :: "(string \<times> string) list"

record AuthOptions =
  ao_IdentityEndpoint :: string
  ao_Username :: string
  ao_Password :: string
  ao_TenantName :: string
  ao_DomainName :: string

record Route =
  rt_HasDst :: bool
  rt_LinkIndex :: int

text \<open>
  Handles of gophercloud and netlink are opaque numbers. \<open>pages\<close> is what \<^verbatim>\<open>AllPages\<close> returns: the
  \<^verbatim>\<open>Extract\<close> function of the resource turns it into a slice or an error.
\<close>

type_synonym ProviderClient = nat
type_synonym ServiceClient = nat
type_synonym Link = nat
type_synonym 'a pages = "'a list result"

record 'c env =
  AuthenticatedClient :: "AuthOptions \<Rightarrow> ('c, ProviderClient) act"
  NewNetworkV2 :: "ProviderClient \<Rightarrow> ('c, ServiceClient) act"
  NewComputeV2 :: "ProviderClient \<Rightarrow> ('c, ServiceClient) act"
  networks_Get :: "ServiceClient \<Rightarrow> string \<Rightarrow> ('c, Network) act"
  subnets_Get :: "ServiceClient \<Rightarrow> string \<Rightarrow> ('c, Subnet) act"
  ports_ListName :: "ServiceClient \<Rightarrow> string \<Rightarrow> nat \<Rightarrow> ('c, Port pages) act"
  ports_ListIP :: "ServiceClient \<Rightarrow> string \<Rightarrow> ('c, Port pages) act"
  ports_ListDevice :: "ServiceClient \<Rightarrow> string \<Rightarrow> ('c, Port pages) act"
  ports_Get :: "ServiceClient \<Rightarrow> string \<Rightarrow> ('c, Port) act"
  ports_Create :: "ServiceClient \<Rightarrow> CreateOpts \<Rightarrow> ('c, Port) act"
  ports_Update :: "ServiceClient \<Rightarrow> string \<Rightarrow> FixedIP list \<Rightarrow> ('c, Port) act"
  ports_Delete :: "ServiceClient \<Rightarrow> string \<Rightarrow> ('c, unit) act"
  attach_List :: "ServiceClient \<Rightarrow> string \<Rightarrow> ('c, string pages) act"
  attach_Create :: "ServiceClient \<Rightarrow> string \<Rightarrow> string \<Rightarrow> ('c, unit) act"
  servers_List :: "ServiceClient \<Rightarrow> ('c, Server pages) act"
  routers_List :: "ServiceClient \<Rightarrow> ('c, string pages) act"
  routers_Update :: "ServiceClient \<Rightarrow> string \<Rightarrow> (string \<times> string) list \<Rightarrow> ('c, unit) act"
  LinkByName :: "string \<Rightarrow> Link result"
  LinkByIndex :: "int \<Rightarrow> string result"
  AddrList :: "Link \<Rightarrow> ip list result"
  RouteList :: "Route list"
  showLink :: "Link \<Rightarrow> string"
  aesBlock :: "8 word list \<Rightarrow> 8 word list"

section \<open>The system\<close>

text \<open>
  Every call of \<^verbatim>\<open>os\<close> that can fail has an entry in \<open>sys_fault\<close>: the error it returns instead of
  doing its work. A file is known by its cleaned path.
\<close>

datatype fsop =
    OpStat string | OpMkdirAll string | OpOpen string | OpWrite string | OpClose string
  | OpRemove string | OpReadFile string | OpMutexNew string | OpFlock string | OpFunlock string

record 'c sys =
  sys_cloud :: 'c
  sys_files :: "(string \<times> string) list"
  sys_dirs :: "string list"
  sys_flocks :: "string list"
  sys_mutexes :: "bool list"
  sys_ports :: "Port list"
  sys_hostname :: "string option"
  sys_fault :: "fsop \<Rightarrow> string option"

type_synonym ('c, 'a) sysact = "('c sys, 'a) act"

definition onCloud :: "('c, 'a) act \<Rightarrow> ('c, 'a) sysact" where
  "onCloud m = (\<lambda>w. case m (sys_cloud w) of (r, c) \<Rightarrow> (r, w\<lparr>sys_cloud := c\<rparr>))"

definition alift :: "'a result \<Rightarrow> ('w, 'a) act" where
  "alift r = (\<lambda>w. (r, w))"

declare onCloud_def [act_simps] alift_def [act_simps]

definition guardFault :: "fsop \<Rightarrow> ('c, 'a) sysact \<Rightarrow> ('c, 'a) sysact" where
  "guardFault op m = (\<lambda>w. case sys_fault w op of Some e \<Rightarrow> (Err e, w) | None \<Rightarrow> m w)"

text \<open>\<^verbatim>\<open>path.Clean\<close> on a slash-separated path, and \<^verbatim>\<open>path.Join\<close>.\<close>

fun cleanParts :: "bool \<Rightarrow> string list \<Rightarrow> string list \<Rightarrow> string list" where
  "cleanParts rooted acc [] = rev acc"
| "cleanParts rooted acc (p # ps) =
     (if p = [] \<or> p = ''.'' then cleanParts rooted acc ps
      else if p = ''..'' then
        (if acc \<noteq> [] \<and> hd acc \<noteq> ''..'' then cleanParts rooted (tl acc) ps
         else if rooted then cleanParts rooted acc ps
         else cleanParts rooted (p # acc) ps)
      else cleanParts rooted (p # acc) ps)"

definition pathClean :: "string \<Rightarrow> string" where
  "pathClean p =
     (if p = [] then ''.''
      else let rooted = (hd p = CHR ''/'');
               body = join ''/'' (cleanParts rooted [] (split (CHR ''/'') p))
           in if rooted then CHR ''/'' # body else if body = [] then ''.'' else body)"

definition pathJoin :: "string \<Rightarrow> string \<Rightarrow> string" where
  "pathJoin a b =
     (let ps = filter (\<lambda>s. s \<noteq> []) [a, b] in if ps = [] then [] else pathClean (join ''/'' ps))"

definition pathBase :: "string \<Rightarrow> string" where
  "pathBase p = last (split (CHR ''/'') p)"

definition dirPrefix :: "string \<Rightarrow> string" where
  "dirPrefix d = (let c = pathClean d in if c = ''/'' then c else c @ ''/'')"

text \<open>The package \<^verbatim>\<open>os\<close>. \<open>ErrExist\<close> is the error for which \<^verbatim>\<open>os.IsExist\<close> holds.\<close>

definition ErrExist :: "string \<Rightarrow> string" where
  "ErrExist path = ''open '' @ path @ '': file exists''"

definition osIsExist :: "string \<Rightarrow> bool" where
  "osIsExist e = hasSuffix e '': file exists''"

definition osStat :: "string \<Rightarrow> ('c, bool) sysact" where
  "osStat path = guardFault (OpStat path) (\<lambda>w.
     if pathClean path \<in> set (sys_dirs w) then (Ok True, w)
     else case map_of (sys_files w) (pathClean path) of
         Some _ \<Rightarrow> (Ok False, w)
       | None \<Rightarrow> (Err (''stat '' @ path @ '': no such file or directory''), w))"

definition osMkdirAll :: "string \<Rightarrow> ('c, unit) sysact" where
  "osMkdirAll path = guardFault (OpMkdirAll path) (\<lambda>w.
     (case map_of (sys_files w) (pathClean path) of
         Some _ \<Rightarrow> (Err (''mkdir '' @ path @ '': not a directory''), w)
       | None \<Rightarrow> (Ok (), w\<lparr>sys_dirs := List.insert (pathClean path) (sys_dirs w)\<rparr>)))"

definition osOpenExcl :: "string \<Rightarrow> ('c, unit) sysact" where
  "osOpenExcl path = guardFault (OpOpen path) (\<lambda>w.
     (case map_of (sys_files w) (pathClean path) of
         Some _ \<Rightarrow> (Err (ErrExist path), w)
       | None \<Rightarrow>
           (if pathClean path \<in> set (sys_dirs w) then (Err (ErrExist path), w)
            else (Ok (), w\<lparr>sys_files := (pathClean path, []) # sys_files w\<rparr>))))"

definition osWriteString :: "string \<Rightarrow> string \<Rightarrow> ('c, unit) sysact" where
  "osWriteString path s = guardFault (OpWrite path) (\<lambda>w.
     (Ok (), w\<lparr>sys_files := AList.update (pathClean path) s (sys_files w)\<rparr>))"

definition osClose :: "string \<Rightarrow> ('c, unit) sysact" where
  "osClose path = guardFault (OpClose path) (\<lambda>w. (Ok (), w))"

definition osRemove :: "string \<Rightarrow> ('c, unit) sysact" where
  "osRemove path = guardFault (OpRemove path) (\<lambda>w.
     (case map_of (sys_files w) (pathClean path) of
         None \<Rightarrow> (Err (''remove '' @ path @ '': no such file or directory''), w)
       | Some _ \<Rightarrow> (Ok (), w\<lparr>sys_files := AList.delete (pathClean path) (sys_files w)\<rparr>)))"

definition osReadFile :: "string \<Rightarrow> ('c, string) sysact" where
  "osReadFile path = guardFault (OpReadFile path) (\<lambda>w.
     (case map_of (sys_files w) (pathClean path) of
         None \<Rightarrow> (Err (''open '' @ path @ '': no such file or directory''), w)
       | Some s \<Rightarrow> (Ok s, w)))"

text \<open>
  The files \<^verbatim>\<open>filepath.Walk\<close> visits below a directory, in its order: by name within a directory,
  a subdirectory at the place of its name.
\<close>

definition walkFiles :: "string \<Rightarrow> 'c sys \<Rightarrow> string list" where
  "walkFiles root w =
     sort_key (split (CHR ''/'')) (filter (\<lambda>p. hasPrefix p (dirPrefix root)) (map fst (sys_files w)))"

text \<open>\<^verbatim>\<open>sync.RWMutex\<close>: locking a mutex this process holds stops it for ever, which the runtime turns into a
  fatal error, as it does with the unlock of a mutex that is not locked.\<close>

definition newMutex :: "('c, nat) sysact" where
  "newMutex = (\<lambda>w. (Ok (length (sys_mutexes w)), w\<lparr>sys_mutexes := sys_mutexes w @ [False]\<rparr>))"

definition mutexLock :: "nat \<Rightarrow> ('c, unit) sysact" where
  "mutexLock m = (\<lambda>w.
     if m < length (sys_mutexes w) \<and> \<not> sys_mutexes w ! m
     then (Ok (), w\<lparr>sys_mutexes := (sys_mutexes w)[m := True]\<rparr>) else (Panic, w))"

definition mutexUnlock :: "nat \<Rightarrow> ('c, unit) sysact" where
  "mutexUnlock m = (\<lambda>w.
     if m < length (sys_mutexes w) \<and> sys_mutexes w ! m
     then (Ok (), w\<lparr>sys_mutexes := (sys_mutexes w)[m := False]\<rparr>) else (Panic, w))"

text \<open>An object of type \<^verbatim>\<open>ports.Port\<close> on the heap: allocation, read and write through a pointer.\<close>

definition newPort :: "Port \<Rightarrow> ('c, nat) sysact" where
  "newPort p = (\<lambda>w. (Ok (length (sys_ports w)), w\<lparr>sys_ports := sys_ports w @ [p]\<rparr>))"

definition readPort :: "nat \<Rightarrow> ('c, Port) sysact" where
  "readPort a = (\<lambda>w. if a < length (sys_ports w) then (Ok (sys_ports w ! a), w) else (Panic, w))"

definition writePort :: "nat \<Rightarrow> Port \<Rightarrow> ('c, unit) sysact" where
  "writePort a p = (\<lambda>w. if a < length (sys_ports w)
     then (Ok (), w\<lparr>sys_ports := (sys_ports w)[a := p]\<rparr>) else (Panic, w))"


section \<open>The file lock\<close>

text \<open>
  \<^verbatim>\<open>filemutex.New\<close> opens, and creates, the lock file. \<^verbatim>\<open>flock\<close> waits until no other process holds the
  lock; \<open>sys_flocks\<close> are the locks this process holds, and relocking one of them succeeds at once.
\<close>

definition filemutexNew :: "string \<Rightarrow> ('c, unit) sysact" where
  "filemutexNew path = guardFault (OpMutexNew path) (\<lambda>w.
     (case map_of (sys_files w) (pathClean path) of
         Some _ \<Rightarrow> (Ok (), w)
       | None \<Rightarrow> (Ok (), w\<lparr>sys_files := (pathClean path, []) # sys_files w\<rparr>)))"

record FileLock = fl_path :: string

definition NewFileLock :: "string \<Rightarrow> ('c, FileLock) sysact" where
  "NewFileLock lockPath0 =
     abind (osStat lockPath0) (\<lambda>isDir.
     (let lockPath = (if isDir then pathJoin lockPath0 ''lock'' else lockPath0) in
      abind (filemutexNew lockPath) (\<lambda>_.
      aret \<lparr>fl_path = lockPath\<rparr>)))"

text \<open>Closing the lock's file descriptor drops the lock, as closing a flocked file does.\<close>

definition FileLock_Close :: "FileLock \<Rightarrow> ('c, unit) sysact" where
  "FileLock_Close l = guardFault (OpClose (fl_path l)) (\<lambda>w.
     (Ok (), w\<lparr>sys_flocks := removeAll (fl_path l) (sys_flocks w)\<rparr>))"

definition FileLock_Lock :: "FileLock \<Rightarrow> ('c, unit) sysact" where
  "FileLock_Lock l = guardFault (OpFlock (fl_path l)) (\<lambda>w.
     (Ok (), w\<lparr>sys_flocks := List.insert (fl_path l) (sys_flocks w)\<rparr>))"

definition FileLock_Unlock :: "FileLock \<Rightarrow> ('c, unit) sysact" where
  "FileLock_Unlock l = guardFault (OpFunlock (fl_path l)) (\<lambda>w.
     (Ok (), w\<lparr>sys_flocks := removeAll (fl_path l) (sys_flocks w)\<rparr>))"

section \<open>Encrypted passwords\<close>

text \<open>
  \<^verbatim>\<open>encoding/hex\<close>: both cases of a digit are read, an odd length and a bad digit are errors, whose
  text the only caller never shows (it panics).
\<close>

fun hexDecode :: "string \<Rightarrow> 8 word list result" where
  "hexDecode [] = Ok []"
| "hexDecode [c] = (case hexVal c of
      None \<Rightarrow> Err (''encoding/hex: invalid byte: '' @ [c]) | Some _ \<Rightarrow> Err ''encoding/hex: odd length hex string'')"
| "hexDecode (c # d # cs) =
     (case (hexVal c, hexVal d) of
        (Some a, Some b) \<Rightarrow> rbind (hexDecode cs) (\<lambda>bs. Ok (of_nat (16 * a + b) # bs))
      | (None, _) \<Rightarrow> Err (''encoding/hex: invalid byte: '' @ [c])
      | (_, None) \<Rightarrow> Err (''encoding/hex: invalid byte: '' @ [d]))"

definition bytesXor :: "8 word list \<Rightarrow> 8 word list \<Rightarrow> 8 word list" where
  "bytesXor xs ys = map2 (XOR) xs ys"

text \<open>
  The cipher feedback mode of \<^verbatim>\<open>crypto/cipher\<close> over a block function \<open>E\<close> on blocks of 16 bytes:
  every block is xored with the encryption of the previous ciphertext block, the first with that
  of the initial vector.
\<close>

function cfbEncrypt :: "(8 word list \<Rightarrow> 8 word list) \<Rightarrow> 8 word list \<Rightarrow> 8 word list \<Rightarrow> 8 word list" where
  "cfbEncrypt E iv xs =
     (if xs = [] then []
      else let c = bytesXor (take 16 xs) (E iv) in c @ cfbEncrypt E c (drop 16 xs))"
  by auto
termination by (relation "measure (\<lambda>(E, iv, xs). length xs)") auto

function cfbDecrypt :: "(8 word list \<Rightarrow> 8 word list) \<Rightarrow> 8 word list \<Rightarrow> 8 word list \<Rightarrow> 8 word list" where
  "cfbDecrypt E iv xs =
     (if xs = [] then []
      else bytesXor (take 16 xs) (E iv) @ cfbDecrypt E (take 16 xs) (drop 16 xs))"
  by auto
termination by (relation "measure (\<lambda>(E, iv, xs). length xs)") auto

declare cfbEncrypt.simps [simp del] cfbDecrypt.simps [simp del]

definition commonIV :: "8 word list" where
  "commonIV = [0, 1, 2, 3, 4, 5, 6, 7, 8, 9, 10, 11, 12, 13, 14, 15]"

definition stringBytes :: "string \<Rightarrow> 8 word list" where
  "stringBytes s = map (\<lambda>c. of_nat (of_char c)) s"

definition bytesString :: "8 word list \<Rightarrow> string" where
  "bytesString bs = map (\<lambda>b. char_of (unat b)) bs"

definition aesEncrypt :: "(8 word list \<Rightarrow> 8 word list) \<Rightarrow> string \<Rightarrow> string" where
  "aesEncrypt cip plainText = hexString (cfbEncrypt cip commonIV (stringBytes plainText))"

definition aesDecrypt :: "(8 word list \<Rightarrow> 8 word list) \<Rightarrow> string \<Rightarrow> string result" where
  "aesDecrypt cip cipherText =
     (case hexDecode cipherText of
        Ok cipherTextByte \<Rightarrow> Ok (bytesString (cfbDecrypt cip commonIV cipherTextByte))
      | _ \<Rightarrow> Panic)"

section \<open>The OpenStack client\<close>

definition connectWithKeyStone :: "'c env \<Rightarrow> OpenStackConf option \<Rightarrow> string \<Rightarrow> ('c, ServiceClient) sysact" where
  "connectWithKeyStone env conf serviceType =
     (case conf of None \<Rightarrow> apanic | Some openstackConf \<Rightarrow>
      abind (alift (aesDecrypt (aesBlock env) (os_PassWord openstackConf))) (\<lambda>password.
      abind (onCloud (AuthenticatedClient env
               \<lparr>ao_IdentityEndpoint = os_AuthUrl openstackConf, ao_Username = os_UserName openstackConf,
                ao_Password = password, ao_TenantName = os_Project openstackConf,
                ao_DomainName = (if hasSuffix (os_AuthUrl openstackConf) ''v3'' then os_Domain openstackConf else [])\<rparr>)) (\<lambda>provider.
      (if serviceType = SERVICE_TYPE_NETWORK then onCloud (NewNetworkV2 env provider)
       else if serviceType = SERVICE_TYPE_COMPUTE then onCloud (NewComputeV2 env provider)
       else aerr (''unsupported keystone service type '' @ serviceType)))))"

definition ConnectStore :: "'c env \<Rightarrow> OpenStackConf option \<Rightarrow> string \<Rightarrow> ('c, ServiceClient) sysact" where
  "ConnectStore env openstackConf serviceType = connectWithKeyStone env openstackConf serviceType"

definition GetComputeClient :: "'c env \<Rightarrow> IPAMConfig \<Rightarrow> ('c, ServiceClient) sysact" where
  "GetComputeClient env c = ConnectStore env (ic_OpenStackConf c) SERVICE_TYPE_COMPUTE"

definition GetNetworkClient :: "'c env \<Rightarrow> IPAMConfig \<Rightarrow> ('c, ServiceClient) sysact" where
  "GetNetworkClient env c = ConnectStore env (ic_OpenStackConf c) SERVICE_TYPE_NETWORK"

definition getHostName :: "'c sys \<Rightarrow> string" where
  "getHostName w = (case sys_hostname w of None \<Rightarrow> ''unknown'' | Some h \<Rightarrow> h)"

definition serverHas :: "string \<Rightarrow> Server \<Rightarrow> bool" where
  "serverHas serverIP server = list_ex (\<lambda>(k, v). contains v serverIP) (sv_Addresses server)"

definition FindServer :: "'c env \<Rightarrow> ServiceClient \<Rightarrow> string \<Rightarrow> ('c, Server option) sysact" where
  "FindServer env computeClient serverIP =
     abind (awrap (\<lambda>e. ''get server list err: '' @ e) (onCloud (servers_List env computeClient))) (\<lambda>serverList.
     abind (alift serverList) (\<lambda>serverSlice.
     aret (List.find (serverHas serverIP) serverSlice)))"

definition CountServerIntsAndEnis :: "'c env \<Rightarrow> ServiceClient \<Rightarrow> string \<Rightarrow> ('c, nat \<times> nat) sysact" where
  "CountServerIntsAndEnis env computeClient serverIP =
     abind (FindServer env computeClient serverIP) (\<lambda>found.
     (case found of None \<Rightarrow> apanic | Some server \<Rightarrow>
      abind (onCloud (attach_List env computeClient (sv_ID server))) (\<lambda>attachInterfaces.
      abind (alift attachInterfaces) (\<lambda>attachInterfacesSlice.
      aret (length attachInterfacesSlice, length (sv_Addresses server))))))"

definition FindPort :: "'c env \<Rightarrow> ServiceClient \<Rightarrow> string \<Rightarrow> ('c, Port option) sysact" where
  "FindPort env networkClient portName =
     abind (onCloud (ports_ListName env networkClient portName 1)) (\<lambda>portList.
     abind (alift portList) (\<lambda>portSlice.
     aret (case portSlice of [] \<Rightarrow> None | p # _ \<Rightarrow> Some p)))"

fun findRouterLoop :: "'c env \<Rightarrow> ServiceClient \<Rightarrow> string \<Rightarrow> string list \<Rightarrow> ('c, string option) sysact" where
  "findRouterLoop env client gw [] = aret None"
| "findRouterLoop env client gw (r # rs) =
     abind (onCloud (ports_ListDevice env client r)) (\<lambda>portList.
     abind (alift portList) (\<lambda>portSlice.
     (if list_ex (\<lambda>p. list_ex (\<lambda>fixIP. fi_IPAddress fixIP = gw) (po_FixedIPs p)) portSlice
      then aret (Some r) else findRouterLoop env client gw rs)))"

definition FindRouter :: "'c env \<Rightarrow> ServiceClient \<Rightarrow> string \<Rightarrow> ('c, string option) sysact" where
  "FindRouter env client gw =
     abind (onCloud (routers_List env client)) (\<lambda>routerList.
     abind (alift routerList) (\<lambda>routerSlice.
     (if length routerSlice < 1 then aret None else findRouterLoop env client gw routerSlice)))"

section \<open>Loading the configuration\<close>

definition GetRouteInterface :: "'c env \<Rightarrow> string result" where
  "GetRouteInterface env =
     (case List.find (\<lambda>r. \<not> rt_HasDst r) (RouteList env) of
        None \<Rightarrow> Err ''default gw route not set''
      | Some r \<Rightarrow> (case LinkByIndex env (rt_LinkIndex r) of
            Ok name \<Rightarrow> Ok name
          | Err e \<Rightarrow> Err (''get default gw route interface err: '' @ e)
          | Panic \<Rightarrow> Panic))"

text \<open>
  \<open>unmarshal\<close> stands for \<^verbatim>\<open>json.Unmarshal\<close> into a \<^verbatim>\<open>Net\<close>, \<open>loadArgs\<close> for \<^verbatim>\<open>types.LoadArgs\<close> of the CNI
  library into \<^verbatim>\<open>IPAMEnvArgs\<close>, whose address is \<open>[]\<close> when it is not set.
\<close>

fun canonIPArgs :: "ip list \<Rightarrow> ip list result" where
  "canonIPArgs [] = Ok []"
| "canonIPArgs (a # as) =
     (case canonicalizeIP a of
        Ok b \<Rightarrow> rbind (canonIPArgs as) (\<lambda>bs. Ok (b # bs))
      | Err e \<Rightarrow> Err (''cannot understand ip: '' @ e)
      | Panic \<Rightarrow> Panic)"

definition loadIPArgs :: "(string \<Rightarrow> ip result) \<Rightarrow> string \<Rightarrow> Net \<Rightarrow> IPAMConfig \<Rightarrow> ip list result" where
  "loadIPArgs loadArgs envArgs n ipam =
     rbind (if envArgs \<noteq> []
            then rbind (loadArgs envArgs) (\<lambda>e. Ok (if e \<noteq> [] then [e] else ic_IPArgs ipam))
            else Ok (ic_IPArgs ipam)) (\<lambda>args.
     canonIPArgs (case net_Args n of Some (Some ips) \<Rightarrow> args @ ips | _ \<Rightarrow> args))"

definition LoadIPAMConfig ::
  "'c env \<Rightarrow> (string \<Rightarrow> Net result) \<Rightarrow> (string \<Rightarrow> ip result) \<Rightarrow> string \<Rightarrow> string \<Rightarrow> (IPAMConfig \<times> string) result" where
  "LoadIPAMConfig env unmarshal loadArgs bytes envArgs =
     rbind (unmarshal bytes) (\<lambda>n.
     (case net_IPAM n of
        None \<Rightarrow> Err ''IPAM config missing 'ipam' key''
      | Some ipam \<Rightarrow>
        rbind (loadIPArgs loadArgs envArgs n ipam) (\<lambda>args.
        (case ic_NeutronConf ipam of
           None \<Rightarrow> Err ''NeutronConf config missing 'neutronConf' key''
         | Some nc \<Rightarrow>
           (if length (nc_Networks nc) = 0 then Err ''NeutronConf config missing networks''
            else
            rbind (if nc_HostInterface nc = [] then GetRouteInterface env else Ok (nc_HostInterface nc)) (\<lambda>hostIf.
            (let nc' = nc\<lparr>nc_HostInterface := hostIf,
                          nc_DataDir := (if nc_DataDir nc = [] then DefaultDataDir else nc_DataDir nc)\<rparr>
             in Ok (ipam\<lparr>ic_IPArgs := args, ic_NeutronConf := Some nc', ic_Name := net_Name n\<rparr>,
                    net_CNIVersion n))))))))"

section \<open>Decryption inverts encryption\<close>

lemma length_bytesXor: "length (bytesXor xs ys) = min (length xs) (length ys)"
  by (simp add: bytesXor_def)

lemma bytesXor_twice: "length xs \<le> length ys \<Longrightarrow> bytesXor (bytesXor xs ys) ys = xs"
proof (induction xs arbitrary: ys)
  case Nil
  then show ?case by (simp add: bytesXor_def)
next
  case (Cons x xs)
  obtain y zs where y: "ys = y # zs" using Cons.prems by (cases ys) auto
  show ?case using Cons.IH[of zs] Cons.prems by (simp add: bytesXor_def y xor.assoc)
qed

lemma cfb_roundtrip:
  assumes "\<forall>b. length (E b) = 16"
  shows "cfbDecrypt E iv (cfbEncrypt E iv xs) = xs"
  using assms
proof (induction E iv xs rule: cfbEncrypt.induct)
  case (1 E iv xs)
  show ?case
  proof (cases "xs = []")
    case True
    then show ?thesis by (simp add: cfbEncrypt.simps cfbDecrypt.simps)
  next
    case False
    define c where "c = bytesXor (take 16 xs) (E iv)"
    define r where "r = cfbEncrypt E c (drop 16 xs)"
    have len: "length c = min (length xs) 16" using "1.prems" by (simp add: c_def length_bytesXor)
    have enc: "cfbEncrypt E iv xs = c @ r" using False by (simp add: cfbEncrypt.simps[of E iv xs] c_def r_def Let_def)
    have IH: "cfbDecrypt E c r = drop 16 xs" using "1.IH"[OF False c_def "1.prems"] by (simp add: r_def)
    have r0: "r = []" if "length xs \<le> 16" using that by (simp add: r_def cfbEncrypt.simps)
    have td: "take 16 (c @ r) = c" "drop 16 (c @ r) = r"
      using len r0 by (cases "length xs \<le> 16"; simp)+
    have "c @ r \<noteq> []" using len False by (cases c; cases xs) auto
    then have "cfbDecrypt E iv (c @ r) = bytesXor c (E iv) @ cfbDecrypt E c r"
      by (subst cfbDecrypt.simps) (simp only: td if_False)
    also have "bytesXor c (E iv) = take 16 xs"
      using "1.prems" unfolding c_def by (intro bytesXor_twice) simp
    finally show ?thesis using IH by (simp add: enc)
  qed
qed

lemma hexDecode_hexString: "hexDecode (hexString bs) = Ok bs"
proof (induction bs)
  case Nil
  then show ?case by (simp add: hexString_def)
next
  case (Cons b bs)
  have d: "hexVal (hexDigit k) = Some k" if "k < 16" for k
    using that by (auto simp: hexVal_def hexDigit_def Let_def)
  have "unat b div 16 < 16" "unat b mod 16 < 16" using unat8_less[of b] by (simp_all del: unat8_less)
  then show ?case using Cons by (simp add: hexString_def hexByte_def d)
qed

lemma bytesString_stringBytes: "bytesString (stringBytes s) = s"
proof -
  have "char_of (unat (of_nat (of_char c) :: 8 word)) = c" for c
    by (simp add: unat_of_nat)
  then show ?thesis by (simp add: bytesString_def stringBytes_def comp_def)
qed

lemma aes_roundtrip:
  "\<forall>b. length (cip b) = 16 \<Longrightarrow> aesDecrypt cip (aesEncrypt cip s) = Ok s"
  by (simp add: aesDecrypt_def aesEncrypt_def hexDecode_hexString cfb_roundtrip bytesString_stringBytes)

end
