(* ===== verification/Stores.thy ===== *)
theory Stores
  imports Backend
begin

text \<open>
  \<^verbatim>\<open>pkg/ipam/backend/neutron\<close>: the four stores (\<^verbatim>\<open>separate_store.go\<close>, \<^verbatim>\<open>eni_store.go\<close>, \<^verbatim>\<open>mix_store.go\<close>,
  \<^verbatim>\<open>mix_route_store.go\<close>), the factory (\<^verbatim>\<open>factory.go\<close>), the interface \<^verbatim>\<open>backend.Store\<close> (\<^verbatim>\<open>store.go\<close>) as a datatype
  with one constructor per implementation and its operations as the dynamic dispatch on it.
\<close>

section \<open>Parts the stores share\<close>

text \<open>The result of \<^verbatim>\<open>Reserve\<close>: the address with the mask of the subnet, and the gateway.\<close>

type_synonym reservation = "ipnet \<times> ip"

definition difference :: "FixedIP list \<Rightarrow> FixedIP list \<Rightarrow> FixedIP option" where
  "difference oldS newS =
     (if length newS \<le> length oldS then None
      else List.find (\<lambda>newIP. \<not> list_ex (\<lambda>oldIP. fi_IPAddress newIP = fi_IPAddress oldIP \<and>
                                                fi_SubnetID newIP = fi_SubnetID oldIP) oldS) newS)"

definition GetEscapedPath :: "string \<Rightarrow> string \<Rightarrow> string" where
  "GetEscapedPath dataDir fname = pathJoin dataDir fname"

definition exists :: "string \<Rightarrow> ('c, bool) sysact" where
  "exists path = acase (osStat path) (\<lambda>_. aret True) (\<lambda>e. aret (osIsExist e))"

definition findIndex :: "FixedIP list \<Rightarrow> string \<Rightarrow> nat option" where
  "findIndex ips targetIP = findIdx (\<lambda>ip. fi_IPAddress ip = targetIP) ips"

definition IsOverMaxIPs :: "Port \<Rightarrow> bool" where
  "IsOverMaxIPs port = (length (po_FixedIPs port) \<ge> MAX_IPS)"

text \<open>The file that remembers the container of an address.\<close>

definition writeIP :: "string \<Rightarrow> string \<Rightarrow> string \<Rightarrow> ('c, unit) sysact" where
  "writeIP dataDir cid ip =
     (let fname = GetEscapedPath dataDir ip in
      abind (osOpenExcl fname) (\<lambda>_.
      acase (osWriteString fname (trimSpace cid))
        (\<lambda>_. acase (osClose fname) (\<lambda>_. aret ())
               (\<lambda>e. abind (aignore (osRemove fname)) (\<lambda>_. aerr e)))
        (\<lambda>e. abind (aignore (osClose fname)) (\<lambda>_.
             abind (aignore (osRemove fname)) (\<lambda>_. aerr e)))))"

text \<open>The walk of \<^verbatim>\<open>ReleaseByID\<close>: the first readable file with the container's id, with its name and path.\<close>

fun findContainer :: "string \<Rightarrow> string list \<Rightarrow> ('c, (string \<times> string) option) sysact" where
  "findContainer cid [] = aret None"
| "findContainer cid (p # ps) =
     acase (osReadFile p)
       (\<lambda>contents. if trimSpace contents = trimSpace cid then aret (Some (pathBase p, p)) else findContainer cid ps)
       (\<lambda>_. findContainer cid ps)"

definition walkContainer :: "string \<Rightarrow> string \<Rightarrow> ('c, (string \<times> string) option) sysact" where
  "walkContainer dataDir cid = (\<lambda>w. findContainer cid (walkFiles dataDir w) w)"

definition removeContainerFile :: "string \<Rightarrow> ('c, unit) sysact" where
  "removeContainerFile path = abind (exists path) (\<lambda>b. if b then osRemove path else aret ())"

text \<open>\<open>quoted\<close> is the verb \<^verbatim>\<open>%q\<close> on a printable string.\<close>

definition quoted :: "string \<Rightarrow> string" where
  "quoted s = [CHR 0x22] @
     concat (map (\<lambda>c. if c = CHR 0x22 \<or> c = CHR 0x5C then [CHR 0x5C, c] else [c]) s) @ [CHR 0x22]"

text \<open>The first address of the host interface, as the constructors look it up.\<close>

definition hostAddress :: "'c env \<Rightarrow> NeutronConf \<Rightarrow> ('w, ip) act" where
  "hostAddress env nc =
     abind (awrap (\<lambda>e. ''failed to lookup '' @ quoted (nc_HostInterface nc) @ '': '' @ e)
              (alift (LinkByName env (nc_HostInterface nc)))) (\<lambda>iface.
     acase (alift (AddrList env iface))
       (\<lambda>hostAddrs. (case hostAddrs of
            [] \<Rightarrow> aerr (''failed to get host IP addresses for '' @ quoted (showLink env iface) @ '': <nil>'')
          | a # _ \<Rightarrow> aret a))
       (\<lambda>e. aerr (''failed to get host IP addresses for '' @ quoted (showLink env iface) @ '': '' @ e)))"

text \<open>The end of every \<^verbatim>\<open>Reserve\<close>: the texts of the subnet turned into addresses.\<close>

definition toReservation :: "Subnet \<Rightarrow> FixedIP \<Rightarrow> reservation result" where
  "toReservation subnet fixed =
     rbind (ParseCIDR (su_CIDR subnet)) (\<lambda>(_, ipnet).
       Ok (\<lparr>IPNet_IP = ParseIP (fi_IPAddress fixed), IPNet_Mask = IPNet_Mask ipnet\<rparr>,
           ParseIP (su_GatewayIP subnet)))"

section \<open>The separate store\<close>

record SeparateStore =
  ss_lock :: nat
  ss_NetworkClient :: ServiceClient
  ss_Networks :: "string list"

definition NewSeparateStore :: "'c env \<Rightarrow> IPAMConfig \<Rightarrow> ('c, SeparateStore) sysact" where
  "NewSeparateStore env ipamConfig =
     abind (ConnectStore env (ic_OpenStackConf ipamConfig) SERVICE_TYPE_NETWORK) (\<lambda>networkClient.
     (case ic_NeutronConf ipamConfig of None \<Rightarrow> apanic | Some nc \<Rightarrow>
      (if length (nc_Networks nc) = 0 then aerr ''neutron networks is none''
       else abind newMutex (\<lambda>m.
         aret \<lparr>ss_lock = m, ss_NetworkClient = networkClient, ss_Networks = nc_Networks nc\<rparr>))))"

definition getNetwork :: "'c env \<Rightarrow> ServiceClient \<Rightarrow> string list \<Rightarrow> ('c, Network) sysact" where
  "getNetwork env client nets =
     (case nets of [] \<Rightarrow> apanic | n # _ \<Rightarrow>
      abind (onCloud (networks_Get env client n)) (\<lambda>network.
      (if length (nw_Subnets network) = 0 then aerr ''neutron subnets is none'' else aret network)))"

definition createPort :: "'c env \<Rightarrow> ServiceClient \<Rightarrow> Network \<Rightarrow> string \<Rightarrow> ('c, Port) sysact" where
  "createPort env client network cid = (\<lambda>w.
     onCloud (ports_Create env client
       \<lparr>co_NetworkID = nw_ID network, co_Name = cid, co_Description = getHostName w, co_AdminStateUp = True\<rparr>) w)"

definition SeparateStore_Reserve :: "'c env \<Rightarrow> SeparateStore \<Rightarrow> string \<Rightarrow> ('c, reservation) sysact" where
  "SeparateStore_Reserve env s cid =
     abind (getNetwork env (ss_NetworkClient s) (ss_Networks s)) (\<lambda>network.
     abind (createPort env (ss_NetworkClient s) network cid) (\<lambda>port.
     (case po_FixedIPs port of
        [] \<Rightarrow> aerr ''port doesn't have fixed ip''
      | fixed # _ \<Rightarrow>
        abind (onCloud (subnets_Get env (ss_NetworkClient s) (fi_SubnetID fixed))) (\<lambda>subnet.
        alift (toReservation subnet fixed)))))"

definition SeparateStore_ReleaseByID :: "'c env \<Rightarrow> SeparateStore \<Rightarrow> string \<Rightarrow> ('c, unit) sysact" where
  "SeparateStore_ReleaseByID env s cid =
     abind (FindPort env (ss_NetworkClient s) cid) (\<lambda>port.
     (case port of None \<Rightarrow> apanic
      | Some p \<Rightarrow> onCloud (ports_Delete env (ss_NetworkClient s) (po_ID p))))"

definition SeparateStore_Close :: "SeparateStore \<Rightarrow> ('c, unit) sysact" where
  "SeparateStore_Close s = aret ()"

definition SeparateStore_Lock :: "SeparateStore \<Rightarrow> ('c, unit) sysact" where
  "SeparateStore_Lock s = mutexLock (ss_lock s)"

definition SeparateStore_Unlock :: "SeparateStore \<Rightarrow> ('c, unit) sysact" where
  "SeparateStore_Unlock s = mutexUnlock (ss_lock s)"

section \<open>The store of elastic network interfaces\<close>

record EniStore =
  es_FileLock :: FileLock
  es_NetworkClient :: ServiceClient
  es_ComputeClient :: ServiceClient
  es_InstanceID :: string
  es_Networks :: "string list"

definition NewEniStore :: "'c env \<Rightarrow> IPAMConfig \<Rightarrow> ('c, EniStore) sysact" where
  "NewEniStore env ipamConfig =
     abind (ConnectStore env (ic_OpenStackConf ipamConfig) SERVICE_TYPE_NETWORK) (\<lambda>networkClient.
     (case ic_NeutronConf ipamConfig of None \<Rightarrow> apanic | Some nc \<Rightarrow>
      (if length (nc_Networks nc) = 0 then aerr ''neutron networks is none''
       else
       abind (ConnectStore env (ic_OpenStackConf ipamConfig) SERVICE_TYPE_COMPUTE) (\<lambda>computeClient.
       abind (hostAddress env nc) (\<lambda>hostAddr.
       abind (FindServer env computeClient (ipString hostAddr)) (\<lambda>found.
       (case found of
          None \<Rightarrow> aerr (''can't find nova instance with ipv4 '' @ ipString hostAddr)
        | Some server \<Rightarrow>
          (let dir = pathJoin (nc_DataDir nc) [] in
           abind (osMkdirAll dir) (\<lambda>_.
           abind (NewFileLock dir) (\<lambda>lk.
           aret \<lparr>es_FileLock = lk, es_NetworkClient = networkClient, es_ComputeClient = computeClient,
                 es_InstanceID = sv_ID server, es_Networks = nc_Networks nc\<rparr>))))))))))"

definition EniStore_IsOverMax :: "'c env \<Rightarrow> EniStore \<Rightarrow> ('c, bool) sysact" where
  "EniStore_IsOverMax env s =
     abind (onCloud (attach_List env (es_ComputeClient s) (es_InstanceID s))) (\<lambda>attachInterfaces.
     abind (alift attachInterfaces) (\<lambda>attachInterfacesSlice.
     aret (length attachInterfacesSlice \<ge> MAX_ENIS)))"

definition EniStore_findOrCreate :: "'c env \<Rightarrow> EniStore \<Rightarrow> Network \<Rightarrow> string \<Rightarrow> ('c, Port) sysact" where
  "EniStore_findOrCreate env s network cid =
     abind (FindPort env (es_NetworkClient s) cid) (\<lambda>found.
     (case found of
        Some port \<Rightarrow> aret port
      | None \<Rightarrow>
        abind (EniStore_IsOverMax env s) (\<lambda>overMax.
        (if overMax then aerr (''over single vm max supported enis:'' @ showNat MAX_ENIS)
         else createPort env (es_NetworkClient s) network cid))))"

definition EniStore_Reserve :: "'c env \<Rightarrow> EniStore \<Rightarrow> string \<Rightarrow> ('c, reservation) sysact" where
  "EniStore_Reserve env s cid =
     abind (getNetwork env (es_NetworkClient s) (es_Networks s)) (\<lambda>network.
     abind (EniStore_findOrCreate env s network cid) (\<lambda>port.
     (case po_FixedIPs port of
        [] \<Rightarrow> aerr ''port doesn't have fixed ip''
      | fixed # _ \<Rightarrow>
        abind (onCloud (subnets_Get env (es_NetworkClient s) (fi_SubnetID fixed))) (\<lambda>subnet.
        abind (alift (toReservation subnet fixed)) (\<lambda>r.
        abind (onCloud (attach_Create env (es_ComputeClient s) (es_InstanceID s) (po_ID port))) (\<lambda>_.
        aret r))))))"

definition EniStore_ReleaseByID :: "'c env \<Rightarrow> EniStore \<Rightarrow> string \<Rightarrow> ('c, unit) sysact" where
  "EniStore_ReleaseByID env s cid =
     abind (FindPort env (es_NetworkClient s) cid) (\<lambda>port.
     (case port of None \<Rightarrow> aret ()
      | Some p \<Rightarrow> onCloud (ports_Delete env (es_NetworkClient s) (po_ID p))))"

section \<open>The mix store: several addresses on one interface\<close>

record MixStore =
  ms_FileLock :: FileLock
  ms_NetworkClient :: ServiceClient
  ms_hostPortID :: string
  ms_subnet :: Subnet
  ms_network :: Network
  ms_dataDir :: string

text \<open>The neutron objects of the host that both constructors of the mix modes look up.\<close>

definition hostNetwork :: "'c env \<Rightarrow> ServiceClient \<Rightarrow> NeutronConf \<Rightarrow> ('c, Network) sysact" where
  "hostNetwork env client nc =
     abind (awrap (\<lambda>e. ''failed to get neutron network object: '' @ e)
              (onCloud (networks_Get env client (hd (nc_Networks nc))))) (\<lambda>network.
     (if length (nw_Subnets network) = 0
      then aerr (''neutron network '' @ hd (nc_Networks nc) @ '' subnets is none'') else aret network))"

definition hostPortOf :: "'c env \<Rightarrow> ServiceClient \<Rightarrow> ip \<Rightarrow> ('c, Port \<times> Subnet) sysact" where
  "hostPortOf env client hostAddr =
     abind (awrap (\<lambda>e. ''get host neutron port err: '' @ e)
              (onCloud (ports_ListIP env client (ipString hostAddr)))) (\<lambda>hostPorts.
     abind (alift hostPorts) (\<lambda>hostPortsSlice.
     (case hostPortsSlice of
        [] \<Rightarrow> aerr ''failed to get host neutron port''
      | hostPort # _ \<Rightarrow>
        (case po_FixedIPs hostPort of
           [] \<Rightarrow> aerr ''failed to get host neutron port fixed ip''
         | fixed # _ \<Rightarrow>
           abind (awrap (\<lambda>e. ''failed to get host neutron subnet '' @ fi_SubnetID fixed @ '': '' @ e)
                    (onCloud (subnets_Get env client (fi_SubnetID fixed)))) (\<lambda>subnet.
           aret (hostPort, subnet))))))"

definition NewMixStore :: "'c env \<Rightarrow> IPAMConfig \<Rightarrow> ('c, MixStore) sysact" where
  "NewMixStore env ipamConfig =
     abind (ConnectStore env (ic_OpenStackConf ipamConfig) SERVICE_TYPE_NETWORK) (\<lambda>networkClient.
     (case ic_NeutronConf ipamConfig of None \<Rightarrow> apanic | Some nc \<Rightarrow>
      (if length (nc_Networks nc) = 0 then aerr ''neutron networks is none''
       else
       abind (hostAddress env nc) (\<lambda>hostAddr.
       abind (hostNetwork env networkClient nc) (\<lambda>network.
       abind (hostPortOf env networkClient hostAddr) (\<lambda>(hostPort, subnet).
       (let dir = pathJoin (nc_DataDir nc) [] in
        abind (osMkdirAll dir) (\<lambda>_.
        abind (NewFileLock dir) (\<lambda>lk.
        aret \<lparr>ms_FileLock = lk, ms_NetworkClient = networkClient, ms_hostPortID = po_ID hostPort,
              ms_subnet = subnet, ms_network = network, ms_dataDir = nc_DataDir nc\<rparr>)))))))))"

text \<open>One more fixed address on the host port, and which one neutron chose.\<close>

definition addFixedIP :: "'c env \<Rightarrow> ServiceClient \<Rightarrow> string \<Rightarrow> Subnet \<Rightarrow> Port \<Rightarrow> ('c, FixedIP) sysact" where
  "addFixedIP env client hostPortID subnet port =
     (let oldFixedIPsSlice = po_FixedIPs port in
      abind (onCloud (ports_Update env client hostPortID
               (oldFixedIPsSlice @ [\<lparr>fi_SubnetID = su_ID subnet, fi_IPAddress = []\<rparr>]))) (\<lambda>port'.
      (case difference oldFixedIPsSlice (po_FixedIPs port') of
         None \<Rightarrow> aerr ''port doesn't have new fixed ip''
       | Some newIP \<Rightarrow> aret newIP)))"

definition overMaxIPsErr :: string where
  "overMaxIPsErr = ''over single network interface max supported ips:'' @ showNat MAX_IPS"

definition MixStore_Reserve :: "'c env \<Rightarrow> MixStore \<Rightarrow> string \<Rightarrow> ('c, reservation) sysact" where
  "MixStore_Reserve env s cid =
     abind (onCloud (ports_Get env (ms_NetworkClient s) (ms_hostPortID s))) (\<lambda>port.
     (if IsOverMaxIPs port then aerr overMaxIPsErr
      else
      abind (addFixedIP env (ms_NetworkClient s) (ms_hostPortID s) (ms_subnet s) port) (\<lambda>newIP.
      abind (alift (toReservation (ms_subnet s) newIP)) (\<lambda>r.
      abind (writeIP (ms_dataDir s) cid (ipString (IPNet_IP (fst r)))) (\<lambda>_.
      aret r)))))"

definition MixStore_ReleaseByID :: "'c env \<Rightarrow> MixStore \<Rightarrow> string \<Rightarrow> ('c, unit) sysact" where
  "MixStore_ReleaseByID env s cid =
     abind (walkContainer (ms_dataDir s) cid) (\<lambda>found.
     (case found of
        None \<Rightarrow> aret ()
      | Some (containerIP, containerIPPath) \<Rightarrow>
        (if containerIP = [] then aret () else
        abind (onCloud (ports_Get env (ms_NetworkClient s) (ms_hostPortID s))) (\<lambda>port.
        abind (case findIndex (po_FixedIPs port) containerIP of
                 None \<Rightarrow> aret ()
               | Some idx \<Rightarrow>
                 abind (onCloud (ports_Update env (ms_NetworkClient s) (ms_hostPortID s)
                          (removeAt idx (po_FixedIPs port)))) (\<lambda>_. aret ())) (\<lambda>_.
        removeContainerFile containerIPPath)))))"

section \<open>The mix-route store\<close>

text \<open>The field \<^verbatim>\<open>hostPort\<close> is a pointer, and \<^verbatim>\<open>removePort\<close> writes through it.\<close>

record MixRouteStore =
  rs_FileLock :: FileLock
  rs_NetworkClient :: ServiceClient
  rs_hostPort :: nat
  rs_hostPortAddr :: string
  rs_subnet :: Subnet
  rs_Router :: string
  rs_network :: Network
  rs_dataDir :: string

definition NewMixRouteStore :: "'c env \<Rightarrow> IPAMConfig \<Rightarrow> ('c, MixRouteStore) sysact" where
  "NewMixRouteStore env ipamConfig =
     abind (ConnectStore env (ic_OpenStackConf ipamConfig) SERVICE_TYPE_NETWORK) (\<lambda>networkClient.
     (case ic_NeutronConf ipamConfig of None \<Rightarrow> apanic | Some nc \<Rightarrow>
      (if length (nc_Networks nc) = 0 then aerr ''neutron networks is none''
       else
       abind (hostAddress env nc) (\<lambda>hostAddr.
       abind (hostNetwork env networkClient nc) (\<lambda>network.
       abind (hostPortOf env networkClient hostAddr) (\<lambda>(hostPort, subnet).
       abind (FindRouter env networkClient (su_GatewayIP subnet)) (\<lambda>found.
       (case found of
          None \<Rightarrow> aerr (''can't find neutron vrouter with gateway ip '' @ su_GatewayIP subnet)
        | Some router \<Rightarrow>
          (let dir = pathJoin (nc_DataDir nc) [] in
           abind (osMkdirAll dir) (\<lambda>_.
           abind (NewFileLock dir) (\<lambda>lk.
           abind (newPort hostPort) (\<lambda>ptr.
           aret \<lparr>rs_FileLock = lk, rs_NetworkClient = networkClient, rs_hostPort = ptr,
                 rs_hostPortAddr = ipString hostAddr, rs_subnet = subnet, rs_Router = router,
                 rs_network = network, rs_dataDir = nc_DataDir nc\<rparr>))))))))))))"

definition allocatePort :: "'c env \<Rightarrow> MixRouteStore \<Rightarrow> Port \<Rightarrow> ('c, reservation) sysact" where
  "allocatePort env s p =
     abind (readPort (rs_hostPort s)) (\<lambda>hostPort.
     abind (addFixedIP env (rs_NetworkClient s) (po_ID hostPort) (rs_subnet s) p) (\<lambda>newIP.
     alift (toReservation (rs_subnet s) newIP)))"

definition MixRouteStore_Reserve :: "'c env \<Rightarrow> MixRouteStore \<Rightarrow> string \<Rightarrow> ('c, reservation) sysact" where
  "MixRouteStore_Reserve env s cid =
     abind (readPort (rs_hostPort s)) (\<lambda>hostPort.
     abind (onCloud (ports_Get env (rs_NetworkClient s) (po_ID hostPort))) (\<lambda>port.
     (if IsOverMaxIPs port then aerr overMaxIPsErr
      else
      abind (allocatePort env s port) (\<lambda>r.
      abind (writeIP (rs_dataDir s) cid (ipString (IPNet_IP (fst r)))) (\<lambda>_.
      aret r)))))"

text \<open>\<^verbatim>\<open>%v\<close> of a slice of \<^verbatim>\<open>ports.IP\<close>.\<close>

definition showFixedIPs :: "FixedIP list \<Rightarrow> string" where
  "showFixedIPs ips =
     ''['' @ join '' '' (map (\<lambda>i. ''{'' @ fi_SubnetID i @ '' '' @ fi_IPAddress i @ ''}'') ips) @ '']''"

definition removePort :: "'c env \<Rightarrow> MixRouteStore \<Rightarrow> string \<Rightarrow> ('c, unit) sysact" where
  "removePort env s containerIP =
     abind (readPort (rs_hostPort s)) (\<lambda>hostPort.
     (case findIndex (po_FixedIPs hostPort) containerIP of
        Some idx \<Rightarrow>
          (let hostPort' = hostPort\<lparr>po_FixedIPs := removeAt idx (po_FixedIPs hostPort)\<rparr> in
           abind (writePort (rs_hostPort s) hostPort') (\<lambda>_.
           abind (onCloud (ports_Update env (rs_NetworkClient s) (po_ID hostPort') (po_FixedIPs hostPort'))) (\<lambda>_.
           aret ())))
      | None \<Rightarrow> aerr (''container ip '' @ containerIP @ '' was not found in fixedIPs '' @ showFixedIPs (po_FixedIPs hostPort))))"

definition MixRouteStore_ReleaseByID :: "'c env \<Rightarrow> MixRouteStore \<Rightarrow> string \<Rightarrow> ('c, unit) sysact" where
  "MixRouteStore_ReleaseByID env s cid =
     abind (walkContainer (rs_dataDir s) cid) (\<lambda>found.
     (case found of
        None \<Rightarrow> aret ()
      | Some (containerIP, containerIPPath) \<Rightarrow>
        (if containerIP = [] then aret () else
        abind (removePort env s containerIP) (\<lambda>_.
        removeContainerFile containerIPPath))))"

text \<open>The search of a route by destination, the second use of \<^verbatim>\<open>findIndex\<close> in this store.\<close>

definition findRouteIndex :: "(string \<times> string) list \<Rightarrow> string \<Rightarrow> nat option" where
  "findRouteIndex routes target =
     (let destCidr = (if \<not> contains target ''/'' then target @ ''/32'' else target)
      in findIdx (\<lambda>(nexthop, dest). dest = destCidr) routes)"

section \<open>The interface backend.Store and the factory\<close>

datatype Store =
    Separate SeparateStore
  | Eni EniStore
  | Mix MixStore
  | MixRoute MixRouteStore

definition onLock :: "(SeparateStore \<Rightarrow> 'b) \<Rightarrow> (FileLock \<Rightarrow> 'b) \<Rightarrow> Store \<Rightarrow> 'b" where
  "onLock f g s = (case s of
      Separate s \<Rightarrow> f s
    | Eni s \<Rightarrow> g (es_FileLock s)
    | Mix s \<Rightarrow> g (ms_FileLock s)
    | MixRoute s \<Rightarrow> g (rs_FileLock s))"

definition Store_Lock :: "Store \<Rightarrow> ('c, unit) sysact" where
  "Store_Lock = onLock SeparateStore_Lock FileLock_Lock"

definition Store_Unlock :: "Store \<Rightarrow> ('c, unit) sysact" where
  "Store_Unlock = onLock SeparateStore_Unlock FileLock_Unlock"

definition Store_Close :: "Store \<Rightarrow> ('c, unit) sysact" where
  "Store_Close = onLock SeparateStore_Close FileLock_Close"

fun Store_Reserve :: "'c env \<Rightarrow> Store \<Rightarrow> string \<Rightarrow> ('c, reservation) sysact" where
  "Store_Reserve env (Separate s) cid = SeparateStore_Reserve env s cid"
| "Store_Reserve env (Eni s) cid = EniStore_Reserve env s cid"
| "Store_Reserve env (Mix s) cid = MixStore_Reserve env s cid"
| "Store_Reserve env (MixRoute s) cid = MixRouteStore_Reserve env s cid"

fun Store_ReleaseByID :: "'c env \<Rightarrow> Store \<Rightarrow> string \<Rightarrow> ('c, unit) sysact" where
  "Store_ReleaseByID env (Separate s) cid = SeparateStore_ReleaseByID env s cid"
| "Store_ReleaseByID env (Eni s) cid = EniStore_ReleaseByID env s cid"
| "Store_ReleaseByID env (Mix s) cid = MixStore_ReleaseByID env s cid"
| "Store_ReleaseByID env (MixRoute s) cid = MixRouteStore_ReleaseByID env s cid"

definition StoreFactory :: "'c env \<Rightarrow> IPAMConfig \<Rightarrow> ('c, Store) sysact" where
  "StoreFactory env ipamConfig =
     (case ic_NeutronConf ipamConfig of None \<Rightarrow> apanic | Some nc \<Rightarrow>
      (if nc_Mode nc = [] \<or> nc_Mode nc = IPAM_MODE_SEPARATE
       then abind (NewSeparateStore env ipamConfig) (\<lambda>s. aret (Separate s))
       else if nc_Mode nc = IPAM_MODE_MIX_ROUTE
       then abind (NewMixRouteStore env ipamConfig) (\<lambda>s. aret (MixRoute s))
       else if nc_Mode nc = IPAM_MODE_MIX
       then abind (NewMixStore env ipamConfig) (\<lambda>s. aret (Mix s))
       else if nc_Mode nc = IPAM_MODE_ENI
       then abind (NewEniStore env ipamConfig) (\<lambda>s. aret (Eni s))
       else aerr ''unsupported mode''))"

end
