(* ===== verification/Router.thy ===== *)
theory Router
  imports Stores
begin

text \<open>
  \<^verbatim>\<open>pkg/openstack/neutron/router/router.go\<close>: the static routes of the neutron router. A router keeps one
  route per pod, to the node the pod runs on; \<open>UpdateRoutes\<close> replaces all of them. The properties
  say which routes those are and that the router's lock is free again whatever happens.
\<close>

section \<open>Pods and the router\<close>

text \<open>The fields of a pod that the route controller reads.\<close>

record RoutedPod =
  rp_Namespace :: string
  rp_Name :: string
  rp_PodIP :: string
  rp_HostIP :: string
  rp_Deleting :: bool
  rp_Annotations :: "(string \<times> string) list"

record NeutronRouter =
  nr_lock :: nat
  nr_networkClient :: ServiceClient
  nr_subnet :: Subnet
  nr_router :: string

text \<open>
  \<open>unmarshal\<close> stands for \<^verbatim>\<open>json.Unmarshal(data, &cniConf)\<close>, which sets the fields that the data has and
  leaves the others: it gets the value so far.
\<close>

fun loadWalk :: "(string \<Rightarrow> Net \<Rightarrow> Net result) \<Rightarrow> string list \<Rightarrow> Net \<Rightarrow> ('c, Net) sysact" where
  "loadWalk unmarshal [] cniConf = aret cniConf"
| "loadWalk unmarshal (p # ps) cniConf =
     acase (osReadFile p)
       (\<lambda>contents. abind (alift (unmarshal contents cniConf)) (loadWalk unmarshal ps))
       (\<lambda>_. loadWalk unmarshal ps cniConf)"

definition emptyNet :: Net where
  "emptyNet = \<lparr>net_Name = [], net_CNIVersion = [], net_IPAM = None, net_IPRanges = [], net_Args = None\<rparr>"

definition loadIpamConfig :: "'c env \<Rightarrow> (string \<Rightarrow> Net \<Rightarrow> Net result) \<Rightarrow> string \<Rightarrow> ('c, IPAMConfig) sysact" where
  "loadIpamConfig env unmarshal dataDir =
     abind (\<lambda>w. loadWalk unmarshal (walkFiles dataDir w) emptyNet w) (\<lambda>cniConf.
     (case net_IPAM cniConf of None \<Rightarrow> apanic | Some ipam \<Rightarrow>
      (case ic_NeutronConf ipam of None \<Rightarrow> apanic | Some nc \<Rightarrow>
       (if nc_HostInterface nc = []
        then abind (alift (GetRouteInterface env)) (\<lambda>gwInterface.
               aret (ipam\<lparr>ic_NeutronConf := Some (nc\<lparr>nc_HostInterface := gwInterface\<rparr>)\<rparr>))
        else aret ipam))))"

definition NewNeutronRouter :: "'c env \<Rightarrow> (string \<Rightarrow> Net \<Rightarrow> Net result) \<Rightarrow> ('c, NeutronRouter) sysact" where
  "NewNeutronRouter env unmarshal =
     abind (loadIpamConfig env unmarshal ''/etc/cni/net.d/'') (\<lambda>ipamConfig.
     abind (ConnectStore env (ic_OpenStackConf ipamConfig) SERVICE_TYPE_NETWORK) (\<lambda>networkClient.
     (case ic_NeutronConf ipamConfig of None \<Rightarrow> apanic | Some nc \<Rightarrow>
      (if length (nc_Networks nc) = 0 then aerr ''neutron networks is none''
       else
       abind (hostAddress env nc) (\<lambda>hostAddr.
       abind (hostNetwork env networkClient nc) (\<lambda>network.
       abind (hostPortOf env networkClient hostAddr) (\<lambda>(hostPort, subnet).
       abind (FindRouter env networkClient (su_GatewayIP subnet)) (\<lambda>found.
       (case found of
          None \<Rightarrow> aerr (''can't find neutron vrouter with gateway ip '' @ su_GatewayIP subnet)
        | Some router \<Rightarrow>
          abind newMutex (\<lambda>m.
          aret \<lparr>nr_lock = m, nr_networkClient = networkClient, nr_subnet = subnet, nr_router = router\<rparr>))))))))))"

section \<open>Routes\<close>

definition checkPodIP :: "NeutronRouter \<Rightarrow> string \<Rightarrow> bool result" where
  "checkPodIP nr containerIP =
     rbind (ParseCIDR (su_CIDR (nr_subnet nr))) (\<lambda>(_, subnet). Ok (netContains subnet (ParseIP containerIP)))"

text \<open>A route is its next hop and its destination.\<close>

fun parsePodsRoutes :: "NeutronRouter \<Rightarrow> RoutedPod list \<Rightarrow> (string \<times> string) list" where
  "parsePodsRoutes nr [] = []"
| "parsePodsRoutes nr (pod # pods) =
     (if rp_Deleting pod then parsePodsRoutes nr pods
      else case checkPodIP nr (rp_PodIP pod) of
          Ok valid \<Rightarrow> (if valid then [(rp_HostIP pod, rp_PodIP pod @ ''/32'')] else []) @ parsePodsRoutes nr pods
        | _ \<Rightarrow> parsePodsRoutes nr pods)"

definition UpdateRoutes :: "'c env \<Rightarrow> NeutronRouter \<Rightarrow> RoutedPod list \<Rightarrow> ('c, unit) sysact" where
  "UpdateRoutes env nr pods =
     abind (mutexLock (nr_lock nr)) (\<lambda>_.
     adefer (mutexUnlock (nr_lock nr))
       (onCloud (routers_Update env (nr_networkClient nr) (nr_router nr) (parsePodsRoutes nr pods))))"

section \<open>Which routes the router gets\<close>

definition routable :: "NeutronRouter \<Rightarrow> RoutedPod \<Rightarrow> bool" where
  "routable nr pod \<longleftrightarrow> \<not> rp_Deleting pod \<and> checkPodIP nr (rp_PodIP pod) = Ok True"

definition routeOf :: "RoutedPod \<Rightarrow> string \<times> string" where
  "routeOf pod = (rp_HostIP pod, rp_PodIP pod @ ''/32'')"

lemma parsePodsRoutes_eq: "parsePodsRoutes nr pods = map routeOf (filter (routable nr) pods)"
  by (induction pods) (auto simp: routable_def routeOf_def split: result.splits)

lemma parsePodsRoutes_bad_cidr:
  "\<not> is_Ok (ParseCIDR (su_CIDR (nr_subnet nr))) \<Longrightarrow> parsePodsRoutes nr pods = []"
  by (auto simp: parsePodsRoutes_eq routable_def checkPodIP_def rbind_eq_Ok is_Ok_iff filter_empty_conv)

text \<open>With a free lock, the update is the one call to neutron, and the system is otherwise as before.\<close>

lemma UpdateRoutes_call:
  assumes "nr_lock nr < length (sys_mutexes w)" and "\<not> sys_mutexes w ! nr_lock nr"
  shows "UpdateRoutes env nr pods w =
    (case routers_Update env (nr_networkClient nr) (nr_router nr) (parsePodsRoutes nr pods) (sys_cloud w) of
       (r, c) \<Rightarrow> (r, w\<lparr>sys_cloud := c\<rparr>))"
proof -
  have "(sys_mutexes w)[nr_lock nr := False] = sys_mutexes w" using assms by (metis (full_types) list_update_id)
  then have "w\<lparr>sys_cloud := c, sys_mutexes := (sys_mutexes w)[nr_lock nr := False]\<rparr> = w\<lparr>sys_cloud := c\<rparr>" for c by simp
  then show ?thesis using assms
    by (auto simp: UpdateRoutes_def mutexLock_def mutexUnlock_def act_simps split: prod.splits result.splits)
qed

end
