(* ===== verification/WorkQueue.thy ===== *)
theory WorkQueue
  imports Go_Prelude
begin

text \<open>
  The work queue of \<^verbatim>\<open>k8s.io/client-go/util/workqueue\<close> (vendored under \<^verbatim>\<open>src/vendor\<close>) that the route
  controller runs on: the order of the items, the set of dirty items, the items being processed, and
  the items that wait for their rate limit. The locale \<open>work_queue\<close> is what a controller relies on: an
  item added is pending until a worker takes it, an item added while it is processed is pending again
  when it is done, and no item is taken by two workers at once.
\<close>

record 'i wqueue =
  wq_queue :: "'i list"
  wq_dirty :: "'i set"
  wq_processing :: "'i set"
  wq_waiting :: "'i set"
  wq_shuttingDown :: bool

definition wqNew :: "'i wqueue" where
  "wqNew = \<lparr>wq_queue = [], wq_dirty = {}, wq_processing = {}, wq_waiting = {}, wq_shuttingDown = False\<rparr>"

definition wqAdd :: "'i \<Rightarrow> 'i wqueue \<Rightarrow> 'i wqueue" where
  "wqAdd item q =
     (if wq_shuttingDown q then q
      else if item \<in> wq_dirty q then q
      else let q = q\<lparr>wq_dirty := insert item (wq_dirty q)\<rparr>
           in if item \<in> wq_processing q then q else q\<lparr>wq_queue := wq_queue q @ [item]\<rparr>)"

text \<open>\<open>wqGet\<close>: \<open>None\<close> when the caller blocks, \<open>Some None\<close> on shutdown, else the first item.\<close>

definition wqGet :: "'i wqueue \<Rightarrow> ('i option \<times> 'i wqueue) option" where
  "wqGet q = (case wq_queue q of
      [] \<Rightarrow> if wq_shuttingDown q then Some (None, q) else None
    | item # rest \<Rightarrow> Some (Some item, q\<lparr>wq_queue := rest, wq_processing := insert item (wq_processing q),
                                        wq_dirty := wq_dirty q - {item}\<rparr>))"

definition wqDone :: "'i \<Rightarrow> 'i wqueue \<Rightarrow> 'i wqueue" where
  "wqDone item q =
     (let q = q\<lparr>wq_processing := wq_processing q - {item}\<rparr>
      in if item \<in> wq_dirty q then q\<lparr>wq_queue := wq_queue q @ [item]\<rparr> else q)"

text \<open>\<^verbatim>\<open>AddRateLimited\<close> hands the item to the delaying queue, which adds it when its time has come.\<close>

definition wqAddRateLimited :: "'i \<Rightarrow> 'i wqueue \<Rightarrow> 'i wqueue" where
  "wqAddRateLimited item q =
     (if wq_shuttingDown q then q else q\<lparr>wq_waiting := insert item (wq_waiting q)\<rparr>)"

definition wqReady :: "'i \<Rightarrow> 'i wqueue \<Rightarrow> 'i wqueue" where
  "wqReady item q = (if item \<in> wq_waiting q then wqAdd item (q\<lparr>wq_waiting := wq_waiting q - {item}\<rparr>) else q)"

definition wqShutDown :: "'i wqueue \<Rightarrow> 'i wqueue" where
  "wqShutDown q = q\<lparr>wq_shuttingDown := True\<rparr>"

section \<open>The contract\<close>

text \<open>
  \<open>inv\<close> is the queue's invariant, \<open>pending q\<close> the items some worker is still to take, \<open>busy q\<close> the
  items workers hold.
\<close>

locale work_queue =
  fixes add :: "'i \<Rightarrow> 'q \<Rightarrow> 'q"
    and get :: "'q \<Rightarrow> ('i option \<times> 'q) option"
    and finish :: "'i \<Rightarrow> 'q \<Rightarrow> 'q"
    and addLater :: "'i \<Rightarrow> 'q \<Rightarrow> 'q"
    and ready :: "'i \<Rightarrow> 'q \<Rightarrow> 'q"
    and inv :: "'q \<Rightarrow> bool"
    and running :: "'q \<Rightarrow> bool"
    and pending :: "'q \<Rightarrow> 'i set"
    and busy :: "'q \<Rightarrow> 'i set"
  assumes add_inv: "inv q \<Longrightarrow> inv (add i q)"
    and add_pending: "inv q \<Longrightarrow> running q \<Longrightarrow> pending (add i q) = insert i (pending q)"
    and add_busy: "busy (add i q) = busy q" "running (add i q) = running q"
    and get_inv: "inv q \<Longrightarrow> get q = Some (Some i, q') \<Longrightarrow> inv q'"
    and get_takes: "inv q \<Longrightarrow> get q = Some (Some i, q') \<Longrightarrow>
          i \<in> pending q \<and> i \<notin> busy q \<and> pending q - {i} \<subseteq> pending q' \<and> busy q' = insert i (busy q) \<and> running q' = running q"
    and get_idle: "inv q \<Longrightarrow> running q \<Longrightarrow> busy q = {} \<Longrightarrow> pending q \<noteq> {} \<Longrightarrow>
          (\<exists>i q'. get q = Some (Some i, q')) \<or> (\<exists>i \<in> pending q. \<exists>q'. get (ready i q) = Some (Some i, q'))"
    and finish_inv: "inv q \<Longrightarrow> i \<in> busy q \<Longrightarrow> inv (finish i q)"
    and finish_pending: "inv q \<Longrightarrow> i \<in> busy q \<Longrightarrow>
          pending (finish i q) = pending q \<and> busy (finish i q) = busy q - {i} \<and> running (finish i q) = running q"
    and later_inv: "inv q \<Longrightarrow> inv (addLater i q)"
    and later_pending: "inv q \<Longrightarrow> running q \<Longrightarrow> pending (addLater i q) = insert i (pending q)"
    and later_busy: "busy (addLater i q) = busy q" "running (addLater i q) = running q"
    and ready_inv: "inv q \<Longrightarrow> inv (ready i q)"
    and ready_pending: "inv q \<Longrightarrow> running q \<Longrightarrow> pending (ready i q) = pending q"
    and ready_busy: "busy (ready i q) = busy q" "running (ready i q) = running q"
begin

text \<open>What a client does with an item whose work failed: it is given back and will be taken again.\<close>

lemma retry_keeps:
  assumes "inv q" and "running q" and "i \<in> busy q"
  shows "inv (finish i (addLater i q))" "pending (finish i (addLater i q)) = insert i (pending q)"
    "busy (finish i (addLater i q)) = busy q - {i}"
proof -
  have l: "inv (addLater i q)" "i \<in> busy (addLater i q)" using assms by (simp_all add: later_inv later_busy)
  show "inv (finish i (addLater i q))" by (rule finish_inv[OF l])
  show "pending (finish i (addLater i q)) = insert i (pending q)" using finish_pending[OF l] later_pending[OF assms(1,2)] by simp
  show "busy (finish i (addLater i q)) = busy q - {i}" using finish_pending[OF l] by (simp add: later_busy)
qed

end

section \<open>The queue of client-go fulfils it\<close>

text \<open>As the comments of \<^verbatim>\<open>queue.go\<close> say: every element of the queue is dirty and not being processed.\<close>

definition wq_inv :: "'i wqueue \<Rightarrow> bool" where
  "wq_inv q \<longleftrightarrow> distinct (wq_queue q) \<and> set (wq_queue q) = wq_dirty q - wq_processing q"

definition wq_running :: "'i wqueue \<Rightarrow> bool" where
  "wq_running q = (\<not> wq_shuttingDown q)"

definition wq_pending :: "'i wqueue \<Rightarrow> 'i set" where
  "wq_pending q = wq_dirty q \<union> wq_waiting q"

lemmas wq_defs = wqAdd_def wqGet_def wqDone_def wqAddRateLimited_def wqReady_def wq_inv_def wq_running_def wq_pending_def Let_def

lemma wqGet_Some:
  "wqGet q = Some (Some i, q') \<longleftrightarrow> (\<exists>rest. wq_queue q = i # rest \<and>
     q' = q\<lparr>wq_queue := rest, wq_processing := insert i (wq_processing q), wq_dirty := wq_dirty q - {i}\<rparr>)"
  by (auto simp: wqGet_def split: list.splits if_splits)

lemma wqGet_takes:
  assumes "wq_inv q" and "wqGet q = Some (Some i, q')"
  shows "i \<in> wq_pending q \<and> i \<notin> wq_processing q \<and> wq_pending q - {i} \<subseteq> wq_pending q' \<and>
      wq_processing q' = insert i (wq_processing q) \<and> wq_running q' = wq_running q"
proof -
  obtain rest where r: "wq_queue q = i # rest"
    and q': "q' = q\<lparr>wq_queue := rest, wq_processing := insert i (wq_processing q), wq_dirty := wq_dirty q - {i}\<rparr>"
    using assms(2) by (auto simp: wqGet_Some)
  have "i \<in> wq_dirty q - wq_processing q" using assms(1) r by (auto simp: wq_inv_def)
  then show ?thesis by (auto simp: q' wq_pending_def wq_running_def)
qed

lemma wqGet_sub:
  assumes "wq_inv q" and "wqGet q = Some (Some i, q')"
  shows "wq_pending q' \<union> wq_processing q' \<subseteq> wq_pending q \<union> wq_processing q"
proof -
  have "i \<in> wq_pending q" using wqGet_takes[OF assms] by simp
  then show ?thesis using assms(2) by (auto simp: wqGet_Some wq_pending_def)
qed

lemma wqGet_inv: "wq_inv q \<Longrightarrow> wqGet q = Some (Some i, q') \<Longrightarrow> wq_inv q'"
  by (clarsimp simp: wqGet_Some wq_inv_def) auto

lemma wqGet_idle:
  assumes "wq_inv q" and "wq_running q" and "wq_processing q = {}" and "wq_pending q \<noteq> {}"
  shows "(\<exists>i q'. wqGet q = Some (Some i, q')) \<or> (\<exists>i \<in> wq_pending q. \<exists>q'. wqGet (wqReady i q) = Some (Some i, q'))"
proof (cases "wq_queue q")
  case Nil
  then have "wq_dirty q = {}" using assms(1,3) by (simp add: wq_inv_def)
  then obtain i where "i \<in> wq_waiting q" using assms(4) by (auto simp: wq_pending_def)
  then show ?thesis using Nil \<open>wq_dirty q = {}\<close> assms(2,3)
    by (intro disjI2 bexI[of _ i]) (simp_all add: wq_defs)
next
  case (Cons i rest)
  then show ?thesis by (simp add: wqGet_def)
qed

interpretation wq: work_queue wqAdd wqGet wqDone wqAddRateLimited wqReady wq_inv wq_running wq_pending wq_processing
proof (unfold_locales, goal_cases)
  case 5 then show ?case by (rule wqGet_inv)
next
  case 6 then show ?case by (rule wqGet_takes)
next
  case 7 then show ?case by (rule wqGet_idle)
qed (auto simp: wq_defs)

end
