(* ===== verification/Controller.thy ===== *)
theory Controller
  imports Router WorkQueue
begin

text \<open>
  \<^verbatim>\<open>pkg/controller/controller.go\<close>: the controller that keeps the router's routes in step with the pods. The
  handlers of the informer put keys on the work queue, workers take a key, list the pods and update
  the routes. \<open>processNextWorkItem\<close> and \<open>Controller_sync\<close> are the code of one worker;
  \<open>cstep\<close> is the controller with several workers, with a step for every point where another
  worker or the informer can come in between.
\<close>

section \<open>Keys, handlers and one worker\<close>

text \<open>An item of the queue is a key or, from \<^verbatim>\<open>update\<close>, a pointer to a pod.\<close>

datatype item = Key string | Obj nat

text \<open>\<^verbatim>\<open>cache.MetaNamespaceKeyFunc\<close> and \<^verbatim>\<open>cache.SplitMetaNamespaceKey\<close>.\<close>

definition podKey :: "RoutedPod \<Rightarrow> string" where
  "podKey p = (if length (rp_Namespace p) > 0 then rp_Namespace p @ ''/'' @ rp_Name p else rp_Name p)"

definition splitKey :: "string \<Rightarrow> (string \<times> string) option" where
  "splitKey key = (case split (CHR ''/'') key of
      [name] \<Rightarrow> Some ([], name) | [ns, name] \<Rightarrow> Some (ns, name) | _ \<Rightarrow> None)"

definition Controller_add :: "RoutedPod \<Rightarrow> item wqueue \<Rightarrow> item wqueue" where
  "Controller_add obj q = wqAdd (Key (podKey obj)) q"

text \<open>The object of a delete event is the pod or, when its deletion was missed, its key.\<close>

definition Controller_delete :: "RoutedPod + string \<Rightarrow> item wqueue \<Rightarrow> item wqueue" where
  "Controller_delete obj q = wqAdd (Key (case obj of Inl pod \<Rightarrow> podKey pod | Inr key \<Rightarrow> key)) q"

text \<open>\<open>ptr\<close> is the address of the new pod. Annotations are maps: their order does not count.\<close>

definition Controller_update :: "RoutedPod \<Rightarrow> nat \<Rightarrow> RoutedPod \<Rightarrow> item wqueue \<Rightarrow> item wqueue" where
  "Controller_update oldPod ptr newPod q =
     (if \<not> set (rp_Annotations oldPod) = set (rp_Annotations newPod) then wqAdd (Obj ptr) q else q)"

record lister =
  ls_Get :: "string \<Rightarrow> string \<Rightarrow> RoutedPod option result"
  ls_List :: "RoutedPod list result"

text \<open>The part of \<^verbatim>\<open>sync\<close> before the pods are listed: whether the routes are to be updated.\<close>

definition syncCheck :: "lister \<Rightarrow> string \<Rightarrow> bool result" where
  "syncCheck ls key =
     (case splitKey key of
        None \<Rightarrow> Ok False
      | Some (namespace, name) \<Rightarrow>
          rbind (ls_Get ls namespace name) (\<lambda>pod.
          (case pod of
             Some p \<Rightarrow> if rp_PodIP p = [] then Err (''pod '' @ rp_Name p @ '' have no ip'') else Ok True
           | None \<Rightarrow> Ok True)))"

definition Controller_sync :: "'c env \<Rightarrow> NeutronRouter \<Rightarrow> lister \<Rightarrow> string \<Rightarrow> ('c, unit) sysact" where
  "Controller_sync env nr ls key =
     abind (alift (syncCheck ls key)) (\<lambda>go.
     (if go then abind (alift (ls_List ls)) (UpdateRoutes env nr) else aret ()))"

text \<open>What a worker does to the queue with the outcome of an item: \<^verbatim>\<open>Done\<close> is deferred.\<close>

definition finishItem :: "item \<Rightarrow> unit result \<Rightarrow> item wqueue \<Rightarrow> item wqueue" where
  "finishItem i r q = (case r of Err _ \<Rightarrow> wqDone i (wqAddRateLimited i q) | _ \<Rightarrow> wqDone i q)"

definition processItem :: "'c env \<Rightarrow> NeutronRouter \<Rightarrow> lister \<Rightarrow> item \<Rightarrow> ('c sys \<times> item wqueue) \<Rightarrow> bool result \<times> ('c sys \<times> item wqueue)" where
  "processItem env nr ls obj s = (case s of (w, q) \<Rightarrow>
     (case obj of
        Obj _ \<Rightarrow> (Ok True, (w, wqDone obj q))
      | Key key \<Rightarrow> (case Controller_sync env nr ls key w of (r, w') \<Rightarrow>
          (if r = Panic then Panic else Ok True, (w', finishItem obj r q)))))"

text \<open>\<open>None\<close>: the worker waits for an item. The result says whether the worker goes on.\<close>

definition processNextWorkItem :: "'c env \<Rightarrow> NeutronRouter \<Rightarrow> lister \<Rightarrow> ('c sys \<times> item wqueue) \<Rightarrow> (bool result \<times> ('c sys \<times> item wqueue)) option" where
  "processNextWorkItem env nr ls s = (case s of (w, q) \<Rightarrow>
     (case wqGet q of
        None \<Rightarrow> None
      | Some (None, q') \<Rightarrow> Some (Ok False, (w, q'))
      | Some (Some obj, q') \<Rightarrow> Some (processItem env nr ls obj (w, q'))))"

text \<open>\<^verbatim>\<open>runWorker\<close> until it waits, stops or panics; \<open>fuel\<close> bounds the items.\<close>

fun runWorker :: "nat \<Rightarrow> 'c env \<Rightarrow> NeutronRouter \<Rightarrow> lister \<Rightarrow> ('c sys \<times> item wqueue) \<Rightarrow> ('c sys \<times> item wqueue) option" where
  "runWorker 0 env nr ls s = None"
| "runWorker (Suc fuel) env nr ls s =
     (case processNextWorkItem env nr ls s of
        None \<Rightarrow> Some s
      | Some (Ok True, s') \<Rightarrow> runWorker fuel env nr ls s'
      | Some (_, s') \<Rightarrow> Some s')"

section \<open>The controller as a state machine\<close>

datatype wstate =
    W_Idle
  | W_Got item
  | W_Checked item
  | W_Listed item "RoutedPod list"

datatype event = AddEv RoutedPod | UpdEv RoutedPod nat RoutedPod | DelEv "RoutedPod + string"

record 'c cstate =
  cs_sys :: "'c sys"
  cs_pods :: "RoutedPod list"
  cs_events :: "event list"
  cs_queue :: "item wqueue"
  cs_workers :: "nat \<Rightarrow> wstate"

text \<open>The lister reads the informer's cache.\<close>

definition cacheLister :: "RoutedPod list \<Rightarrow> lister" where
  "cacheLister pods =
     \<lparr>ls_Get = (\<lambda>ns name. Ok (List.find (\<lambda>p. rp_Namespace p = ns \<and> rp_Name p = name) pods)), ls_List = Ok pods\<rparr>"

definition validPod :: "RoutedPod \<Rightarrow> bool" where
  "validPod p \<longleftrightarrow> CHR ''/'' \<notin> set (rp_Namespace p) \<and> CHR ''/'' \<notin> set (rp_Name p)"

fun handle :: "event \<Rightarrow> item wqueue \<Rightarrow> item wqueue" where
  "handle (AddEv p) q = Controller_add p q"
| "handle (UpdEv oldPod ptr newPod) q = Controller_update oldPod ptr newPod q"
| "handle (DelEv obj) q = Controller_delete obj q"

definition setWorker :: "nat \<Rightarrow> wstate \<Rightarrow> 'c cstate \<Rightarrow> 'c cstate" where
  "setWorker n x s = s\<lparr>cs_workers := (cs_workers s)(n := x)\<rparr>"

definition setQueue :: "item wqueue \<Rightarrow> 'c cstate \<Rightarrow> 'c cstate" where
  "setQueue q s = s\<lparr>cs_queue := q\<rparr>"

text \<open>
  The steps of the informer (a pod comes, changes or goes in the cache, with an event to deliver; \<open>U\<close> are the changes that
  happen, and a deletion is told with the pod or, when it was missed, with its key) and of the
  controller with workers \<open>0..N-1\<close>: a handler runs, a rate limit expires, a worker takes an item,
  drops an item that is not a key, checks the pod of its key, lists the pods, or updates the routes.
\<close>

definition samePod :: "RoutedPod \<Rightarrow> RoutedPod \<Rightarrow> bool" where
  "samePod p p' \<longleftrightarrow> rp_Namespace p = rp_Namespace p' \<and> rp_Name p = rp_Name p'"

inductive istepU :: "(RoutedPod \<Rightarrow> RoutedPod \<Rightarrow> bool) \<Rightarrow> 'c cstate \<Rightarrow> 'c cstate \<Rightarrow> bool" for U where
  CacheAdd: "validPod p \<Longrightarrow> istepU U s (s\<lparr>cs_pods := p # cs_pods s, cs_events := cs_events s @ [AddEv p]\<rparr>)"
| CacheUpd: "j < length (cs_pods s) \<Longrightarrow> p = cs_pods s ! j \<Longrightarrow> samePod p p' \<Longrightarrow> U p p' \<Longrightarrow>
    istepU U s (s\<lparr>cs_pods := (cs_pods s)[j := p'], cs_events := cs_events s @ [UpdEv p ptr p']\<rparr>)"
| CacheDel: "p \<in> set (cs_pods s) \<Longrightarrow> validPod p \<Longrightarrow> obj \<in> {Inl p, Inr (podKey p)} \<Longrightarrow>
    istepU U s (s\<lparr>cs_pods := remove1 p (cs_pods s), cs_events := cs_events s @ [DelEv obj]\<rparr>)"

abbreviation istep :: "'c cstate \<Rightarrow> 'c cstate \<Rightarrow> bool" where
  "istep \<equiv> istepU (\<lambda>_ _. True)"

inductive cstep :: "'c env \<Rightarrow> NeutronRouter \<Rightarrow> nat \<Rightarrow> 'c cstate \<Rightarrow> 'c cstate \<Rightarrow> bool" for env nr N where
  Deliver: "cs_events s = e # es \<Longrightarrow> cstep env nr N s (setQueue (handle e (cs_queue s)) (s\<lparr>cs_events := es\<rparr>))"
| Ready: "i \<in> wq_waiting (cs_queue s) \<Longrightarrow> cstep env nr N s (setQueue (wqReady i (cs_queue s)) s)"
| Get: "n < N \<Longrightarrow> cs_workers s n = W_Idle \<Longrightarrow> wqGet (cs_queue s) = Some (Some i, q) \<Longrightarrow>
    cstep env nr N s (setWorker n (W_Got i) (setQueue q s))"
| Drop: "n < N \<Longrightarrow> cs_workers s n = W_Got (Obj a) \<Longrightarrow>
    cstep env nr N s (setWorker n W_Idle (setQueue (wqDone (Obj a) (cs_queue s)) s))"
| Skip: "n < N \<Longrightarrow> cs_workers s n = W_Got (Key k) \<Longrightarrow> syncCheck (cacheLister (cs_pods s)) k = Ok False \<Longrightarrow>
    cstep env nr N s (setWorker n W_Idle (setQueue (finishItem (Key k) (Ok ()) (cs_queue s)) s))"
| Refuse: "n < N \<Longrightarrow> cs_workers s n = W_Got (Key k) \<Longrightarrow> syncCheck (cacheLister (cs_pods s)) k = Err e \<Longrightarrow>
    cstep env nr N s (setWorker n W_Idle (setQueue (finishItem (Key k) (Err e) (cs_queue s)) s))"
| Check: "n < N \<Longrightarrow> cs_workers s n = W_Got (Key k) \<Longrightarrow> syncCheck (cacheLister (cs_pods s)) k = Ok True \<Longrightarrow>
    cstep env nr N s (setWorker n (W_Checked (Key k)) s)"
| Listing: "n < N \<Longrightarrow> cs_workers s n = W_Checked i \<Longrightarrow> cstep env nr N s (setWorker n (W_Listed i (cs_pods s)) s)"
| Update: "n < N \<Longrightarrow> cs_workers s n = W_Listed i pods \<Longrightarrow> UpdateRoutes env nr pods (cs_sys s) = (r, w) \<Longrightarrow>
    cstep env nr N s (setWorker n W_Idle (setQueue (finishItem i r (cs_queue s)) (s\<lparr>cs_sys := w\<rparr>)))"

definition reachU :: "(RoutedPod \<Rightarrow> RoutedPod \<Rightarrow> bool) \<Rightarrow> 'c env \<Rightarrow> NeutronRouter \<Rightarrow> nat \<Rightarrow> 'c cstate \<Rightarrow> 'c cstate \<Rightarrow> bool" where
  "reachU U env nr N = (\<lambda>s t. istepU U s t \<or> cstep env nr N s t)\<^sup>*\<^sup>*"

abbreviation reach :: "'c env \<Rightarrow> NeutronRouter \<Rightarrow> nat \<Rightarrow> 'c cstate \<Rightarrow> 'c cstate \<Rightarrow> bool" where
  "reach \<equiv> reachU (\<lambda>_ _. True)"

definition cinit :: "'c sys \<Rightarrow> 'c cstate" where
  "cinit w = \<lparr>cs_sys = w, cs_pods = [], cs_events = [], cs_queue = wqNew, cs_workers = (\<lambda>_. W_Idle)\<rparr>"

end
