(* ===== verification/Allocator.thy ===== *)
theory Allocator
  imports Stores
begin

text \<open>
  \<^verbatim>\<open>pkg/ipam/backend/allocator/allocator.go\<close> over the interface \<^verbatim>\<open>backend.Store\<close>.
  \<open>store_iface\<close> is the interface as a record of operations, \<open>Store_iface\<close> the method table of the four
  stores. The locale \<open>backend_store\<close> is what the allocator relies on (the lock laws and that the
  other operations leave the lock alone), \<open>quota_store\<close> adds a bound on what a store hands out. Both are
  interpreted on the stores of \<^verbatim>\<open>Stores\<close>, for every cloud.
\<close>

named_theorems lockFree_intros \<open>operations that neither read nor write the locks\<close>

section \<open>The allocator\<close>

record 'w store_iface =
  sLock :: "('w, unit) act"
  sUnlock :: "('w, unit) act"
  sClose :: "('w, unit) act"
  sReserve :: "string \<Rightarrow> ('w, reservation) act"
  sReleaseByID :: "string \<Rightarrow> ('w, unit) act"

record IPConfig =
  ipc_Version :: string
  ipc_Interface :: "int option"
  ipc_Address :: ipnet
  ipc_Gateway :: ip

definition toIPConfig :: "reservation \<Rightarrow> IPConfig" where
  "toIPConfig r = (case r of (reservedIP, gw) \<Rightarrow>
     \<lparr>ipc_Version = (if To4 (IPNet_IP reservedIP) = None then ''6'' else ''4''), ipc_Interface = None,
      ipc_Address = reservedIP, ipc_Gateway = gw\<rparr>)"

definition IPAllocator_Get :: "'w store_iface \<Rightarrow> string \<Rightarrow> ('w, IPConfig) act" where
  "IPAllocator_Get S cid =
     abind (aignore (sLock S)) (\<lambda>_.
     adefer (sUnlock S) (abind (sReserve S cid) (\<lambda>r. aret (toIPConfig r))))"

definition IPAllocator_Release :: "'w store_iface \<Rightarrow> string \<Rightarrow> ('w, unit) act" where
  "IPAllocator_Release S cid =
     abind (aignore (sLock S)) (\<lambda>_. adefer (sUnlock S) (sReleaseByID S cid))"

definition Store_iface :: "'c env \<Rightarrow> Store \<Rightarrow> 'c sys store_iface" where
  "Store_iface env s =
     \<lparr>sLock = Store_Lock s, sUnlock = Store_Unlock s, sClose = Store_Close s,
      sReserve = Store_Reserve env s, sReleaseByID = Store_ReleaseByID env s\<rparr>"

lemma Store_iface_simps [simp]:
  "sLock (Store_iface env s) = Store_Lock s"
  "sUnlock (Store_iface env s) = Store_Unlock s"
  "sReserve (Store_iface env s) = Store_Reserve env s"
  "sReleaseByID (Store_iface env s) = Store_ReleaseByID env s"
  by (simp_all add: Store_iface_def)

fun mapResult :: "('a \<Rightarrow> 'b) \<Rightarrow> 'a result \<Rightarrow> 'b result" where
  "mapResult f (Ok x) = Ok (f x)"
| "mapResult f (Err e) = Err e"
| "mapResult f Panic = Panic"

section \<open>The contract of a store\<close>

text \<open>
  \<open>held\<close> says that this process has the store's lock, \<open>rest\<close> is the system without the locks, and
  \<open>okUnlock\<close> a system on which an unlock works.
\<close>

locale backend_store =
  fixes S :: "'w store_iface"
    and held :: "'w \<Rightarrow> bool"
    and rest :: "'w \<Rightarrow> 'v"
    and okUnlock :: "'w \<Rightarrow> bool"
  assumes lock_held: "sLock S w = (Ok (), w') \<Longrightarrow> held w'"
    and lock_rest: "rest (snd (sLock S w)) = rest w"
    and lock_okUnlock: "okUnlock (snd (sLock S w)) = okUnlock w"
    and unlock_ok: "held w \<Longrightarrow> okUnlock w \<Longrightarrow> fst (sUnlock S w) = Ok () \<and> \<not> held (snd (sUnlock S w))"
    and unlock_rest: "rest (snd (sUnlock S w)) = rest w"
    and reserve_held: "held (snd (sReserve S i w)) = held w"
    and reserve_okUnlock: "okUnlock (snd (sReserve S i w)) = okUnlock w"
    and reserve_rest: "rest w1 = rest w2 \<Longrightarrow>
          fst (sReserve S i w1) = fst (sReserve S i w2) \<and>
          rest (snd (sReserve S i w1)) = rest (snd (sReserve S i w2))"
    and release_held: "held (snd (sReleaseByID S i w)) = held w"
    and release_okUnlock: "okUnlock (snd (sReleaseByID S i w)) = okUnlock w"
    and release_rest: "rest w1 = rest w2 \<Longrightarrow>
          fst (sReleaseByID S i w1) = fst (sReleaseByID S i w2) \<and>
          rest (snd (sReleaseByID S i w1)) = rest (snd (sReleaseByID S i w2))"
begin

text \<open>The shape both operations of the allocator have.\<close>

lemma locked_section:
  assumes l: "fst (sLock S w) = Ok ()" and u: "okUnlock w"
    and h: "\<And>w. held (snd (m w)) = held w" and o: "\<And>w. okUnlock (snd (m w)) = okUnlock w"
    and r: "\<And>w1 w2. rest w1 = rest w2 \<Longrightarrow>
          fst (m w1) = fst (m w2) \<and> rest (snd (m w1)) = rest (snd (m w2))"
  shows "case abind (aignore (sLock S)) (\<lambda>_. adefer (sUnlock S) m) w of (x, w') \<Rightarrow>
           x = fst (m w) \<and> \<not> held w' \<and> rest w' = rest (snd (m w))"
proof -
  obtain w1 where w1: "sLock S w = (Ok (), w1)" using l by (cases "sLock S w") auto
  obtain x w2 where w2: "m w1 = (x, w2)" by (cases "m w1")
  obtain y w3 where w3: "sUnlock S w2 = (y, w3)" by (cases "sUnlock S w2")
  have "held w2" using lock_held[OF w1] h[of w1] w2 by simp
  moreover have "okUnlock w2" using u lock_okUnlock[of w] o[of w1] w1 w2 by simp
  ultimately have y: "y = Ok ()" "\<not> held w3" using unlock_ok[of w2] w3 by simp_all
  have e: "rest w1 = rest w" using lock_rest[of w] w1 by simp
  have "x = fst (m w)" "rest w3 = rest (snd (m w))"
    using r[OF e] unlock_rest[of w2] w2 w3 by simp_all
  then show ?thesis
    using w1 w2 w3 y by (simp add: act_simps)
qed

lemma Get_locked:
  assumes "fst (sLock S w) = Ok ()" and "okUnlock w"
  shows "case IPAllocator_Get S i w of (x, w') \<Rightarrow>
           x = mapResult toIPConfig (fst (sReserve S i w)) \<and> \<not> held w' \<and> rest w' = rest (snd (sReserve S i w))"
proof -
  define m where "m = abind (sReserve S i) (\<lambda>r. aret (toIPConfig r))"
  have m: "m w = (mapResult toIPConfig (fst (sReserve S i w)), snd (sReserve S i w))" for w
    by (cases "sReserve S i w"; cases "fst (sReserve S i w)") (auto simp: m_def act_simps)
  have "case abind (aignore (sLock S)) (\<lambda>_. adefer (sUnlock S) m) w of (x, w') \<Rightarrow>
           x = fst (m w) \<and> \<not> held w' \<and> rest w' = rest (snd (m w))"
  proof (rule locked_section[OF assms])
    fix w1 w2 assume "rest w1 = rest w2"
    from reserve_rest[OF this, of i]
    show "fst (m w1) = fst (m w2) \<and> rest (snd (m w1)) = rest (snd (m w2))" by (simp add: m)
  qed (simp_all add: m reserve_held reserve_okUnlock)
  then show ?thesis
    by (simp add: IPAllocator_Get_def m_def[symmetric] m)
qed

lemma Release_locked:
  assumes "fst (sLock S w) = Ok ()" and "okUnlock w"
  shows "case IPAllocator_Release S i w of (x, w') \<Rightarrow>
           x = fst (sReleaseByID S i w) \<and> \<not> held w' \<and> rest w' = rest (snd (sReleaseByID S i w))"
  unfolding IPAllocator_Release_def
proof (rule locked_section[OF assms])
  fix w1 w2 assume "rest w1 = rest w2"
  then show "fst (sReleaseByID S i w1) = fst (sReleaseByID S i w2) \<and>
     rest (snd (sReleaseByID S i w1)) = rest (snd (sReleaseByID S i w2))" by (rule release_rest)
qed (simp_all add: release_held release_okUnlock)

end

text \<open>A store with a bound: it hands nothing out once the count it reports reaches the bound.\<close>

locale quota_store = backend_store S held rest okUnlock
  for S :: "'w store_iface" and held rest okUnlock +
  fixes used :: "'w \<Rightarrow> nat" and cap :: nat and refusal :: string
  assumes used_rest: "rest w1 = rest w2 \<Longrightarrow> used w1 = used w2"
    and reserve_refuses: "cap \<le> used w \<Longrightarrow> fst (sReserve S i w) = Err refusal"
begin

lemma Get_refuses:
  assumes "fst (sLock S w) = Ok ()" and "okUnlock w" and "cap \<le> used w"
  shows "fst (IPAllocator_Get S i w) = Err refusal"
  using Get_locked[OF assms(1,2), of i] reserve_refuses[OF assms(3), of i]
  by (simp split: prod.splits)

lemma Get_within:
  assumes "fst (sLock S w) = Ok ()" and "okUnlock w" and "fst (IPAllocator_Get S i w) = Ok c"
  shows "used w < cap"
  using Get_refuses[OF assms(1,2), of i] assms(3) by (metis not_le_imp_less result.distinct(1))

end

section \<open>Operations that do not see the locks\<close>

definition setLocks :: "string list \<Rightarrow> bool list \<Rightarrow> 'c sys \<Rightarrow> 'c sys" where
  "setLocks f k w = w\<lparr>sys_flocks := f, sys_mutexes := k\<rparr>"

definition lockFree :: "('c, 'a) sysact \<Rightarrow> bool" where
  "lockFree m \<longleftrightarrow> (\<forall>f k w. m (setLocks f k w) = map_prod id (setLocks f k) (m w)) \<and>
     (\<forall>w. sys_fault (snd (m w)) = sys_fault w)"

lemma setLocks_sel [simp]:
  "sys_cloud (setLocks f k w) = sys_cloud w" "sys_files (setLocks f k w) = sys_files w"
  "sys_dirs (setLocks f k w) = sys_dirs w" "sys_ports (setLocks f k w) = sys_ports w"
  "sys_hostname (setLocks f k w) = sys_hostname w" "sys_fault (setLocks f k w) = sys_fault w"
  "sys_flocks (setLocks f k w) = f" "sys_mutexes (setLocks f k w) = k"
  "setLocks (sys_flocks w) (sys_mutexes w) w = w" "setLocks f k (setLocks f' k' w) = setLocks f k w"
  by (simp_all add: setLocks_def)

lemma setLocks_upd:
  "(setLocks f k w)\<lparr>sys_cloud := c\<rparr> = setLocks f k (w\<lparr>sys_cloud := c\<rparr>)"
  "(setLocks f k w)\<lparr>sys_files := fs\<rparr> = setLocks f k (w\<lparr>sys_files := fs\<rparr>)"
  "(setLocks f k w)\<lparr>sys_dirs := ds\<rparr> = setLocks f k (w\<lparr>sys_dirs := ds\<rparr>)"
  "(setLocks f k w)\<lparr>sys_ports := ps\<rparr> = setLocks f k (w\<lparr>sys_ports := ps\<rparr>)"
  by (simp_all add: setLocks_def)

lemma lockFree_ret [lockFree_intros]: "lockFree (aret x)" "lockFree (aerr e)" "lockFree apanic" "lockFree (alift r)"
  by (simp_all add: lockFree_def act_simps)

lemma lockFree_abind [lockFree_intros]:
  assumes "lockFree m" and "\<And>x. lockFree (f x)"
  shows "lockFree (abind m f)"
  unfolding lockFree_def
proof (intro conjI allI)
  fix fl k w
  obtain r w' where m: "m w = (r, w')" by (cases "m w")
  then have "m (setLocks fl k w) = (r, setLocks fl k w')" using assms(1) by (simp add: lockFree_def)
  then show "abind m f (setLocks fl k w) = map_prod id (setLocks fl k) (abind m f w)"
    using assms(2) m by (cases r) (simp_all add: abind_def lockFree_def)
next
  fix w
  obtain r w' where m: "m w = (r, w')" by (cases "m w")
  then have "sys_fault w' = sys_fault w" using assms(1) by (metis lockFree_def snd_conv)
  then show "sys_fault (snd (abind m f w)) = sys_fault w"
    using assms(2) m by (cases r) (simp_all add: abind_def lockFree_def)
qed

lemma lockFree_acase [lockFree_intros]:
  assumes "lockFree m" and "\<And>x. lockFree (f x)" and "\<And>e. lockFree (h e)"
  shows "lockFree (acase m f h)"
  unfolding lockFree_def
proof (intro conjI allI)
  fix fl k w
  obtain r w' where m: "m w = (r, w')" by (cases "m w")
  then have "m (setLocks fl k w) = (r, setLocks fl k w')" using assms(1) by (simp add: lockFree_def)
  then show "acase m f h (setLocks fl k w) = map_prod id (setLocks fl k) (acase m f h w)"
    using assms(2,3) m by (cases r) (simp_all add: acase_def lockFree_def)
next
  fix w
  obtain r w' where m: "m w = (r, w')" by (cases "m w")
  then have "sys_fault w' = sys_fault w" using assms(1) by (metis lockFree_def snd_conv)
  then show "sys_fault (snd (acase m f h w)) = sys_fault w"
    using assms(2,3) m by (cases r) (simp_all add: acase_def lockFree_def)
qed

lemma lockFree_awrap [lockFree_intros]: "lockFree m \<Longrightarrow> lockFree (awrap f m)"
  unfolding awrap_def by (intro lockFree_intros)

lemma lockFree_aignore [lockFree_intros]: "lockFree m \<Longrightarrow> lockFree (aignore m)"
  unfolding aignore_def by (intro lockFree_intros)

lemma lockFree_if [lockFree_intros]: "lockFree m \<Longrightarrow> lockFree n \<Longrightarrow> lockFree (if b then m else n)"
  by simp

lemma lockFree_onCloud [lockFree_intros]: "lockFree (onCloud m)"
  by (auto simp: lockFree_def onCloud_def setLocks_upd split: prod.splits)

lemma lockFree_guardFault: 
  assumes "\<And>f k w. m (setLocks f k w) = map_prod id (setLocks f k) (m w)"
    and "\<And>w. sys_fault (snd (m w)) = sys_fault w"
  shows "lockFree (guardFault op m)"
  using assms by (auto simp: lockFree_def guardFault_def split: option.splits)

lemma lockFree_os [lockFree_intros]:
  "lockFree (osStat p)" "lockFree (osOpenExcl p)" "lockFree (osWriteString p s)" "lockFree (osClose p)"
  "lockFree (osRemove p)" "lockFree (osReadFile p)"
  unfolding osStat_def osOpenExcl_def osWriteString_def osClose_def osRemove_def osReadFile_def
  by (rule lockFree_guardFault; auto simp: setLocks_upd split: option.splits)+

lemma lockFree_heap [lockFree_intros]: "lockFree (readPort a)" "lockFree (writePort a p)"
  by (auto simp: lockFree_def readPort_def writePort_def setLocks_upd)

lemma lockFree_option [lockFree_intros]:
  "lockFree n \<Longrightarrow> (\<And>x. lockFree (m x)) \<Longrightarrow> lockFree (case_option n m o')"
  "lockFree n \<Longrightarrow> (\<And>x xs. lockFree (g x xs)) \<Longrightarrow> lockFree (case_list n g l)"
  "(\<And>a b. lockFree (h a b)) \<Longrightarrow> lockFree (case_prod h pr)"
  by (auto split: option.splits list.splits prod.splits)

lemma lockFree_createPort [lockFree_intros]: "lockFree (createPort env client n i)"
  by (auto simp: lockFree_def createPort_def onCloud_def getHostName_def setLocks_upd split: prod.splits)

lemma lockFree_findContainer [lockFree_intros]: "lockFree (findContainer i ps)"
  by (induction ps) (auto intro!: lockFree_intros)

lemma lockFree_walkContainer [lockFree_intros]: "lockFree (walkContainer d i)"
  unfolding lockFree_def
proof (intro conjI allI)
  fix f k and w :: "'a sys"
  have F: "lockFree (findContainer i (walkFiles d w) :: ('a, (string \<times> string) option) sysact)"
    by (rule lockFree_findContainer)
  have "walkFiles d (setLocks f k w) = walkFiles d w" by (simp add: walkFiles_def)
  then show "walkContainer d i (setLocks f k w) = map_prod id (setLocks f k) (walkContainer d i w)"
    using F by (simp add: lockFree_def walkContainer_def)
  show "sys_fault (snd (walkContainer d i w)) = sys_fault w"
    using F by (simp add: lockFree_def walkContainer_def)
qed

lemma lockFree_parts1 [lockFree_intros]:
  "lockFree (getNetwork env client nets)" "lockFree (FindPort env client i)" "lockFree (exists p)"
  "lockFree (writeIP d i a)" "lockFree (addFixedIP env client pid sn po)" "lockFree (EniStore_IsOverMax env es)"
  unfolding getNetwork_def FindPort_def exists_def writeIP_def addFixedIP_def EniStore_IsOverMax_def Let_def
  by (intro lockFree_intros)+

lemma lockFree_parts2 [lockFree_intros]:
  "lockFree (removeContainerFile p)" "lockFree (EniStore_findOrCreate env es nw i)"
  "lockFree (allocatePort env rs po)" "lockFree (removePort env rs a)"
  unfolding removeContainerFile_def EniStore_findOrCreate_def allocatePort_def removePort_def Let_def
  by (intro lockFree_intros)+

lemma lockFree_Reserve: "lockFree (Store_Reserve env s i)"
  by (cases s; simp add: SeparateStore_Reserve_def EniStore_Reserve_def MixStore_Reserve_def
    MixRouteStore_Reserve_def; intro lockFree_intros)

lemma lockFree_ReleaseByID: "lockFree (Store_ReleaseByID env s i)"
  by (cases s; simp add: SeparateStore_ReleaseByID_def EniStore_ReleaseByID_def
    MixStore_ReleaseByID_def MixRouteStore_ReleaseByID_def; intro lockFree_intros)

section \<open>The stores fulfil the contract\<close>

definition Store_held :: "Store \<Rightarrow> 'c sys \<Rightarrow> bool" where
  "Store_held s w = onLock (\<lambda>s. ss_lock s < length (sys_mutexes w) \<and> sys_mutexes w ! ss_lock s)
                           (\<lambda>l. fl_path l \<in> set (sys_flocks w)) s"

definition noLocks :: "'c sys \<Rightarrow> 'c sys" where
  "noLocks w = setLocks [] [] w"

definition unlockWorks :: "'c sys \<Rightarrow> bool" where
  "unlockWorks w \<longleftrightarrow> (\<forall>p. sys_fault w (OpFunlock p) = None)"

lemma lockFree_noLocks:
  assumes "lockFree m" and "noLocks w1 = noLocks w2"
  shows "fst (m w1) = fst (m w2) \<and> noLocks (snd (m w1)) = noLocks (snd (m w2))"
proof -
  have *: "fst (m (noLocks w)) = fst (m w) \<and> snd (m (noLocks w)) = noLocks (snd (m w))" for w
    using assms(1) by (cases "m w") (simp add: lockFree_def noLocks_def)
  show ?thesis using *[of w1] *[of w2] assms(2) by metis
qed

lemma lockFree_locks:
  assumes "lockFree m"
  shows "sys_flocks (snd (m w)) = sys_flocks w \<and> sys_mutexes (snd (m w)) = sys_mutexes w"
proof -
  have "m (setLocks (sys_flocks w) (sys_mutexes w) w) = map_prod id (setLocks (sys_flocks w) (sys_mutexes w)) (m w)"
    using assms unfolding lockFree_def by blast
  then have "m w = map_prod id (setLocks (sys_flocks w) (sys_mutexes w)) (m w)" by simp
  then show ?thesis by (metis map_prod_def snd_map_prod setLocks_sel(7,8))
qed

lemma lockFree_held: "lockFree m \<Longrightarrow> Store_held s (snd (m w)) = Store_held s w"
  by (simp add: Store_held_def lockFree_locks)

lemma lockFree_unlockWorks: "lockFree m \<Longrightarrow> unlockWorks (snd (m w)) = unlockWorks w"
  by (simp add: lockFree_def unlockWorks_def)

lemmas lock_op_defs = Store_Lock_def Store_Unlock_def onLock_def SeparateStore_Lock_def SeparateStore_Unlock_def
  FileLock_Lock_def FileLock_Unlock_def mutexLock_def mutexUnlock_def guardFault_def

interpretation st: backend_store "Store_iface env s" "Store_held s" noLocks unlockWorks
  for env :: "'c env" and s
proof
  fix w w' :: "'c sys"
  show "sLock (Store_iface env s) w = (Ok (), w') \<Longrightarrow> Store_held s w'"
    by (auto simp: lock_op_defs Store_held_def split: Store.splits option.splits if_splits)
  show "noLocks (snd (sLock (Store_iface env s) w)) = noLocks w"
    by (auto simp: lock_op_defs noLocks_def setLocks_def split: Store.splits option.splits)
  show "unlockWorks (snd (sLock (Store_iface env s) w)) = unlockWorks w"
    by (auto simp: lock_op_defs unlockWorks_def split: Store.splits option.splits)
  show "Store_held s w \<Longrightarrow> unlockWorks w \<Longrightarrow>
      fst (sUnlock (Store_iface env s) w) = Ok () \<and> \<not> Store_held s (snd (sUnlock (Store_iface env s) w))"
    by (auto simp: lock_op_defs Store_held_def unlockWorks_def split: Store.splits)
  show "noLocks (snd (sUnlock (Store_iface env s) w)) = noLocks w"
    by (auto simp: lock_op_defs noLocks_def setLocks_def split: Store.splits option.splits)
next
  fix w1 w2 :: "'c sys" and i assume *: "noLocks w1 = noLocks w2"
  show "fst (sReserve (Store_iface env s) i w1) = fst (sReserve (Store_iface env s) i w2) \<and>
      noLocks (snd (sReserve (Store_iface env s) i w1)) = noLocks (snd (sReserve (Store_iface env s) i w2))"
    unfolding Store_iface_simps by (rule lockFree_noLocks[OF lockFree_Reserve *])
  show "fst (sReleaseByID (Store_iface env s) i w1) = fst (sReleaseByID (Store_iface env s) i w2) \<and>
      noLocks (snd (sReleaseByID (Store_iface env s) i w1)) = noLocks (snd (sReleaseByID (Store_iface env s) i w2))"
    unfolding Store_iface_simps by (rule lockFree_noLocks[OF lockFree_ReleaseByID *])
qed (simp_all add: lockFree_held lockFree_unlockWorks lockFree_Reserve lockFree_ReleaseByID)

definition reportedIPs :: "'c env \<Rightarrow> ServiceClient \<Rightarrow> string \<Rightarrow> 'c sys \<Rightarrow> nat" where
  "reportedIPs env client pid w =
     (case fst (ports_Get env client pid (sys_cloud w)) of Ok p \<Rightarrow> length (po_FixedIPs p) | _ \<Rightarrow> 0)"

lemma MAX_IPS_pos: "0 < MAX_IPS" by (simp add: MAX_IPS_def)

interpretation mixq: quota_store "Store_iface env (Mix s)" "Store_held (Mix s)" noLocks unlockWorks
    "reportedIPs env (ms_NetworkClient s) (ms_hostPortID s)" MAX_IPS overMaxIPsErr
  for env :: "'c env" and s
proof
  fix w1 w2 w :: "'c sys" and i
  show "reportedIPs env (ms_NetworkClient s) (ms_hostPortID s) w1 = reportedIPs env (ms_NetworkClient s) (ms_hostPortID s) w2"
    if "noLocks w1 = noLocks w2"
    using that by (metis noLocks_def reportedIPs_def setLocks_sel(1))
  show "fst (sReserve (Store_iface env (Mix s)) i w) = Err overMaxIPsErr"
    if "MAX_IPS \<le> reportedIPs env (ms_NetworkClient s) (ms_hostPortID s) w"
    using that MAX_IPS_pos
    by (auto simp: reportedIPs_def MixStore_Reserve_def act_simps IsOverMaxIPs_def split: prod.splits result.splits)
qed

text \<open>The mix-route store asks for the port its pointer names.\<close>

definition routeIPs :: "'c env \<Rightarrow> MixRouteStore \<Rightarrow> 'c sys \<Rightarrow> nat" where
  "routeIPs env s w = (if rs_hostPort s < length (sys_ports w)
     then reportedIPs env (rs_NetworkClient s) (po_ID (sys_ports w ! rs_hostPort s)) w else 0)"

interpretation routeq: quota_store "Store_iface env (MixRoute s)" "Store_held (MixRoute s)" noLocks unlockWorks
    "routeIPs env s" MAX_IPS overMaxIPsErr
  for env :: "'c env" and s
proof
  fix w1 w2 w :: "'c sys" and i
  show "routeIPs env s w1 = routeIPs env s w2" if "noLocks w1 = noLocks w2"
  proof -
    have "sys_cloud w1 = sys_cloud w2" "sys_ports w1 = sys_ports w2"
      using that by (metis noLocks_def setLocks_sel(1), metis noLocks_def setLocks_sel(4))
    then show ?thesis by (simp add: routeIPs_def reportedIPs_def)
  qed
  show "fst (sReserve (Store_iface env (MixRoute s)) i w) = Err overMaxIPsErr" if "MAX_IPS \<le> routeIPs env s w"
    using that MAX_IPS_pos
    by (auto simp: routeIPs_def reportedIPs_def MixRouteStore_Reserve_def readPort_def act_simps IsOverMaxIPs_def
      split: prod.splits result.splits if_splits)
qed

end
