(* ===== verification/MixPool.thy ===== *)
theory MixPool
  imports Allocator
begin

text \<open>
  The mix store as an address pool: what its operations do to the ports neutron holds and to the
  files of the data directory, given the documented behaviour of the port calls
  (\<open>neutron_ports\<close>). A reservation adds exactly one new address to the host port and remembers
  its container in a file; the release takes both away again.
\<close>

section \<open>Paths below an absolute directory\<close>

definition normalPart :: "string \<Rightarrow> bool" where
  "normalPart p \<longleftrightarrow> p \<noteq> [] \<and> p \<noteq> ''.'' \<and> p \<noteq> ''..'' \<and> CHR ''/'' \<notin> set p"

lemma cleanParts_snoc: "normalPart a \<Longrightarrow> cleanParts r acc (ps @ [a]) = cleanParts r acc ps @ [a]"
  by (induction r acc ps rule: cleanParts.induct) (auto simp: normalPart_def)

lemma cleanParts_normal:
  "list_all normalPart acc \<Longrightarrow> \<forall>p \<in> set ps. CHR ''/'' \<notin> set p \<Longrightarrow> list_all normalPart (cleanParts True acc ps)"
proof (induction True acc ps rule: cleanParts.induct)
  case (1 acc)
  then show ?case by (simp add: list_all_iff)
next
  case (2 acc p ps)
  have *: "list_all normalPart (tl acc)" using "2.prems" by (cases acc) auto
  then show ?case using 2 by (auto simp: normalPart_def)
qed

lemma cleanParts_id: "list_all normalPart ps \<Longrightarrow> cleanParts r acc ps = rev acc @ ps"
  by (induction ps arbitrary: acc) (auto simp: normalPart_def)

lemma join_snoc: "join sep (ps @ [a]) = (if ps = [] then a else join sep ps @ sep @ a)"
  by (induction ps) (auto simp: join_Cons)

lemma split_snoc: "CHR ''/'' \<notin> set a \<Longrightarrow> split (CHR ''/'') (d @ ''/'' @ a) = split (CHR ''/'') d @ [a]"
proof (induction d)
  case Nil
  then show ?case by (simp add: split_no_sep)
next
  case (Cons x xs)
  obtain y ys where "split (CHR ''/'') xs = y # ys" by (cases "split (CHR ''/'') xs") auto
  then show ?case using Cons by simp
qed

lemma join_parts_nonempty: "list_all normalPart ps \<Longrightarrow> ps \<noteq> [] \<Longrightarrow> join ''/'' ps \<noteq> []"
  by (cases ps rule: list.exhaust; cases "tl ps") (auto simp: normalPart_def join_Cons)

lemma pathJoin_abs:
  assumes d: "d \<noteq> []" "hd d = CHR ''/''" and a: "normalPart a"
  shows "pathJoin d a = dirPrefix d @ a" "pathClean (pathJoin d a) = pathJoin d a" "pathBase (pathJoin d a) = a"
proof -
  define P where "P = cleanParts True [] (split (CHR ''/'') d)"
  have an: "a \<noteq> []" "CHR ''/'' \<notin> set a" using a by (auto simp: normalPart_def)
  have P: "list_all normalPart P" unfolding P_def
    by (rule cleanParts_normal) (auto dest: split_pieces)
  have cd: "pathClean d = CHR ''/'' # join ''/'' P" using d by (simp add: pathClean_def P_def Let_def)
  have j: "pathJoin d a = CHR ''/'' # join ''/'' (P @ [a])"
    using d an split_snoc[OF an(2), of d] cleanParts_snoc[OF a, of True "[]" "split (CHR ''/'') d"]
    by (simp add: pathJoin_def pathClean_def Let_def P_def)
  show "pathJoin d a = dirPrefix d @ a"
    using j cd join_parts_nonempty[OF P] by (auto simp: join_snoc dirPrefix_def Let_def)
  have Q: "list_all normalPart (P @ [a])" using P a by simp
  have sp: "split (CHR ''/'') (pathJoin d a) = [] # P @ [a]"
  proof -
    have "split (CHR ''/'') (join [CHR ''/''] (P @ [a])) = P @ [a]"
      by (rule split_join) (use Q in \<open>auto simp: list_all_iff normalPart_def\<close>)
    then show ?thesis by (simp add: j)
  qed
  then show "pathBase (pathJoin d a) = a" by (simp add: pathBase_def)
  show "pathClean (pathJoin d a) = pathJoin d a"
    using sp cleanParts_id[OF Q] by (simp add: pathClean_def Let_def j)
qed

section \<open>What the stores rely on neutron for\<close>

text \<open>
  \<open>ip_text\<close>: the text of an address as neutron returns it, in the form \<^verbatim>\<open>net.IP.String\<close> prints.
  \<open>chosen\<close>: what a port holds after an update with the list \<open>fx\<close> of fixed addresses: the entries with
  an address as they are, and for an entry without one an address of its subnet that is not in the list.
  \<open>neutron_ports\<close> is the behaviour of the calls on ports that the API documents, \<open>pt\<close> being
  the ports the service holds: a get reads, an update replaces the fixed addresses or, when it
  fails, changes nothing.
\<close>

definition ip_text :: "string \<Rightarrow> bool" where
  "ip_text a \<longleftrightarrow> ParseIP a \<noteq> [] \<and> ipString (ParseIP a) = a \<and> normalPart a"

definition chosen :: "FixedIP list \<Rightarrow> FixedIP \<Rightarrow> FixedIP \<Rightarrow> bool" where
  "chosen fx f h \<longleftrightarrow> (if fi_IPAddress f \<noteq> [] then h = f
     else fi_SubnetID h = fi_SubnetID f \<and> ip_text (fi_IPAddress h) \<and> fi_IPAddress h \<notin> fi_IPAddress ` set fx)"

definition neutron_ports :: "'c env \<Rightarrow> ServiceClient \<Rightarrow> ('c \<Rightarrow> string \<Rightarrow> Port option) \<Rightarrow> bool" where
  "neutron_ports env client pt \<longleftrightarrow>
     (\<forall>c pid p. pt c pid = Some p \<longrightarrow>
        ports_Get env client pid c = (Ok p, c) \<and> (\<forall>f \<in> set (po_FixedIPs p). fi_IPAddress f \<noteq> [])) \<and>
     (\<forall>c pid p fx. pt c pid = Some p \<longrightarrow>
        (case ports_Update env client pid fx c of
           (Ok q, c') \<Rightarrow> pt c' = (pt c)(pid \<mapsto> q) \<and>
             (\<exists>hs. mset (po_FixedIPs q) = mset hs \<and> list_all2 (chosen fx) fx hs)
         | (Err e, c') \<Rightarrow> pt c' = pt c
         | (Panic, c') \<Rightarrow> False))"

lemma neutron_get:
  "neutron_ports env client pt \<Longrightarrow> pt c pid = Some p \<Longrightarrow>
     ports_Get env client pid c = (Ok p, c) \<and> (\<forall>f \<in> set (po_FixedIPs p). fi_IPAddress f \<noteq> [])"
  by (simp add: neutron_ports_def)

lemma neutron_update:
  assumes "neutron_ports env client pt" and "pt c pid = Some p" and "ports_Update env client pid fx c = (Ok q, c')"
  shows "pt c' = (pt c)(pid \<mapsto> q) \<and> (\<exists>hs. mset (po_FixedIPs q) = mset hs \<and> list_all2 (chosen fx) fx hs)"
  using assms(1)[unfolded neutron_ports_def, THEN conjunct2, rule_format, OF assms(2), of fx] assms(3) by simp

lemma chosen_kept: "\<forall>f \<in> set xs. fi_IPAddress f \<noteq> [] \<Longrightarrow> list_all2 (chosen fx) xs hs \<longleftrightarrow> hs = xs"
  by (induction xs arbitrary: hs) (auto simp: list_all2_Cons1 chosen_def)

lemma update_kept:
  assumes "neutron_ports env client pt" and "pt c pid = Some p" and "ports_Update env client pid fx c = (Ok q, c')"
    and "\<forall>f \<in> set fx. fi_IPAddress f \<noteq> []"
  shows "pt c' = (pt c)(pid \<mapsto> q) \<and> mset (po_FixedIPs q) = mset fx"
  using neutron_update[OF assms(1,2,3)] chosen_kept[OF assms(4)] by auto

text \<open>An update with one more entry: the port holds the old addresses and one new one, and
  \<open>difference\<close> finds it.\<close>

lemma update_added:
  assumes n: "neutron_ports env client pt" and p: "pt c pid = Some p"
    and u: "ports_Update env client pid (po_FixedIPs p @ [\<lparr>fi_SubnetID = sn, fi_IPAddress = []\<rparr>]) c = (Ok q, c')"
  shows "\<exists>h. pt c' = (pt c)(pid \<mapsto> q) \<and> mset (po_FixedIPs q) = add_mset h (mset (po_FixedIPs p)) \<and>
     fi_SubnetID h = sn \<and> ip_text (fi_IPAddress h) \<and> fi_IPAddress h \<notin> fi_IPAddress ` set (po_FixedIPs p) \<and>
     difference (po_FixedIPs p) (po_FixedIPs q) = Some h"
proof -
  let ?o = "po_FixedIPs p" and ?e = "\<lparr>fi_SubnetID = sn, fi_IPAddress = []\<rparr>"
  obtain hs where hs: "pt c' = (pt c)(pid \<mapsto> q)" "mset (po_FixedIPs q) = mset hs"
      "list_all2 (chosen (?o @ [?e])) (?o @ [?e]) hs"
    using neutron_update[OF n p u] by auto
  obtain xs h where "hs = xs @ [h]" "list_all2 (chosen (?o @ [?e])) ?o xs" and c: "chosen (?o @ [?e]) ?e h"
    using hs(3) by (auto simp: list_all2_append1 list_all2_Cons1)
  then have hs': "hs = ?o @ [h]" using chosen_kept neutron_get[OF n p] by blast
  have h: "fi_SubnetID h = sn" "ip_text (fi_IPAddress h)" "fi_IPAddress h \<notin> fi_IPAddress ` set ?o"
    using c by (auto simp: chosen_def)
  have m: "mset (po_FixedIPs q) = add_mset h (mset ?o)" using hs(2) hs' by simp
  have s: "set (po_FixedIPs q) = insert h (set ?o)" using m by (metis set_mset_add_mset_insert set_mset_mset)
  have l: "length (po_FixedIPs q) = Suc (length ?o)" using m by (metis size_add_mset size_mset)
  let ?new = "\<lambda>g. \<not> list_ex (\<lambda>x. fi_IPAddress g = fi_IPAddress x \<and> fi_SubnetID g = fi_SubnetID x) ?o"
  have nh: "?new g \<longleftrightarrow> g = h" if "g \<in> set (po_FixedIPs q)" for g
    using that s h(3) by (force simp: list_ex_iff)
  have "\<exists>g. List.find ?new (po_FixedIPs q) = Some g"
    using s nh by (auto simp: find_None_iff simp flip: not_None_eq)
  then have "List.find ?new (po_FixedIPs q) = Some h"
    using nh by (auto dest: find_Some_hit)
  then show ?thesis using hs(1) m h l by (auto simp: difference_def)
qed

section \<open>The files of the mix store\<close>

definition files_wf :: "'c sys \<Rightarrow> bool" where
  "files_wf w \<longleftrightarrow> distinct (map fst (sys_files w)) \<and> (\<forall>p \<in> set (map fst (sys_files w)). pathClean p = p)"

definition no_faults :: "'c sys \<Rightarrow> bool" where
  "no_faults w \<longleftrightarrow> sys_fault w = (\<lambda>_. None)"

text \<open>The files below \<open>d\<close> that hold the id of a container.\<close>

definition filesOf :: "string \<Rightarrow> string \<Rightarrow> 'c sys \<Rightarrow> string set" where
  "filesOf d cid w = {p. \<exists>t. (p, t) \<in> set (sys_files w) \<and> hasPrefix p (dirPrefix d) \<and> trimSpace t = trimSpace cid}"

lemma set_walkFiles: "set (walkFiles d w) = {p \<in> fst ` set (sys_files w). hasPrefix p (dirPrefix d)}"
  by (auto simp: walkFiles_def)

lemma osReadFile_known:
  assumes "files_wf w" and "no_faults w" and "(p, t) \<in> set (sys_files w)"
  shows "osReadFile p w = (Ok t, w)"
proof -
  have "pathClean p = p" using assms(1,3) by (force simp: files_wf_def)
  moreover have "map_of (sys_files w) p = Some t" using assms(1,3) by (simp add: files_wf_def)
  ultimately show ?thesis using assms(2) by (simp add: osReadFile_def guardFault_def no_faults_def)
qed

lemma findContainer_hit:
  assumes w: "files_wf w" "no_faults w" and ps: "set ps \<subseteq> fst ` set (sys_files w)"
    and q: "(q, t) \<in> set (sys_files w)" "trimSpace t = trimSpace cid" "q \<in> set ps"
    and u: "\<And>p t. p \<in> set ps \<Longrightarrow> (p, t) \<in> set (sys_files w) \<Longrightarrow> trimSpace t = trimSpace cid \<Longrightarrow> p = q"
  shows "findContainer cid ps w = (Ok (Some (pathBase q, q)), w)"
  using ps q(3) u
proof (induction ps)
  case Nil
  then show ?case by simp
next
  case (Cons p ps)
  then obtain s where s: "(p, s) \<in> set (sys_files w)" by auto
  show ?case
  proof (cases "trimSpace s = trimSpace cid")
    case True
    then have "p = q" using Cons.prems(3)[of p s] s by simp
    then show ?thesis using osReadFile_known[OF w s] True by (simp add: act_simps)
  next
    case False
    then have "p \<noteq> q" using s q w(1) by (metis eq_key_imp_eq_value files_wf_def)
    have "findContainer cid ps w = (Ok (Some (pathBase q, q)), w)"
    proof (rule Cons.IH)
      show "set ps \<subseteq> fst ` set (sys_files w)" "q \<in> set ps" using Cons.prems(1,2) \<open>p \<noteq> q\<close> by auto
      show "\<And>p t. p \<in> set ps \<Longrightarrow> (p, t) \<in> set (sys_files w) \<Longrightarrow> trimSpace t = trimSpace cid \<Longrightarrow> p = q"
        using Cons.prems(3) by (meson list.set_intros(2))
    qed
    then show ?thesis using osReadFile_known[OF w s] False by (simp add: act_simps)
  qed
qed

lemma findContainer_miss:
  assumes w: "files_wf w" "no_faults w" and ps: "set ps \<subseteq> fst ` set (sys_files w)"
    and u: "\<And>p t. p \<in> set ps \<Longrightarrow> (p, t) \<in> set (sys_files w) \<Longrightarrow> trimSpace t \<noteq> trimSpace cid"
  shows "findContainer cid ps w = (Ok None, w)"
  using ps u
proof (induction ps)
  case Nil
  then show ?case by (simp add: act_simps)
next
  case (Cons p ps)
  then obtain s where s: "(p, s) \<in> set (sys_files w)" by auto
  have "findContainer cid ps w = (Ok None, w)"
    by (rule Cons.IH) (use Cons.prems in \<open>auto\<close>)
  then show ?case using osReadFile_known[OF w s] Cons.prems(2)[of p s] s by (simp add: act_simps)
qed

text \<open>The walk finds a container's file exactly when there is one.\<close>

lemma walkContainer_unique:
  assumes "files_wf w" and "no_faults w" and "filesOf d cid w = {q}"
  shows "walkContainer d cid w = (Ok (Some (pathBase q, q)), w)"
proof -
  obtain t where t: "(q, t) \<in> set (sys_files w)" "trimSpace t = trimSpace cid" "hasPrefix q (dirPrefix d)"
    using assms(3) by (auto simp: filesOf_def)
  show ?thesis unfolding walkContainer_def
  proof (rule findContainer_hit[OF assms(1,2) _ t(1,2)])
    show "set (walkFiles d w) \<subseteq> fst ` set (sys_files w)" by (auto simp: set_walkFiles)
    show "q \<in> set (walkFiles d w)" using t by (force simp: set_walkFiles)
    fix p s assume "p \<in> set (walkFiles d w)" "(p, s) \<in> set (sys_files w)" "trimSpace s = trimSpace cid"
    then have "p \<in> filesOf d cid w" by (auto simp: filesOf_def set_walkFiles)
    then show "p = q" using assms(3) by simp
  qed
qed

lemma walkContainer_none:
  assumes "files_wf w" and "no_faults w" and "filesOf d cid w = {}"
  shows "walkContainer d cid w = (Ok None, w)"
  unfolding walkContainer_def
proof (rule findContainer_miss[OF assms(1,2)])
  show "set (walkFiles d w) \<subseteq> fst ` set (sys_files w)" by (auto simp: set_walkFiles)
  fix p t assume "p \<in> set (walkFiles d w)" "(p, t) \<in> set (sys_files w)"
  then show "trimSpace t \<noteq> trimSpace cid" using assms(3) by (auto simp: filesOf_def set_walkFiles)
qed

text \<open>Writing the file of a new address, when it succeeds.\<close>

lemma writeIP_Ok:
  assumes "writeIP d cid a w = (Ok (), w')"
  shows "map_of (sys_files w) (pathClean (pathJoin d a)) = None \<and>
     w' = w\<lparr>sys_files := (pathClean (pathJoin d a), trimSpace cid) # sys_files w\<rparr>"
  using assms
  by (auto simp: writeIP_def Let_def GetEscapedPath_def osOpenExcl_def osWriteString_def osClose_def osRemove_def guardFault_def act_simps
    split: option.splits if_splits result.splits prod.splits)

lemma removeContainerFile_known:
  assumes "files_wf w" and "no_faults w" and "(q, t) \<in> set (sys_files w)"
  shows "removeContainerFile q w = (Ok (), w\<lparr>sys_files := AList.delete q (sys_files w)\<rparr>)"
proof -
  have c: "pathClean q = q" using assms(1,3) by (force simp: files_wf_def)
  have m: "map_of (sys_files w) q = Some t" using assms(1,3) by (simp add: files_wf_def)
  show ?thesis using c m assms(2)
    by (simp add: removeContainerFile_def exists_def osStat_def osRemove_def guardFault_def no_faults_def act_simps)
qed

section \<open>Reserving and releasing on the mix store\<close>

lemma MixStore_Reserve_effect:
  assumes n: "neutron_ports env (ms_NetworkClient s) pt" and p: "pt (sys_cloud w) (ms_hostPortID s) = Some p"
    and r: "MixStore_Reserve env s cid w = (Ok r, w')"
  obtains h q c where
    "length (po_FixedIPs p) < MAX_IPS" "ip_text (fi_IPAddress h)" "fi_IPAddress h \<notin> fi_IPAddress ` set (po_FixedIPs p)"
    "mset (po_FixedIPs q) = add_mset h (mset (po_FixedIPs p))" "pt c = (pt (sys_cloud w))(ms_hostPortID s \<mapsto> q)"
    "toReservation (ms_subnet s) h = Ok r" "fi_SubnetID h = su_ID (ms_subnet s)"
    "writeIP (ms_dataDir s) cid (fi_IPAddress h) (w\<lparr>sys_cloud := c\<rparr>) = (Ok (), w')"
proof -
  let ?fx = "po_FixedIPs p @ [\<lparr>fi_SubnetID = su_ID (ms_subnet s), fi_IPAddress = []\<rparr>]"
  have g: "ports_Get env (ms_NetworkClient s) (ms_hostPortID s) (sys_cloud w) = (Ok p, sys_cloud w)"
    using neutron_get[OF n p] by simp
  obtain u c where u: "ports_Update env (ms_NetworkClient s) (ms_hostPortID s) ?fx (sys_cloud w) = (u, c)"
    by (cases "ports_Update env (ms_NetworkClient s) (ms_hostPortID s) ?fx (sys_cloud w)")
  have o: "\<not> IsOverMaxIPs p" using r g by (auto simp: MixStore_Reserve_def act_simps)
  obtain q where q: "u = Ok q"
    using r g o u by (cases u) (auto simp: MixStore_Reserve_def addFixedIP_def Let_def act_simps)
  obtain h where h: "pt c = (pt (sys_cloud w))(ms_hostPortID s \<mapsto> q)"
      "mset (po_FixedIPs q) = add_mset h (mset (po_FixedIPs p))" "fi_SubnetID h = su_ID (ms_subnet s)"
      "ip_text (fi_IPAddress h)" "fi_IPAddress h \<notin> fi_IPAddress ` set (po_FixedIPs p)"
      "difference (po_FixedIPs p) (po_FixedIPs q) = Some h"
    using update_added[OF n p u[unfolded q]] by blast
  have r1: "abind (alift (toReservation (ms_subnet s) h)) (\<lambda>r.
      abind (writeIP (ms_dataDir s) cid (ipString (IPNet_IP (fst r)))) (\<lambda>_. aret r)) (w\<lparr>sys_cloud := c\<rparr>) = (Ok r, w')"
    using r g o u q h(6) by (simp add: MixStore_Reserve_def addFixedIP_def Let_def act_simps)
  then obtain t: "toReservation (ms_subnet s) h = Ok r"
    and wr: "writeIP (ms_dataDir s) cid (ipString (IPNet_IP (fst r))) (w\<lparr>sys_cloud := c\<rparr>) = (Ok (), w')"
    by (auto simp: abind_eq_Ok alift_def aret_def)
  have "ipString (IPNet_IP (fst r)) = fi_IPAddress h"
    using t h(4) by (auto simp: toReservation_def rbind_eq_Ok ip_text_def)
  then show ?thesis using that o h t wr by (auto simp: IsOverMaxIPs_def)
qed


text \<open>The release of a container whose one file names an address of the host port.\<close>

lemma MixStore_Release_effect:
  assumes n: "neutron_ports env (ms_NetworkClient s) pt" and p: "pt (sys_cloud w) (ms_hostPortID s) = Some p"
    and w: "files_wf w" "no_faults w" and f: "filesOf (ms_dataDir s) cid w = {q}" "(q, t) \<in> set (sys_files w)"
    and a: "pathBase q = fi_IPAddress h" "mset (po_FixedIPs p) = add_mset h (mset old)"
      "fi_IPAddress h \<notin> fi_IPAddress ` set old" "fi_IPAddress h \<noteq> []"
  shows "case MixStore_ReleaseByID env s cid w of
      (Ok _, w') \<Rightarrow> sys_files w' = AList.delete q (sys_files w) \<and>
        (\<exists>p'. pt (sys_cloud w') = (pt (sys_cloud w))(ms_hostPortID s \<mapsto> p') \<and> mset (po_FixedIPs p') = mset old)
    | (Err _, w') \<Rightarrow> sys_files w' = sys_files w \<and> pt (sys_cloud w') = pt (sys_cloud w)
    | (Panic, w') \<Rightarrow> False"
proof -
  let ?cl = "ms_NetworkClient s" and ?pid = "ms_hostPortID s"
  have g: "ports_Get env ?cl ?pid (sys_cloud w) = (Ok p, sys_cloud w)" using neutron_get[OF n p] by simp
  have st: "set (po_FixedIPs p) = insert h (set old)" using a(2) by (metis set_mset_add_mset_insert set_mset_mset)
  obtain i where i: "findIndex (po_FixedIPs p) (fi_IPAddress h) = Some i"
    using st by (cases "findIndex (po_FixedIPs p) (fi_IPAddress h)") (auto simp: findIndex_def findIdx_None)
  have ib: "i < length (po_FixedIPs p)" "fi_IPAddress (po_FixedIPs p ! i) = fi_IPAddress h"
    using findIdx_Some[OF i[unfolded findIndex_def]] by auto
  have "po_FixedIPs p ! i = h" using st ib a(3) by (metis imageI insertE nth_mem)
  then have m: "mset (removeAt i (po_FixedIPs p)) = mset old" using mset_removeAt[OF ib(1)] a(2) by simp
  have k: "\<forall>x \<in> set (removeAt i (po_FixedIPs p)). fi_IPAddress x \<noteq> []"
    using neutron_get[OF n p] set_removeAt_subset[of i "po_FixedIPs p"] by blast
  obtain u c where u: "ports_Update env ?cl ?pid (removeAt i (po_FixedIPs p)) (sys_cloud w) = (u, c)"
    by (cases "ports_Update env ?cl ?pid (removeAt i (po_FixedIPs p)) (sys_cloud w)")
  have U: "case u of Ok q \<Rightarrow> pt c = (pt (sys_cloud w))(?pid \<mapsto> q) \<and> mset (po_FixedIPs q) = mset old
      | Err _ \<Rightarrow> pt c = pt (sys_cloud w) | Panic \<Rightarrow> False"
    using n[unfolded neutron_ports_def, THEN conjunct2, rule_format, OF p, of "removeAt i (po_FixedIPs p)"]
      update_kept[OF n p _ k] u m by (cases u) auto
  have w1: "files_wf (w\<lparr>sys_cloud := c\<rparr>)" "no_faults (w\<lparr>sys_cloud := c\<rparr>)" "(q, t) \<in> set (sys_files (w\<lparr>sys_cloud := c\<rparr>))"
    using w f(2) by (simp_all add: files_wf_def no_faults_def)
  show ?thesis
    using walkContainer_unique[OF w f(1)] g i u U a(1,4) removeContainerFile_known[OF w1]
    by (cases u) (auto simp: MixStore_ReleaseByID_def act_simps)
qed

lemma Mix_release_after_reserve:
  assumes n: "neutron_ports env (ms_NetworkClient s) pt" and p: "pt (sys_cloud w) (ms_hostPortID s) = Some p"
    and d: "ms_dataDir s \<noteq> []" "hd (ms_dataDir s) = CHR ''/''"
    and w: "files_wf w" "no_faults w" and f: "filesOf (ms_dataDir s) cid w = {}"
    and r: "MixStore_Reserve env s cid w = (Ok r, w1)"
  shows "case MixStore_ReleaseByID env s cid w1 of
      (Ok _, w2) \<Rightarrow> sys_files w2 = sys_files w \<and>
        (\<exists>p'. pt (sys_cloud w2) = (pt (sys_cloud w))(ms_hostPortID s \<mapsto> p') \<and> mset (po_FixedIPs p') = mset (po_FixedIPs p))
    | (Err _, w2) \<Rightarrow> sys_files w2 = sys_files w1 \<and> pt (sys_cloud w2) = pt (sys_cloud w1)
    | (Panic, w2) \<Rightarrow> False"
proof -
  obtain h q c where h: "ip_text (fi_IPAddress h)" "fi_IPAddress h \<notin> fi_IPAddress ` set (po_FixedIPs p)"
    "mset (po_FixedIPs q) = add_mset h (mset (po_FixedIPs p))" "pt c = (pt (sys_cloud w))(ms_hostPortID s \<mapsto> q)"
    and wr: "writeIP (ms_dataDir s) cid (fi_IPAddress h) (w\<lparr>sys_cloud := c\<rparr>) = (Ok (), w1)"
    using MixStore_Reserve_effect[OF n p r] by metis
  define path where "path = pathJoin (ms_dataDir s) (fi_IPAddress h)"
  have np: "normalPart (fi_IPAddress h)" using h(1) by (simp add: ip_text_def)
  note P = pathJoin_abs[OF d np, folded path_def]
  have m: "map_of (sys_files w) path = None" and w1: "w1 = w\<lparr>sys_cloud := c, sys_files := (path, trimSpace cid) # sys_files w\<rparr>"
    using writeIP_Ok[OF wr] P(2) by (simp_all add: path_def)
  have fresh: "path \<notin> fst ` set (sys_files w)" using m by (simp add: map_of_eq_None_iff)
  have wf1: "files_wf w1" "no_faults w1" using w fresh P(2) by (auto simp: files_wf_def no_faults_def w1)
  have f1: "filesOf (ms_dataDir s) cid w1 = {path}"
    using f P(1) by (auto simp: filesOf_def w1)
  have del: "AList.delete path (sys_files w1) = sys_files w"
    using fresh by (simp add: w1 delete_notin_dom)
  have pw1: "pt (sys_cloud w1) (ms_hostPortID s) = Some q" using h(4) by (simp add: w1)
  have ne: "fi_IPAddress h \<noteq> []" using np by (simp add: normalPart_def)
  have mem: "(path, trimSpace cid) \<in> set (sys_files w1)" by (simp add: w1)
  have pt1: "(pt (sys_cloud w1))(ms_hostPortID s \<mapsto> p') = (pt (sys_cloud w))(ms_hostPortID s \<mapsto> p')" for p'
    using h(4) by (simp add: w1)
  from MixStore_Release_effect[OF n pw1 wf1 f1 mem P(3) h(3,2) ne]
  show ?thesis unfolding del pt1 .
qed

end
