(* ===== verification/StoreProps.thy ===== *)
theory StoreProps
  imports MixPool
begin

text \<open>
  The properties of the neutron stores, the allocator, the configuration and the password
  encryption, with the small cloud (\<open>demo_env\<close>) their witnesses run on.
\<close>

section \<open>A small cloud\<close>

text \<open>
  An OpenStack service with one network client, enough to run the stores on: ports by id, a pool
  of three new addresses, one subnet, one server with its attached interfaces, one router.
\<close>

record democloud =
  dc_ports :: "(string \<times> Port) list"
  dc_atts :: "string list"
  dc_routes :: "(string \<times> string) list"

definition demo_pool :: "string list" where
  "demo_pool = [''10.0.0.10'', ''10.0.0.11'', ''10.0.0.12'']"

definition demo_choose :: "FixedIP list \<Rightarrow> FixedIP \<Rightarrow> FixedIP result" where
  "demo_choose fx f = (if fi_IPAddress f \<noteq> [] then Ok f
     else case List.find (\<lambda>a. a \<notin> set (map fi_IPAddress fx)) demo_pool of
            None \<Rightarrow> Err ''No more IP addresses available'' | Some a \<Rightarrow> Ok (f\<lparr>fi_IPAddress := a\<rparr>))"

definition demo_Update :: "string \<Rightarrow> FixedIP list \<Rightarrow> (democloud, Port) act" where
  "demo_Update pid fx c = (case map_of (dc_ports c) pid of
      None \<Rightarrow> (Err ''Port could not be found'', c)
    | Some p \<Rightarrow> (case rmap (demo_choose fx) fx of
          Ok gx \<Rightarrow> (Ok (p\<lparr>po_FixedIPs := gx\<rparr>), c\<lparr>dc_ports := AList.update pid (p\<lparr>po_FixedIPs := gx\<rparr>) (dc_ports c)\<rparr>)
        | Err e \<Rightarrow> (Err e, c) | Panic \<Rightarrow> (Err [], c)))"

definition demo_Create :: "CreateOpts \<Rightarrow> (democloud, Port) act" where
  "demo_Create opts c = (let p = \<lparr>po_ID = ''id-'' @ co_Name opts, po_Name = co_Name opts,
       po_FixedIPs = [\<lparr>fi_SubnetID = ''s'', fi_IPAddress = ''10.0.0.99''\<rparr>], po_MACAddress = ''fa:16:3e:00:00:99''\<rparr>
     in (Ok p, c\<lparr>dc_ports := (po_ID p, p) # dc_ports c\<rparr>))"

definition demo_get :: "string \<Rightarrow> (democloud, Port) act" where
  "demo_get pid c = (case map_of (dc_ports c) pid of None \<Rightarrow> (Err ''Port could not be found'', c) | Some p \<Rightarrow> (Ok p, c))"

definition demo_list :: "(Port \<Rightarrow> bool) \<Rightarrow> (democloud, Port pages) act" where
  "demo_list P c = (Ok (Ok (filter P (map snd (dc_ports c)))), c)"

definition demo_subnet :: Subnet where
  "demo_subnet = \<lparr>su_ID = ''s'', su_CIDR = ''10.0.0.0/24'', su_GatewayIP = ''10.0.0.1''\<rparr>"

definition demo_network :: Network where
  "demo_network = \<lparr>nw_ID = ''n'', nw_Subnets = [''s'']\<rparr>"

definition demo_hostPort :: Port where
  "demo_hostPort = \<lparr>po_ID = ''p'', po_Name = ''host'', po_FixedIPs = [\<lparr>fi_SubnetID = ''s'', fi_IPAddress = ''10.0.0.5''\<rparr>], po_MACAddress = ''fa:16:3e:00:00:05''\<rparr>"

definition demo_env :: "democloud env" where
  "demo_env = \<lparr>AuthenticatedClient = (\<lambda>_. aret 0), NewNetworkV2 = (\<lambda>_. aret 0), NewComputeV2 = (\<lambda>_. aret 1),
     networks_Get = (\<lambda>_ _. aret demo_network), subnets_Get = (\<lambda>_ _. aret demo_subnet),
     ports_ListName = (\<lambda>_ n k. demo_list (\<lambda>p. po_Name p = n)),
     ports_ListIP = (\<lambda>_ a. demo_list (\<lambda>p. list_ex (\<lambda>f. fi_IPAddress f = a) (po_FixedIPs p))),
     ports_ListDevice = (\<lambda>_ d. aret (Ok [demo_hostPort\<lparr>po_FixedIPs := [\<lparr>fi_SubnetID = ''s'', fi_IPAddress = ''10.0.0.1''\<rparr>]\<rparr>])),
     ports_Get = (\<lambda>_. demo_get), ports_Create = (\<lambda>_. demo_Create), ports_Update = (\<lambda>_. demo_Update),
     ports_Delete = (\<lambda>_ pid c. (Ok (), c\<lparr>dc_ports := AList.delete pid (dc_ports c)\<rparr>)),
     attach_List = (\<lambda>_ _ c. (Ok (Ok (dc_atts c)), c)),
     attach_Create = (\<lambda>_ _ pid c. (Ok (), c\<lparr>dc_atts := pid # dc_atts c\<rparr>)),
     servers_List = (\<lambda>_. aret (Ok [\<lparr>sv_ID = ''vm'', sv_Addresses = [(''net'', ''10.0.0.5'')]\<rparr>])),
     routers_List = (\<lambda>_. aret (Ok [''r''])), routers_Update = (\<lambda>_ _ rs c. (Ok (), c\<lparr>dc_routes := rs\<rparr>)),
     LinkByName = (\<lambda>_. Ok 2), LinkByIndex = (\<lambda>_. Ok ''eth0''), AddrList = (\<lambda>_. Ok [[10, 0, 0, 5]]),
     RouteList = [\<lparr>rt_HasDst = False, rt_LinkIndex = 2\<rparr>], showLink = (\<lambda>_. ''eth0''), aesBlock = (\<lambda>_. replicate 16 0)\<rparr>"

definition demo_sys :: "democloud sys" where
  "demo_sys = \<lparr>sys_cloud = \<lparr>dc_ports = [(''p'', demo_hostPort)], dc_atts = [''p''], dc_routes = []\<rparr>, sys_files = [], sys_dirs = [''/d''],
     sys_flocks = [], sys_mutexes = [False], sys_ports = [demo_hostPort], sys_hostname = Some ''node1'', sys_fault = (\<lambda>_. None)\<rparr>"

definition demo_mix :: MixStore where
  "demo_mix = \<lparr>ms_FileLock = \<lparr>fl_path = ''/d/lock''\<rparr>, ms_NetworkClient = 0, ms_hostPortID = ''p'', ms_subnet = demo_subnet,
     ms_network = demo_network, ms_dataDir = ''/d''\<rparr>"

text \<open>The ports the small cloud holds, and that it behaves as \<open>neutron_ports\<close> says.\<close>

definition demo_pt :: "democloud \<Rightarrow> string \<Rightarrow> Port option" where
  "demo_pt c pid = (case map_of (dc_ports c) pid of
      Some p \<Rightarrow> if list_all (\<lambda>f. fi_IPAddress f \<noteq> []) (po_FixedIPs p) then Some p else None | None \<Rightarrow> None)"

lemma ip_text_demo: "list_all ip_text demo_pool"
  by code_simp

lemma demo_choose_chosen: "demo_choose fx f = Ok h \<Longrightarrow> chosen fx f h \<and> fi_IPAddress h \<noteq> []"
proof (cases "fi_IPAddress f = []")
  case True
  assume "demo_choose fx f = Ok h"
  with True obtain a where a: "List.find (\<lambda>a. a \<notin> set (map fi_IPAddress fx)) demo_pool = Some a" "h = f\<lparr>fi_IPAddress := a\<rparr>"
    by (auto simp: demo_choose_def split: option.splits)
  then have "a \<in> set demo_pool" "a \<notin> fi_IPAddress ` set fx" by (auto simp: find_Some_iff)
  moreover from this have "ip_text a" using ip_text_demo by (auto simp: list_all_iff)
  ultimately show ?thesis using a True by (auto simp: chosen_def ip_text_def normalPart_def)
qed (simp add: demo_choose_def chosen_def)

lemma demo_neutron: "neutron_ports demo_env k demo_pt"
  unfolding neutron_ports_def
proof (intro conjI allI impI)
  fix c pid p assume "demo_pt c pid = Some p"
  then have "map_of (dc_ports c) pid = Some p \<and> list_all (\<lambda>f. fi_IPAddress f \<noteq> []) (po_FixedIPs p)"
    by (auto simp: demo_pt_def split: option.splits if_splits)
  then show "ports_Get demo_env k pid c = (Ok p, c)" "\<forall>f \<in> set (po_FixedIPs p). fi_IPAddress f \<noteq> []"
    by (auto simp: demo_env_def demo_get_def list_all_iff)
next
  fix c pid p fx assume "demo_pt c pid = Some p"
  then have m: "map_of (dc_ports c) pid = Some p" by (auto simp: demo_pt_def split: option.splits if_splits)
  show "case ports_Update demo_env k pid fx c of
       (Ok q, c') \<Rightarrow> demo_pt c' = (demo_pt c)(pid \<mapsto> q) \<and>
           (\<exists>hs. mset (po_FixedIPs q) = mset hs \<and> list_all2 (chosen fx) fx hs)
     | (Err e, c') \<Rightarrow> demo_pt c' = demo_pt c | (Panic, c') \<Rightarrow> False"
  proof (cases "rmap (demo_choose fx) fx")
    case (Ok gx)
    then have l: "list_all2 (\<lambda>f h. demo_choose fx f = Ok h) fx gx" by (simp add: rmap_Ok_iff)
    have ch: "list_all2 (chosen fx) fx gx" by (rule list_all2_mono[OF l]) (simp add: demo_choose_chosen)
    have "list_all2 (\<lambda>_ h. fi_IPAddress h \<noteq> []) fx gx" by (rule list_all2_mono[OF l]) (simp add: demo_choose_chosen)
    then have "list_all (\<lambda>h. fi_IPAddress h \<noteq> []) gx" by (auto simp: list_all2_conv_all_nth list_all_length)
    then show ?thesis using Ok m ch
      by (auto simp: demo_env_def demo_Update_def demo_pt_def fun_eq_iff update_conv')
  qed (simp_all add: demo_env_def demo_Update_def m)
qed

section \<open>Properties of the stores\<close>

text \<open>C2. Releasing a container undoes its reservation on the mix store: when a reservation for a container
  without a file succeeded, a release that neutron lets through gives back exactly the files and the
  fixed addresses from before; when neutron refuses the update, nothing is lost, and the
  release never panics.\<close>

theorem mix_release_undoes_reserve:
  assumes "neutron_ports env (ms_NetworkClient s) pt" and "pt (sys_cloud w) (ms_hostPortID s) = Some p"
    and "ms_dataDir s \<noteq> []" and "hd (ms_dataDir s) = CHR ''/''"
    and "files_wf w" and "no_faults w" and "filesOf (ms_dataDir s) cid w = {}"
    and "MixStore_Reserve env s cid w = (Ok r, w1)"
  shows "case MixStore_ReleaseByID env s cid w1 of
      (Ok _, w2) \<Rightarrow> sys_files w2 = sys_files w \<and>
        (\<exists>p'. pt (sys_cloud w2) = (pt (sys_cloud w))(ms_hostPortID s \<mapsto> p') \<and> mset (po_FixedIPs p') = mset (po_FixedIPs p))
    | (Err _, w2) \<Rightarrow> sys_files w2 = sys_files w1 \<and> pt (sys_cloud w2) = pt (sys_cloud w1)
    | (Panic, w2) \<Rightarrow> False"
  by (rule Mix_release_after_reserve[OF assms])

lemma demo_mix_reserve_ok: "is_Ok (fst (MixStore_Reserve demo_env demo_mix ''c1'' demo_sys))"
  by code_simp

lemma demo_host_port: "demo_pt (sys_cloud demo_sys) (ms_hostPortID demo_mix) = Some demo_hostPort"
  by code_simp

lemma demo_sys_wf: "files_wf demo_sys" "no_faults demo_sys" "filesOf d cid demo_sys = {}"
  by (simp_all add: files_wf_def no_faults_def demo_sys_def filesOf_def)

lemma demo_mix_dir: "ms_dataDir demo_mix \<noteq> []" "hd (ms_dataDir demo_mix) = CHR ''/''"
  by (simp_all add: demo_mix_def)

theorem mix_release_undoes_reserve_witness:
  "\<exists>r w1. MixStore_Reserve demo_env demo_mix ''c1'' demo_sys = (Ok r, w1) \<and>
    (case MixStore_ReleaseByID demo_env demo_mix ''c1'' w1 of
      (Ok _, w2) \<Rightarrow> sys_files w2 = sys_files demo_sys \<and>
        (\<exists>p'. demo_pt (sys_cloud w2) = (demo_pt (sys_cloud demo_sys))(ms_hostPortID demo_mix \<mapsto> p') \<and>
              mset (po_FixedIPs p') = mset (po_FixedIPs demo_hostPort))
    | (Err _, w2) \<Rightarrow> sys_files w2 = sys_files w1 \<and> demo_pt (sys_cloud w2) = demo_pt (sys_cloud w1)
    | (Panic, w2) \<Rightarrow> False)"
proof -
  obtain r w1 where r: "MixStore_Reserve demo_env demo_mix ''c1'' demo_sys = (Ok r, w1)"
    using demo_mix_reserve_ok by (cases "MixStore_Reserve demo_env demo_mix ''c1'' demo_sys") (auto simp: is_Ok_iff)
  show ?thesis
    by (intro exI conjI, rule r, rule mix_release_undoes_reserve[OF demo_neutron demo_host_port demo_mix_dir demo_sys_wf r])
qed


text \<open>C7. A reservation of the mix store that succeeds puts exactly one new address on the host port, of the
  store's subnet and different from all addresses the port had, keeps the port within \<^verbatim>\<open>MAX_IPS\<close>, hands
  out that address and remembers the container under it in a file that did not exist.\<close>

theorem mix_reserve_takes_one_new_address:
  assumes "neutron_ports env (ms_NetworkClient s) pt" and "pt (sys_cloud w) (ms_hostPortID s) = Some p"
    and "MixStore_Reserve env s cid w = (Ok r, w')"
  shows "\<exists>h q. pt (sys_cloud w') = (pt (sys_cloud w))(ms_hostPortID s \<mapsto> q) \<and>
     mset (po_FixedIPs q) = add_mset h (mset (po_FixedIPs p)) \<and> length (po_FixedIPs q) \<le> MAX_IPS \<and>
     fi_SubnetID h = su_ID (ms_subnet s) \<and> fi_IPAddress h \<notin> fi_IPAddress ` set (po_FixedIPs p) \<and>
     IPNet_IP (fst r) = ParseIP (fi_IPAddress h) \<and>
     (let path = pathClean (pathJoin (ms_dataDir s) (fi_IPAddress h))
      in map_of (sys_files w) path = None \<and> sys_files w' = (path, trimSpace cid) # sys_files w)"
proof -
  obtain h q c where h: "length (po_FixedIPs p) < MAX_IPS" "fi_IPAddress h \<notin> fi_IPAddress ` set (po_FixedIPs p)"
    "mset (po_FixedIPs q) = add_mset h (mset (po_FixedIPs p))" "pt c = (pt (sys_cloud w))(ms_hostPortID s \<mapsto> q)"
    "toReservation (ms_subnet s) h = Ok r" "fi_SubnetID h = su_ID (ms_subnet s)"
    and wr: "writeIP (ms_dataDir s) cid (fi_IPAddress h) (w\<lparr>sys_cloud := c\<rparr>) = (Ok (), w')"
    using MixStore_Reserve_effect[OF assms] by metis
  have "length (po_FixedIPs q) = Suc (length (po_FixedIPs p))" using h(3) by (metis size_add_mset size_mset)
  moreover have "IPNet_IP (fst r) = ParseIP (fi_IPAddress h)"
    using h(5) by (auto simp: toReservation_def rbind_eq_Ok)
  ultimately show ?thesis using h writeIP_Ok[OF wr] by (intro exI[of _ h] exI[of _ q]) (simp add: Let_def)
qed

theorem mix_reserve_takes_one_new_address_witness:
  "\<exists>h q. demo_pt (sys_cloud (snd (MixStore_Reserve demo_env demo_mix ''c1'' demo_sys))) =
       (demo_pt (sys_cloud demo_sys))(ms_hostPortID demo_mix \<mapsto> q) \<and>
     mset (po_FixedIPs q) = add_mset h (mset (po_FixedIPs demo_hostPort)) \<and> length (po_FixedIPs q) \<le> MAX_IPS"
proof -
  obtain r w1 where r: "MixStore_Reserve demo_env demo_mix ''c1'' demo_sys = (Ok r, w1)"
    using demo_mix_reserve_ok by (cases "MixStore_Reserve demo_env demo_mix ''c1'' demo_sys") (auto simp: is_Ok_iff)
  show ?thesis
    using mix_reserve_takes_one_new_address[OF demo_neutron demo_host_port r] unfolding r snd_conv by blast
qed

text \<open>The elastic-interface store refuses a container without a port once the instance has
  \<^verbatim>\<open>MAX_ENIS\<close> interfaces: it returns the error right after listing them, so no port is created
  and nothing is attached.\<close>

theorem eni_reserve_refuses_at_cap:
  assumes "getNetwork env (es_NetworkClient s) (es_Networks s) w = (Ok nw, w1)"
    and "FindPort env (es_NetworkClient s) cid w1 = (Ok None, w2)"
    and "attach_List env (es_ComputeClient s) (es_InstanceID s) (sys_cloud w2) = (Ok (Ok atts), c)"
    and "MAX_ENIS \<le> length atts"
  shows "EniStore_Reserve env s cid w =
    (Err (''over single vm max supported enis:'' @ showNat MAX_ENIS), w2\<lparr>sys_cloud := c\<rparr>)"
  using assms by (simp add: EniStore_Reserve_def EniStore_findOrCreate_def EniStore_IsOverMax_def act_simps)

definition demo_eni :: EniStore where
  "demo_eni = \<lparr>es_FileLock = \<lparr>fl_path = ''/d/lock''\<rparr>, es_NetworkClient = 0, es_ComputeClient = 1, es_InstanceID = ''vm'',
     es_Networks = [''n'']\<rparr>"

definition demo_full :: "democloud sys" where
  "demo_full = demo_sys\<lparr>sys_cloud := (sys_cloud demo_sys)\<lparr>dc_atts := replicate 16 ''p''\<rparr>\<rparr>"

theorem eni_reserve_refuses_at_cap_witness:
  "EniStore_Reserve demo_env demo_eni ''c1'' demo_full =
     (Err (''over single vm max supported enis:'' @ showNat MAX_ENIS), demo_full)"
proof -
  have 1: "getNetwork demo_env (es_NetworkClient demo_eni) (es_Networks demo_eni) demo_full = (Ok demo_network, demo_full)"
    by (simp add: getNetwork_def demo_env_def demo_eni_def demo_network_def act_simps)
  have 2: "FindPort demo_env (es_NetworkClient demo_eni) ''c1'' demo_full = (Ok None, demo_full)"
    by (simp add: FindPort_def demo_env_def demo_list_def demo_full_def demo_sys_def demo_hostPort_def act_simps)
  have 3: "attach_List demo_env (es_ComputeClient demo_eni) (es_InstanceID demo_eni) (sys_cloud demo_full) =
      (Ok (Ok (replicate 16 ''p'')), sys_cloud demo_full)"
    by (simp add: demo_env_def demo_full_def)
  show ?thesis using eni_reserve_refuses_at_cap[OF 1 2 3] by (simp add: MAX_ENIS_def)
qed

section \<open>Properties of the allocator\<close>

text \<open>C14. \<^verbatim>\<open>IPAllocator.Get\<close> on any of the four stores and for any cloud: when the lock is taken and can be
  released, the call ends as the bare reservation would, on success, error and panic alike, it
  leaves the same system behind, and the lock is free again.\<close>

theorem Get_is_reserve_under_lock:
  assumes "fst (Store_Lock s w) = Ok ()" and "unlockWorks w"
  shows "case IPAllocator_Get (Store_iface env s) cid w of (x, w') \<Rightarrow>
    x = mapResult toIPConfig (fst (Store_Reserve env s cid w)) \<and> \<not> Store_held s w' \<and>
    noLocks w' = noLocks (snd (Store_Reserve env s cid w))"
  using st.Get_locked[where env = env and s = s, OF _ assms(2)] assms(1) by simp

theorem Get_is_reserve_under_lock_witness:
  "case IPAllocator_Get (Store_iface demo_env (Mix demo_mix)) ''c1'' demo_sys of (x, w') \<Rightarrow>
    x = mapResult toIPConfig (fst (Store_Reserve demo_env (Mix demo_mix) ''c1'' demo_sys)) \<and>
    \<not> Store_held (Mix demo_mix) w' \<and> noLocks w' = noLocks (snd (Store_Reserve demo_env (Mix demo_mix) ''c1'' demo_sys))"
  by (rule Get_is_reserve_under_lock) (simp_all add: lock_op_defs demo_sys_def unlockWorks_def)

text \<open>C23. The allocator hands out nothing once the host port has \<^verbatim>\<open>MAX_IPS\<close> addresses, in both modes with
  several addresses on one interface.\<close>

theorem Get_refuses_at_address_quota:
  assumes "unlockWorks w"
  shows "(fst (Store_Lock (Mix m) w) = Ok () \<and> MAX_IPS \<le> reportedIPs env (ms_NetworkClient m) (ms_hostPortID m) w \<longrightarrow>
           fst (IPAllocator_Get (Store_iface env (Mix m)) cid w) = Err overMaxIPsErr) \<and>
         (fst (Store_Lock (MixRoute s) w) = Ok () \<and> MAX_IPS \<le> routeIPs env s w \<longrightarrow>
           fst (IPAllocator_Get (Store_iface env (MixRoute s)) cid w) = Err overMaxIPsErr)"
  using mixq.Get_refuses[where env = env and s = m, OF _ assms]
    routeq.Get_refuses[where env = env and s = s, OF _ assms] by simp

definition demo_quota :: "democloud sys" where
  "demo_quota = demo_sys\<lparr>sys_cloud := \<lparr>dc_ports =
     [(''p'', demo_hostPort\<lparr>po_FixedIPs := replicate 20 \<lparr>fi_SubnetID = ''s'', fi_IPAddress = ''10.0.0.5''\<rparr>\<rparr>)], dc_atts = [], dc_routes = []\<rparr>\<rparr>"

theorem Get_refuses_at_address_quota_witness:
  "fst (IPAllocator_Get (Store_iface demo_env (Mix demo_mix)) ''c1'' demo_quota) = Err overMaxIPsErr"
proof -
  have "unlockWorks demo_quota" "fst (Store_Lock (Mix demo_mix) demo_quota) = Ok ()"
    by (simp_all add: unlockWorks_def demo_quota_def demo_sys_def lock_op_defs)
  moreover have "MAX_IPS \<le> reportedIPs demo_env (ms_NetworkClient demo_mix) (ms_hostPortID demo_mix) demo_quota"
    by code_simp
  ultimately show ?thesis using Get_refuses_at_address_quota[of demo_quota demo_mix demo_env "''c1''"] by blast
qed

section \<open>Where the stores fail\<close>

text \<open>Releasing an id the separate store has no port for panics: the missing port is dereferenced.\<close>

theorem separate_release_of_unknown_id_panics:
  assumes "FindPort env (ss_NetworkClient s) cid w = (Ok None, w1)"
  shows "SeparateStore_ReleaseByID env s cid w = (Panic, w1)"
  using assms by (simp add: SeparateStore_ReleaseByID_def act_simps)

definition demo_sep :: SeparateStore where
  "demo_sep = \<lparr>ss_lock = 0, ss_NetworkClient = 0, ss_Networks = [''n'']\<rparr>"

theorem separate_release_of_unknown_id_panics_witness:
  "SeparateStore_ReleaseByID demo_env demo_sep ''gone'' demo_sys = (Panic, demo_sys)"
  by (rule separate_release_of_unknown_id_panics)
    (simp add: FindPort_def demo_env_def demo_list_def demo_sep_def demo_sys_def demo_hostPort_def act_simps)

text \<open>A reservation that fails after neutron took the update keeps the new address on the host port: when the
  file of the address exists already, the mix store returns an error with the port one address longer.\<close>

theorem mix_reserve_leaks_address:
  assumes n: "neutron_ports env (ms_NetworkClient s) pt" and p: "pt (sys_cloud w) (ms_hostPortID s) = Some p"
    and q: "length (po_FixedIPs p) < MAX_IPS"
    and u: "ports_Update env (ms_NetworkClient s) (ms_hostPortID s)
       (po_FixedIPs p @ [\<lparr>fi_SubnetID = su_ID (ms_subnet s), fi_IPAddress = []\<rparr>]) (sys_cloud w) = (Ok q', c)"
    and t: "\<And>h. h \<in> set (po_FixedIPs q') \<Longrightarrow> is_Ok (toReservation (ms_subnet s) h)"
    and f: "\<And>h. h \<in> set (po_FixedIPs q') \<Longrightarrow>
       map_of (sys_files w) (pathClean (pathJoin (ms_dataDir s) (fi_IPAddress h))) \<noteq> None"
    and nf: "no_faults w"
  shows "\<exists>e w'. MixStore_Reserve env s cid w = (Err e, w') \<and>
     (\<exists>q. pt (sys_cloud w') (ms_hostPortID s) = Some q \<and> length (po_FixedIPs q) = Suc (length (po_FixedIPs p)))"
proof -
  obtain h where h: "pt c = (pt (sys_cloud w))(ms_hostPortID s \<mapsto> q')"
      "mset (po_FixedIPs q') = add_mset h (mset (po_FixedIPs p))" "ip_text (fi_IPAddress h)"
      "difference (po_FixedIPs p) (po_FixedIPs q') = Some h"
    using update_added[OF n p u] by blast
  have m: "h \<in> set (po_FixedIPs q')" using h(2) by (metis set_mset_mset union_single_eq_member)
  obtain r where r: "toReservation (ms_subnet s) h = Ok r" using t[OF m] by (auto simp: is_Ok_iff)
  then have i: "ipString (IPNet_IP (fst r)) = fi_IPAddress h"
    using h(3) by (auto simp: toReservation_def rbind_eq_Ok ip_text_def)
  obtain x where x: "map_of (sys_files w) (pathClean (pathJoin (ms_dataDir s) (fi_IPAddress h))) = Some x"
    using f[OF m] by auto
  have o: "osOpenExcl (pathJoin (ms_dataDir s) (fi_IPAddress h)) (w\<lparr>sys_cloud := c\<rparr>) =
      (Err (ErrExist (pathJoin (ms_dataDir s) (fi_IPAddress h))), w\<lparr>sys_cloud := c\<rparr>)"
    using x nf by (simp add: osOpenExcl_def guardFault_def no_faults_def)
  have l: "length (po_FixedIPs q') = Suc (length (po_FixedIPs p))" using h(2) by (metis size_add_mset size_mset)
  have "MixStore_Reserve env s cid w = (Err (ErrExist (pathJoin (ms_dataDir s) (fi_IPAddress h))), w\<lparr>sys_cloud := c\<rparr>)"
    using neutron_get[OF n p] q u h(4) r i o
    by (simp add: MixStore_Reserve_def addFixedIP_def IsOverMaxIPs_def writeIP_def GetEscapedPath_def Let_def act_simps)
  then show ?thesis using h(1) l by simp
qed

definition demo_stale :: "democloud sys" where
  "demo_stale = demo_sys\<lparr>sys_files := [(''/d/10.0.0.10'', ''old''), (''/d/10.0.0.5'', ''host'')]\<rparr>"

theorem mix_reserve_leaks_address_witness:
  "\<exists>e w'. MixStore_Reserve demo_env demo_mix ''c1'' demo_stale = (Err e, w') \<and>
     (\<exists>q. demo_pt (sys_cloud w') (ms_hostPortID demo_mix) = Some q \<and> length (po_FixedIPs q) = Suc (length (po_FixedIPs demo_hostPort)))"
proof -
  let ?u = "ports_Update demo_env (ms_NetworkClient demo_mix) (ms_hostPortID demo_mix)
     (po_FixedIPs demo_hostPort @ [\<lparr>fi_SubnetID = su_ID (ms_subnet demo_mix), fi_IPAddress = []\<rparr>]) (sys_cloud demo_stale)"
  let ?q = "demo_hostPort\<lparr>po_FixedIPs := [\<lparr>fi_SubnetID = ''s'', fi_IPAddress = ''10.0.0.5''\<rparr>, \<lparr>fi_SubnetID = ''s'', fi_IPAddress = ''10.0.0.10''\<rparr>]\<rparr>"
  have u: "?u = (Ok ?q, snd ?u)" by code_simp
  have p: "demo_pt (sys_cloud demo_stale) (ms_hostPortID demo_mix) = Some demo_hostPort" by code_simp
  have a: "list_all (\<lambda>h. is_Ok (toReservation (ms_subnet demo_mix) h) \<and>
      map_of (sys_files demo_stale) (pathClean (pathJoin (ms_dataDir demo_mix) (fi_IPAddress h))) \<noteq> None) (po_FixedIPs ?q)"
    by code_simp
  have q: "length (po_FixedIPs demo_hostPort) < MAX_IPS" by code_simp
  have nf: "no_faults demo_stale" by (simp add: no_faults_def demo_stale_def demo_sys_def)
  show ?thesis
    by (rule mix_reserve_leaks_address[OF demo_neutron p q u _ _ nf]) (use a in \<open>auto simp: list_all_iff\<close>)
qed

definition demo_route :: MixRouteStore where
  "demo_route = \<lparr>rs_FileLock = \<lparr>fl_path = ''/d/lock''\<rparr>, rs_NetworkClient = 0, rs_hostPort = 0, rs_hostPortAddr = ''10.0.0.5'',
     rs_subnet = demo_subnet, rs_Router = ''r'', rs_network = demo_network, rs_dataDir = ''/d''\<rparr>"

text \<open>After the store was made another process reserved 10.0.0.11 for \<^verbatim>\<open>c2\<close>.\<close>

definition demo_fixed :: "string list \<Rightarrow> Port" where
  "demo_fixed as = demo_hostPort\<lparr>po_FixedIPs := map (\<lambda>a. \<lparr>fi_SubnetID = ''s'', fi_IPAddress = a\<rparr>) as\<rparr>"

definition demo_race :: "democloud sys" where
  "demo_race = demo_sys\<lparr>sys_ports := [demo_fixed [''10.0.0.5'', ''10.0.0.10'']],
     sys_cloud := \<lparr>dc_ports = [(''p'', demo_fixed [''10.0.0.5'', ''10.0.0.10'', ''10.0.0.11''])], dc_atts = [], dc_routes = []\<rparr>,
     sys_files := [(''/d/10.0.0.10'', ''c1''), (''/d/10.0.0.11'', ''c2'')]\<rparr>"

text \<open>
  The mix-route store releases from the fixed addresses it read when it was made. Whatever the port
  holds by now, a release overwrites it with the old list without the container's address and reports
  success: an address that another process added in between is gone from the port, while
  the file of its container stays.
\<close>

theorem mixroute_release_overwrites_port:
  assumes n: "neutron_ports env (rs_NetworkClient s) pt" and hp: "rs_hostPort s < length (sys_ports w)"
    and p: "pt (sys_cloud w) (po_ID (sys_ports w ! rs_hostPort s)) = Some p"
    and w: "files_wf w" "no_faults w" "filesOf (rs_dataDir s) cid w = {f}" "(f, t) \<in> set (sys_files w)" "pathBase f \<noteq> []"
    and i: "findIndex (po_FixedIPs (sys_ports w ! rs_hostPort s)) (pathBase f) = Some i"
    and k: "\<forall>x \<in> set (po_FixedIPs (sys_ports w ! rs_hostPort s)). fi_IPAddress x \<noteq> []"
    and u: "ports_Update env (rs_NetworkClient s) (po_ID (sys_ports w ! rs_hostPort s))
       (removeAt i (po_FixedIPs (sys_ports w ! rs_hostPort s))) (sys_cloud w) = (Ok q, c)"
  shows "\<exists>w'. MixRouteStore_ReleaseByID env s cid w = (Ok (), w') \<and>
     pt (sys_cloud w') = (pt (sys_cloud w))(po_ID (sys_ports w ! rs_hostPort s) \<mapsto> q) \<and>
     mset (po_FixedIPs q) = mset (removeAt i (po_FixedIPs (sys_ports w ! rs_hostPort s))) \<and>
     sys_files w' = AList.delete f (sys_files w)"
proof -
  let ?h = "sys_ports w ! rs_hostPort s"
  define w1 where "w1 = w\<lparr>sys_ports := (sys_ports w)[rs_hostPort s := ?h\<lparr>po_FixedIPs := removeAt i (po_FixedIPs ?h)\<rparr>], sys_cloud := c\<rparr>"
  have "\<forall>x \<in> set (removeAt i (po_FixedIPs ?h)). fi_IPAddress x \<noteq> []" using k set_removeAt_subset[of i "po_FixedIPs ?h"] by blast
  note U = update_kept[OF n p u this]
  have "removePort env s (pathBase f) w = (Ok (), w1)"
    using hp i u by (simp add: removePort_def readPort_def writePort_def Let_def act_simps w1_def)
  moreover have "files_wf w1" "no_faults w1" "(f, t) \<in> set (sys_files w1)" using w by (simp_all add: files_wf_def no_faults_def w1_def)
  note removeContainerFile_known[OF this]
  ultimately have "MixRouteStore_ReleaseByID env s cid w = (Ok (), w1\<lparr>sys_files := AList.delete f (sys_files w1)\<rparr>)"
    using walkContainer_unique[OF w(1,2,3)] w(5) by (simp add: MixRouteStore_ReleaseByID_def act_simps)
  then show ?thesis using U by (simp add: w1_def)
qed

theorem mixroute_release_overwrites_port_witness:
  "\<exists>w'. MixRouteStore_ReleaseByID demo_env demo_route ''c1'' demo_race = (Ok (), w') \<and>
     demo_pt (sys_cloud w') ''p'' = Some demo_hostPort \<and> sys_files w' = [(''/d/10.0.0.11'', ''c2'')]"
proof -
  let ?h = "sys_ports demo_race ! rs_hostPort demo_route"
  let ?u = "ports_Update demo_env (rs_NetworkClient demo_route) (po_ID ?h) (removeAt 1 (po_FixedIPs ?h)) (sys_cloud demo_race)"
  have 1: "rs_hostPort demo_route < length (sys_ports demo_race)" by code_simp
  have 2: "demo_pt (sys_cloud demo_race) (po_ID ?h) = Some (demo_fixed [''10.0.0.5'', ''10.0.0.10'', ''10.0.0.11''])" by code_simp
  have "list_all (\<lambda>p. pathClean p = p) (map fst (sys_files demo_race)) \<and> distinct (map fst (sys_files demo_race))" by code_simp
  then have 3: "files_wf demo_race" by (simp add: files_wf_def list_all_iff)
  have 4: "no_faults demo_race" by (simp add: no_faults_def demo_race_def demo_sys_def)
  have "hasPrefix ''/d/10.0.0.10'' (dirPrefix ''/d'')" "trimSpace ''c1'' \<noteq> trimSpace ''c2''" by code_simp+
  then have 5: "filesOf (rs_dataDir demo_route) ''c1'' demo_race = {''/d/10.0.0.10''}"
    by (auto simp: filesOf_def demo_race_def demo_route_def)
  have 6: "(''/d/10.0.0.10'', ''c1'') \<in> set (sys_files demo_race)" by (simp add: demo_race_def)
  have b: "pathBase ''/d/10.0.0.10'' = ''10.0.0.10''" by code_simp
  have 7: "findIndex (po_FixedIPs ?h) (pathBase ''/d/10.0.0.10'') = Some 1" by code_simp
  have 8: "list_all (\<lambda>x. fi_IPAddress x \<noteq> []) (po_FixedIPs ?h)" by code_simp
  have 9: "?u = (Ok demo_hostPort, snd ?u)" by code_simp
  have id: "po_ID ?h = ''p''" by code_simp
  have fs: "AList.delete ''/d/10.0.0.10'' (sys_files demo_race) = [(''/d/10.0.0.11'', ''c2'')]" by code_simp
  show ?thesis
    using mixroute_release_overwrites_port[OF demo_neutron 1 2 3 4 5 6 _ 7 _ 9] 8
    by (auto simp: b id fs list_all_iff)
qed

section \<open>Configuration and passwords\<close>

lemma canonicalizeIP_length: "canonicalizeIP a = Ok b \<Longrightarrow> length b = 4 \<or> length b = 16"
  by (auto simp: canonicalizeIP_def To4_def To16_def v4InV6Prefix_def split: if_splits option.splits)

lemma canonIPArgs_length: "canonIPArgs as = Ok bs \<Longrightarrow> b \<in> set bs \<Longrightarrow> length b = 4 \<or> length b = 16"
  by (induction as arbitrary: bs) (auto simp: rbind_eq_Ok dest: canonicalizeIP_length split: result.splits)

text \<open>C29. A configuration that loads is complete: it has a neutron section with at least one network and a data
  directory, the host interface is the one given or else that of the default route, and every requested
  address is in its shortest form of 4 or 16 bytes.\<close>

theorem LoadIPAMConfig_complete:
  assumes "LoadIPAMConfig env unmarshal loadArgs bytes envArgs = Ok (c, v)"
  shows "\<exists>n ipam nc0 nc. unmarshal bytes = Ok n \<and> net_IPAM n = Some ipam \<and> ic_NeutronConf ipam = Some nc0 \<and>
    ic_NeutronConf c = Some nc \<and> nc_Networks nc \<noteq> [] \<and> nc_DataDir nc \<noteq> [] \<and>
    (if nc_HostInterface nc0 = [] then GetRouteInterface env = Ok (nc_HostInterface nc)
     else nc_HostInterface nc = nc_HostInterface nc0) \<and>
    list_all (\<lambda>a. length a = 4 \<or> length a = 16) (ic_IPArgs c) \<and> ic_Name c = net_Name n"
proof -
  obtain n where n: "unmarshal bytes = Ok n" using assms by (auto simp: LoadIPAMConfig_def rbind_eq_Ok)
  obtain ipam where ipam: "net_IPAM n = Some ipam"
    using assms n by (cases "net_IPAM n") (auto simp: LoadIPAMConfig_def)
  obtain args where args: "loadIPArgs loadArgs envArgs n ipam = Ok args"
    using assms n ipam by (auto simp: LoadIPAMConfig_def rbind_eq_Ok)
  obtain nc0 where nc0: "ic_NeutronConf ipam = Some nc0"
    using assms n ipam args by (cases "ic_NeutronConf ipam") (auto simp: LoadIPAMConfig_def)
  have ne: "nc_Networks nc0 \<noteq> []"
    using assms n ipam args nc0 by (auto simp: LoadIPAMConfig_def)
  obtain h where h: "(if nc_HostInterface nc0 = [] then GetRouteInterface env else Ok (nc_HostInterface nc0)) = Ok h"
      and c: "c = ipam\<lparr>ic_IPArgs := args, ic_NeutronConf := Some (nc0\<lparr>nc_HostInterface := h,
        nc_DataDir := (if nc_DataDir nc0 = [] then DefaultDataDir else nc_DataDir nc0)\<rparr>), ic_Name := net_Name n\<rparr>"
    using assms n ipam args nc0 ne by (auto simp: LoadIPAMConfig_def rbind_eq_Ok Let_def simp del: if_split)
  have "\<forall>a \<in> set args. length a = 4 \<or> length a = 16"
    using args by (auto simp: loadIPArgs_def rbind_eq_Ok dest: canonIPArgs_length)
  then show ?thesis using n ipam nc0 ne h c by (auto simp: DefaultDataDir_def list_all_iff split: if_splits)
qed

definition demo_net :: Net where
  "demo_net = \<lparr>net_Name = ''n'', net_CNIVersion = ''0.3.1'', net_IPAM = Some
     \<lparr>ic_Range = None, ic_Name = [], ic_Type = ''tcnp-ipam'', ic_Routes = [], ic_IPArgs = [], ic_ResolvConf = [],
      ic_OpenStackConf = None,
      ic_NeutronConf = Some \<lparr>nc_Mode = ''mix'', nc_DataDir = [], nc_HostInterface = [], nc_Networks = [''n'']\<rparr>\<rparr>,
     net_IPRanges = [], net_Args = Some (Some [v4InV6Prefix @ [10, 0, 0, 7]])\<rparr>"

theorem LoadIPAMConfig_complete_witness:
  "\<exists>c v nc. LoadIPAMConfig demo_env (\<lambda>_. Ok demo_net) (\<lambda>_. Ok []) ''{}'' [] = Ok (c, v) \<and> ic_NeutronConf c = Some nc \<and>
     nc_Networks nc \<noteq> [] \<and> nc_DataDir nc \<noteq> [] \<and> GetRouteInterface demo_env = Ok (nc_HostInterface nc)"
proof -
  have "is_Ok (LoadIPAMConfig demo_env (\<lambda>_. Ok demo_net) (\<lambda>_. Ok []) ''{}'' [])" by code_simp
  then obtain c v where r: "LoadIPAMConfig demo_env (\<lambda>_. Ok demo_net) (\<lambda>_. Ok []) ''{}'' [] = Ok (c, v)"
    by (auto simp: is_Ok_iff)
  show ?thesis using LoadIPAMConfig_complete[OF r] r by (auto simp: demo_net_def)
qed

text \<open>Decrypting an encrypted password gives the password back, for every block function with blocks of 16
  bytes and every password.\<close>

theorem password_roundtrip:
  assumes "\<forall>b. length (cip b) = 16"
  shows "aesDecrypt cip (aesEncrypt cip password) = Ok password"
  by (rule aes_roundtrip[OF assms])

theorem password_roundtrip_witness:
  "aesDecrypt (\<lambda>b. replicate 16 7) (aesEncrypt (\<lambda>b. replicate 16 7) ''secret'') = Ok ''secret''"
  by (rule password_roundtrip) simp

end
