(* ===== verification/ControllerRuns.thy ===== *)
theory ControllerRuns
  imports Controller StoreProps
begin

text \<open>
  The runs of the route controller: that no item is ever held by two workers, that the controller
  never gets stuck, that with one worker the routes are those of the pods, up to updates of them, whenever it comes to rest, and
  that a worker alone empties the queue; and the two ways in which the routes go stale, an old list
  of pods written by a second worker and an update event, which never leads to a sync.
\<close>

section \<open>No item is held by two workers\<close>

fun held :: "wstate \<Rightarrow> item set" where
  "held W_Idle = {}"
| "held (W_Got i) = {i}"
| "held (W_Checked i) = {i}"
| "held (W_Listed i pods) = {i}"

definition workers_ok :: "nat \<Rightarrow> (nat \<Rightarrow> wstate) \<Rightarrow> item wqueue \<Rightarrow> bool" where
  "workers_ok N ws q \<longleftrightarrow> wq_inv q \<and> wq_running q \<and> (\<forall>n \<ge> N. ws n = W_Idle) \<and>
     wq_processing q = (\<Union>n. held (ws n)) \<and> (\<forall>m n. m \<noteq> n \<longrightarrow> held (ws m) \<inter> held (ws n) = {})"

lemma workers_ok_queue:
  assumes "workers_ok N ws q" and "wq_inv q'" and "wq_running q' = wq_running q" and "wq_processing q' = wq_processing q"
  shows "workers_ok N ws q'"
  using assms by (simp add: workers_ok_def)

lemma workers_ok_add: "workers_ok N ws q \<Longrightarrow> workers_ok N ws (wqAdd i q)"
  by (rule workers_ok_queue[of N ws q]) (simp_all add: workers_ok_def wq.add_inv wq.add_busy)

lemma workers_ok_ready: "workers_ok N ws q \<Longrightarrow> workers_ok N ws (wqReady i q)"
  by (rule workers_ok_queue[of N ws q]) (simp_all add: workers_ok_def wq.ready_inv wq.ready_busy)

lemma workers_ok_later: "workers_ok N ws q \<Longrightarrow> workers_ok N ws (wqAddRateLimited i q)"
  by (rule workers_ok_queue[of N ws q]) (simp_all add: workers_ok_def wq.later_inv wq.later_busy)

lemma workers_ok_same: "workers_ok N ws q \<Longrightarrow> held x = held (ws n) \<Longrightarrow> n < N \<Longrightarrow> workers_ok N (ws(n := x)) q"
proof -
  assume a: "workers_ok N ws q" "held x = held (ws n)" "n < N"
  then have "held ((ws(n := x)) m) = held (ws m)" for m by simp
  then show ?thesis using a by (auto simp: workers_ok_def)
qed

lemma workers_ok_get:
  assumes "workers_ok N ws q" and "n < N" and "ws n = W_Idle" and g: "wqGet q = Some (Some i, q')"
  shows "workers_ok N (ws(n := W_Got i)) q'"
proof -
  have i: "i \<notin> (\<Union>n. held (ws n))" and p: "wq_processing q' = insert i (wq_processing q)" and q: "wq_inv q'" "wq_running q'"
    using wq.get_takes[OF _ g] wq.get_inv[OF _ g] assms(1) by (auto simp: workers_ok_def)
  have h: "held ((ws(n := W_Got i)) m) = (if m = n then {i} else held (ws m))" for m by simp
  have "(\<Union>m. held ((ws(n := W_Got i)) m)) = insert i (\<Union>m. held (ws m))"
    using assms(3) by (auto simp: h split: if_splits) (metis empty_iff held.simps(1))
  then show ?thesis using assms i p q by (auto simp: workers_ok_def h)
qed

lemma workers_ok_finish:
  assumes "workers_ok N ws q" and "n < N" and "held (ws n) = {i}"
  shows "workers_ok N (ws(n := W_Idle)) (wqDone i q)"
proof -
  have b: "i \<in> wq_processing q" and v: "wq_inv q" "wq_running q" using assms by (auto simp: workers_ok_def)
  note f = wq.finish_pending[OF v(1) b] wq.finish_inv[OF v(1) b]
  have h: "held ((ws(n := W_Idle)) m) = (if m = n then {} else held (ws m))" for m by simp
  have d: "i \<notin> held (ws m)" if "m \<noteq> n" for m
  proof -
    have "held (ws m) \<inter> held (ws n) = {}" using assms(1) that unfolding workers_ok_def by blast
    then show ?thesis using assms(3) by auto
  qed
  have "(\<Union>m. held ((ws(n := W_Idle)) m)) = (\<Union>m. held (ws m)) - {i}"
    using assms(3) d by (auto simp: h split: if_splits) (metis singletonD)
  then show ?thesis using assms f by (auto simp: workers_ok_def h)
qed

lemma workers_ok_finishItem:
  "workers_ok N ws q \<Longrightarrow> n < N \<Longrightarrow> held (ws n) = {i} \<Longrightarrow> workers_ok N (ws(n := W_Idle)) (finishItem i r q)"
  by (cases r) (simp_all add: finishItem_def workers_ok_finish workers_ok_later)

text \<open>What an event puts on the queue: the key of a pod that came or went, a pod itself or nothing after an update.\<close>

definition evItem :: "event \<Rightarrow> item option" where
  "evItem e = (case e of
      AddEv p \<Rightarrow> Some (Key (podKey p))
    | DelEv obj \<Rightarrow> Some (Key (case obj of Inl p \<Rightarrow> podKey p | Inr k \<Rightarrow> k))
    | UpdEv p a p' \<Rightarrow> if set (rp_Annotations p) \<noteq> set (rp_Annotations p') then Some (Obj a) else None)"

lemma handle_eq: "handle e q = (case evItem e of Some i \<Rightarrow> wqAdd i q | None \<Rightarrow> q)"
  by (cases e) (simp_all add: Controller_add_def Controller_delete_def Controller_update_def evItem_def)

lemma cs_upd:
  "cs_workers (setWorker n x s) = (cs_workers s)(n := x)" "cs_queue (setWorker n x s) = cs_queue s"
  "cs_pods (setWorker n x s) = cs_pods s" "cs_events (setWorker n x s) = cs_events s" "cs_sys (setWorker n x s) = cs_sys s"
  "cs_queue (setQueue q s) = q" "cs_workers (setQueue q s) = cs_workers s"
  "cs_pods (setQueue q s) = cs_pods s" "cs_events (setQueue q s) = cs_events s" "cs_sys (setQueue q s) = cs_sys s"
  by (simp_all add: setWorker_def setQueue_def)

lemma workers_ok_step: "cstep env nr N s t \<Longrightarrow> workers_ok N (cs_workers s) (cs_queue s) \<Longrightarrow> workers_ok N (cs_workers t) (cs_queue t)"
proof (induction rule: cstep.induct)
  case (Deliver s e es)
  then show ?case by (simp add: cs_upd handle_eq workers_ok_add split: option.splits)
next
  case (Ready i s)
  then show ?case by (simp add: cs_upd workers_ok_ready)
next
  case (Get n s i q)
  show ?case unfolding cs_upd by (rule workers_ok_get[OF Get.prems Get.hyps])
next
  case (Drop n s a)
  show ?case unfolding cs_upd by (rule workers_ok_finish) (use Drop in \<open>simp_all\<close>)
next
  case (Skip n s k)
  show ?case unfolding cs_upd by (rule workers_ok_finishItem) (use Skip in \<open>simp_all\<close>)
next
  case (Refuse n s k e)
  show ?case unfolding cs_upd by (rule workers_ok_finishItem) (use Refuse in \<open>simp_all\<close>)
next
  case (Check n s k)
  show ?case unfolding cs_upd by (rule workers_ok_same) (use Check in \<open>simp_all\<close>)
next
  case (Listing n s i)
  show ?case unfolding cs_upd by (rule workers_ok_same) (use Listing in \<open>simp_all\<close>)
next
  case (Update n s i pods r w)
  show ?case unfolding cs_upd by (rule workers_ok_finishItem) (use Update in \<open>simp_all\<close>)
qed

lemma istep_keeps: "istepU U s t \<Longrightarrow> cs_workers t = cs_workers s \<and> cs_queue t = cs_queue s \<and> cs_sys t = cs_sys s"
  by (auto elim: istepU.cases)

lemma reach_induct [consumes 1, case_names init informer controller]:
  assumes "reachU U env nr N s0 s" and "P s0"
    and "\<And>s t. reachU U env nr N s0 s \<Longrightarrow> P s \<Longrightarrow> istepU U s t \<Longrightarrow> P t"
    and "\<And>s t. reachU U env nr N s0 s \<Longrightarrow> P s \<Longrightarrow> cstep env nr N s t \<Longrightarrow> P t"
  shows "P s"
  using assms(1) unfolding reachU_def
proof (induction rule: rtranclp_induct)
  case base
  show ?case by (rule assms(2))
next
  case (step t u)
  have r: "reachU U env nr N s0 t" using step.hyps(1) by (simp add: reachU_def)
  show ?case using step.hyps(2) assms(3)[OF r step.IH] assms(4)[OF r step.IH] by blast
qed

lemma workers_ok_init: "workers_ok N (cs_workers (cinit w)) (cs_queue (cinit w))"
  by (simp add: workers_ok_def cinit_def wqNew_def wq_inv_def wq_running_def)

lemma reach_workers_ok: "reachU U env nr N (cinit w) s \<Longrightarrow> workers_ok N (cs_workers s) (cs_queue s)"
proof (induction rule: reach_induct)
  case init
  show ?case by (rule workers_ok_init)
next
  case (informer s t)
  then show ?case by (simp add: istep_keeps)
next
  case (controller s t)
  then show ?case by (blast intro: workers_ok_step)
qed

section \<open>One worker keeps the routes in step\<close>

text \<open>
  \<open>router_ok\<close> is the documented behaviour of the update of a router, \<open>rts\<close> being the static routes it holds:
  it replaces them all or, when it fails, changes nothing.
\<close>

definition router_ok :: "'c env \<Rightarrow> NeutronRouter \<Rightarrow> ('c \<Rightarrow> (string \<times> string) list) \<Rightarrow> bool" where
  "router_ok env nr rts \<longleftrightarrow> (\<forall>c rs. case routers_Update env (nr_networkClient nr) (nr_router nr) rs c of
      (Ok _, c') \<Rightarrow> rts c' = rs | (Err _, c') \<Rightarrow> rts c' = rts c | (Panic, _) \<Rightarrow> False)"

definition lock_free :: "NeutronRouter \<Rightarrow> 'c sys \<Rightarrow> bool" where
  "lock_free nr w \<longleftrightarrow> nr_lock nr < length (sys_mutexes w) \<and> \<not> sys_mutexes w ! nr_lock nr"

lemma UpdateRoutes_effect:
  assumes "router_ok env nr rts" and "lock_free nr w" and "UpdateRoutes env nr pods w = (r, w')"
  shows "lock_free nr w' \<and> (case r of Ok _ \<Rightarrow> rts (sys_cloud w') = parsePodsRoutes nr pods
     | Err _ \<Rightarrow> rts (sys_cloud w') = rts (sys_cloud w) | Panic \<Rightarrow> False)"
proof -
  obtain x c where u: "routers_Update env (nr_networkClient nr) (nr_router nr) (parsePodsRoutes nr pods) (sys_cloud w) = (x, c)"
    by (cases "routers_Update env (nr_networkClient nr) (nr_router nr) (parsePodsRoutes nr pods) (sys_cloud w)")
  have "r = x" "w' = w\<lparr>sys_cloud := c\<rparr>"
    using assms(2,3) UpdateRoutes_call[of nr w env pods] u by (simp_all add: lock_free_def)
  moreover have "case x of Ok _ \<Rightarrow> rts c = parsePodsRoutes nr pods | Err _ \<Rightarrow> rts c = rts (sys_cloud w) | Panic \<Rightarrow> False"
    using assms(1)[unfolded router_ok_def, rule_format, of "parsePodsRoutes nr pods" "sys_cloud w"] u by (cases x) simp_all
  ultimately show ?thesis using assms(2) by (cases x) (simp_all add: lock_free_def)
qed

fun goodItem :: "item \<Rightarrow> bool" where
  "goodItem (Key k) = (splitKey k \<noteq> None)"
| "goodItem (Obj a) = True"

fun isKey :: "item \<Rightarrow> bool" where
  "isKey (Key k) = True"
| "isKey (Obj a) = False"

text \<open>An event after which the pods are listed again, and one whose item is good.\<close>

definition waking :: "event \<Rightarrow> bool" where
  "waking e \<longleftrightarrow> (\<exists>i. evItem e = Some i \<and> isKey i)"

definition goodEv :: "event \<Rightarrow> bool" where
  "goodEv e \<longleftrightarrow> (\<forall>i. evItem e = Some i \<longrightarrow> goodItem i)"

lemma goodItem_podKey: "validPod p \<Longrightarrow> goodItem (Key (podKey p))"
  by (auto simp: validPod_def podKey_def splitKey_def split_no_sep split_append_sep)

lemma syncCheck_good: "goodItem (Key k) \<Longrightarrow> syncCheck ls k \<noteq> Ok False"
  by (auto simp: syncCheck_def rbind_eq_Ok split: option.splits)

lemma syncCheck_no_panic: "syncCheck (cacheLister pods) k \<noteq> Panic"
  by (auto simp: syncCheck_def cacheLister_def split: option.splits)

text \<open>
  The routes of an earlier version of the cache: since then pods were only updated. \<open>settled\<close>: an event, a pending key or
  the worker will still bring the routes up to date, or they are, up to updates.
\<close>

definition olderPods :: "(RoutedPod \<Rightarrow> RoutedPod \<Rightarrow> bool) \<Rightarrow> RoutedPod list \<Rightarrow> RoutedPod list \<Rightarrow> bool" where
  "olderPods U = list_all2 (\<lambda>p p'. samePod p p' \<and> U p p')"

definition inStep :: "(RoutedPod \<Rightarrow> RoutedPod \<Rightarrow> bool) \<Rightarrow> NeutronRouter \<Rightarrow> (string \<times> string) list \<Rightarrow> RoutedPod list \<Rightarrow> bool" where
  "inStep U nr rs pods \<longleftrightarrow> (\<exists>old. olderPods U old pods \<and> rs = parsePodsRoutes nr old)"

definition settled :: "(RoutedPod \<Rightarrow> RoutedPod \<Rightarrow> bool) \<Rightarrow> NeutronRouter \<Rightarrow> ('c \<Rightarrow> (string \<times> string) list) \<Rightarrow> 'c cstate \<Rightarrow> bool" where
  "settled U nr rts s \<longleftrightarrow> (\<exists>e \<in> set (cs_events s). waking e) \<or> (\<exists>i \<in> wq_pending (cs_queue s). isKey i) \<or>
     (case cs_workers s 0 of
        W_Idle \<Rightarrow> inStep U nr (rts (sys_cloud (cs_sys s))) (cs_pods s)
      | W_Got i \<Rightarrow> isKey i \<or> inStep U nr (rts (sys_cloud (cs_sys s))) (cs_pods s)
      | W_Listed i pods \<Rightarrow> olderPods U pods (cs_pods s)
      | _ \<Rightarrow> True)"

fun keyed :: "wstate \<Rightarrow> bool" where
  "keyed (W_Checked i) = isKey i"
| "keyed (W_Listed i pods) = isKey i"
| "keyed _ = True"

definition conv :: "(RoutedPod \<Rightarrow> RoutedPod \<Rightarrow> bool) \<Rightarrow> NeutronRouter \<Rightarrow> ('c \<Rightarrow> (string \<times> string) list) \<Rightarrow> 'c cstate \<Rightarrow> bool" where
  "conv U nr rts s \<longleftrightarrow> workers_ok 1 (cs_workers s) (cs_queue s) \<and> lock_free nr (cs_sys s) \<and> (\<forall>e \<in> set (cs_events s). goodEv e) \<and>
     (\<forall>i \<in> wq_pending (cs_queue s) \<union> wq_processing (cs_queue s). goodItem i) \<and> keyed (cs_workers s 0) \<and> settled U nr rts s"

lemma olderPods_refl: "reflp U \<Longrightarrow> olderPods U pods pods"
  by (auto simp: olderPods_def samePod_def reflp_def intro!: list_all2_refl)

lemma olderPods_routes:
  assumes "olderPods U old pods" and "\<And>p p'. U p p' \<Longrightarrow> routable nr p = routable nr p' \<and> routeOf p = routeOf p'"
  shows "map routeOf (filter (routable nr) old) = map routeOf (filter (routable nr) pods)"
  using assms(1) unfolding olderPods_def by (induction rule: list_all2_induct) (use assms(2) in auto)

lemma olderPods_upd:
  assumes "transp U" and "olderPods U old pods" and "j < length pods" and "samePod (pods ! j) p" and "U (pods ! j) p"
    and "reflp U"
  shows "olderPods U old (pods[j := p])"
proof -
  have "samePod (old ! j) (pods ! j)" "U (old ! j) (pods ! j)" using assms(2,3) by (auto simp: olderPods_def list_all2_conv_all_nth)
  then have "samePod (old ! j) p" "U (old ! j) p" using assms(1,4,5) by (auto simp: samePod_def dest: transpD)
  then show ?thesis using assms(2,3) by (auto simp: olderPods_def list_all2_conv_all_nth nth_list_update)
qed

lemma finishItem_sets:
  assumes "wq_inv q" and "wq_running q" and "i \<in> wq_processing q"
  shows "wq_pending (finishItem i r q) = (if is_Err r then insert i (wq_pending q) else wq_pending q)"
    and "wq_processing (finishItem i r q) = wq_processing q - {i}"
  using wq.finish_pending[OF assms(1,3)] wq.retry_keeps[OF assms] by (cases r; simp add: finishItem_def)+

lemma conv_finish:
  assumes c: "conv U nr rts s" and h: "held (cs_workers s 0) = {i}" and lf: "lock_free nr w"
    and d: "is_Err r \<and> isKey i \<or> (\<exists>e \<in> set (cs_events s). waking e) \<or> (\<exists>i \<in> wq_pending (cs_queue s). isKey i) \<or>
      inStep U nr (rts (sys_cloud w)) (cs_pods s)"
  shows "conv U nr rts (setWorker 0 W_Idle (setQueue (finishItem i r (cs_queue s)) (s\<lparr>cs_sys := w\<rparr>)))"
proof -
  have k: "workers_ok 1 (cs_workers s) (cs_queue s)" using c by (simp add: conv_def)
  then have q: "wq_inv (cs_queue s)" "wq_running (cs_queue s)" "i \<in> wq_processing (cs_queue s)"
    using h by (auto simp: workers_ok_def)
  have "workers_ok 1 ((cs_workers s)(0 := W_Idle)) (finishItem i r (cs_queue s))"
    by (rule workers_ok_finishItem[OF k]) (simp_all add: h)
  then show ?thesis using c lf d q(3) finishItem_sets[OF q, of r]
    by (auto simp: conv_def cs_upd settled_def)
qed

lemma held_good:
  assumes "conv U nr rts s" and "held (cs_workers s n) = {i}"
  shows "goodItem i"
proof -
  have "i \<in> wq_processing (cs_queue s)" using assms by (auto simp: conv_def workers_ok_def)
  then show ?thesis using assms(1) by (simp add: conv_def)
qed

lemma conv_Deliver:
  assumes c: "conv U nr rts s" and e: "cs_events s = e # es"
  shows "conv U nr rts (setQueue (handle e (cs_queue s)) (s\<lparr>cs_events := es\<rparr>))"
proof (cases "evItem e")
  case None
  then show ?thesis using c e by (cases "cs_workers s 0") (auto simp: handle_eq conv_def cs_upd settled_def waking_def)
next
  case (Some i)
  have q: "wq_inv (cs_queue s)" "wq_running (cs_queue s)" using c by (auto simp: conv_def workers_ok_def)
  have "goodItem i" using c e Some by (simp add: conv_def goodEv_def)
  moreover have "settled U nr rts (setQueue (wqAdd i (cs_queue s)) (s\<lparr>cs_events := es\<rparr>))"
    using c e Some wq.add_pending[OF q, of i] by (cases "cs_workers s 0") (auto simp: conv_def settled_def cs_upd waking_def)
  ultimately show ?thesis using c e Some wq.add_pending[OF q, of i]
    by (auto simp: handle_eq conv_def wq.add_busy cs_upd workers_ok_add)
qed

lemma conv_cstep:
  assumes r: "router_ok env nr rts" and U: "reflp U" and "cstep env nr 1 s t" and "conv U nr rts s"
  shows "conv U nr rts t"
  using assms(3,4)
proof (induction rule: cstep.induct)
  case (Deliver s e es)
  then show ?case by (intro conv_Deliver)
next
  case (Ready i s)
  have q: "wq_inv (cs_queue s)" "wq_running (cs_queue s)" using Ready.prems by (auto simp: conv_def workers_ok_def)
  then show ?case using Ready wq.ready_pending[OF q]
    by (cases "cs_workers s 0") (auto simp: conv_def wq.ready_busy cs_upd settled_def workers_ok_ready)
next
  case (Get n s i q)
  have v: "wq_inv (cs_queue s)" using Get.prems by (auto simp: conv_def workers_ok_def)
  have "workers_ok 1 ((cs_workers s)(n := W_Got i)) q"
    by (rule workers_ok_get[of 1 "cs_workers s" "cs_queue s" n i q]) (use Get in \<open>simp_all add: conv_def\<close>)
  moreover have "\<forall>j \<in> wq_pending q \<union> wq_processing q. goodItem j"
    using Get.prems wqGet_sub[OF v Get.hyps(3)] by (auto simp: conv_def)
  moreover have "isKey i \<or> (\<exists>e \<in> set (cs_events s). waking e) \<or> (\<exists>j \<in> wq_pending q. isKey j) \<or>
      inStep U nr (rts (sys_cloud (cs_sys s))) (cs_pods s)"
    using Get wq.get_takes[OF v Get.hyps(3)] by (auto simp: conv_def settled_def)
  ultimately show ?case using Get by (auto simp: conv_def cs_upd settled_def)
next
  case (Drop n s a)
  have "conv U nr rts (setWorker 0 W_Idle (setQueue (finishItem (Obj a) (Ok ()) (cs_queue s)) (s\<lparr>cs_sys := cs_sys s\<rparr>)))"
    by (rule conv_finish[OF Drop.prems]) (use Drop in \<open>auto simp: conv_def settled_def\<close>)
  then show ?case using Drop.hyps(1) by (simp add: finishItem_def)
next
  case (Skip n s k)
  then show ?case using held_good[of U nr rts s n "Key k"] syncCheck_good by force
next
  case (Refuse n s k e)
  have "conv U nr rts (setWorker 0 W_Idle (setQueue (finishItem (Key k) (Err e) (cs_queue s)) (s\<lparr>cs_sys := cs_sys s\<rparr>)))"
    by (rule conv_finish[OF Refuse.prems]) (use Refuse in \<open>auto simp: conv_def\<close>)
  then show ?case using Refuse.hyps(1) by simp
next
  case (Check n s k)
  have "workers_ok 1 ((cs_workers s)(n := W_Checked (Key k))) (cs_queue s)"
    by (rule workers_ok_same) (use Check in \<open>simp_all add: conv_def\<close>)
  then show ?case using Check by (simp add: conv_def cs_upd settled_def)
next
  case (Listing n s i)
  have "workers_ok 1 ((cs_workers s)(n := W_Listed i (cs_pods s))) (cs_queue s)"
    by (rule workers_ok_same) (use Listing in \<open>simp_all add: conv_def\<close>)
  then show ?case using Listing olderPods_refl[OF U] by (simp add: conv_def cs_upd settled_def)
next
  case (Update n s i pods x w)
  have e: "lock_free nr w \<and> (case x of Ok _ \<Rightarrow> rts (sys_cloud w) = parsePodsRoutes nr pods
     | Err _ \<Rightarrow> rts (sys_cloud w) = rts (sys_cloud (cs_sys s)) | Panic \<Rightarrow> False)"
    using Update by (intro UpdateRoutes_effect[OF r _ Update.hyps(3)]) (simp add: conv_def)
  have "conv U nr rts (setWorker 0 W_Idle (setQueue (finishItem i x (cs_queue s)) (s\<lparr>cs_sys := w\<rparr>)))"
  proof (rule conv_finish[OF Update.prems])
    show "held (cs_workers s 0) = {i}" using Update.hyps by simp
    show "lock_free nr w" using e by simp
    show "is_Err x \<and> isKey i \<or> (\<exists>e \<in> set (cs_events s). waking e) \<or> (\<exists>i \<in> wq_pending (cs_queue s). isKey i) \<or>
        inStep U nr (rts (sys_cloud w)) (cs_pods s)"
      using e Update.prems Update.hyps by (cases x) (auto simp: conv_def settled_def inStep_def)
  qed
  then show ?case using Update.hyps(1) by simp
qed

lemma conv_istep:
  assumes U: "reflp U" "transp U" and "istepU U s t" and "conv U nr rts s"
  shows "conv U nr rts t"
  using assms(3,4)
proof (induction rule: istepU.induct)
  case (CacheAdd p s)
  then show ?case using goodItem_podKey[of p] by (auto simp: conv_def settled_def goodEv_def waking_def evItem_def)
next
  case (CacheUpd j s p p' ptr)
  have o: "olderPods U old (cs_pods s) \<Longrightarrow> olderPods U old ((cs_pods s)[j := p'])" for old
    using olderPods_upd[OF U(2)] CacheUpd.hyps U(1) by simp
  have g: "goodEv (UpdEv p ptr p')" "\<not> waking (UpdEv p ptr p')" by (simp_all add: goodEv_def waking_def evItem_def)
  have "inStep U nr rs (cs_pods s) \<Longrightarrow> inStep U nr rs ((cs_pods s)[j := p'])" for rs using o by (auto simp: inStep_def)
  then show ?case using CacheUpd.prems o g by (cases "cs_workers s 0") (auto simp: conv_def settled_def)
next
  case (CacheDel p s obj)
  then show ?case using goodItem_podKey[of p] by (auto simp: conv_def settled_def goodEv_def waking_def evItem_def)
qed

lemma reach_conv:
  assumes "reachU U env nr 1 (cinit w) s" and "router_ok env nr rts" and "lock_free nr w" and "rts (sys_cloud w) = []"
    and U: "reflp U" "transp U"
  shows "conv U nr rts s"
  using assms(1)
proof (induction rule: reach_induct)
  case init
  show ?case using assms(3,4) workers_ok_init[of 1 w]
    by (simp add: conv_def settled_def cinit_def wqNew_def wq_pending_def inStep_def olderPods_def)
next
  case (informer s t)
  then show ?case by (blast intro: conv_istep[OF U])
next
  case (controller s t)
  then show ?case by (blast intro: conv_cstep[OF assms(2) U(1)])
qed

section \<open>The controller never gets stuck\<close>

definition quiet :: "'c cstate \<Rightarrow> bool" where
  "quiet s \<longleftrightarrow> cs_events s = [] \<and> wq_pending (cs_queue s) = {} \<and> (\<forall>n. cs_workers s n = W_Idle)"

lemma busy_worker_steps:
  assumes "n < N" and "cs_workers s n \<noteq> W_Idle"
  shows "\<exists>t. cstep env nr N s t"
proof (cases "cs_workers s n")
  case (W_Got i)
  show ?thesis
  proof (cases i)
    case (Key k)
    then show ?thesis using assms(1) W_Got syncCheck_no_panic[of "cs_pods s" k]
      by (cases "syncCheck (cacheLister (cs_pods s)) k"; cases "syncCheck (cacheLister (cs_pods s)) k = Ok True")
        (auto intro: cstep.Skip cstep.Refuse cstep.Check)
  next
    case (Obj a)
    then show ?thesis using assms(1) W_Got cstep.Drop by blast
  qed
next
  case (W_Listed i pods)
  then show ?thesis using assms(1) cstep.Update by (metis surj_pair)
qed (use assms in \<open>auto intro: cstep.Listing\<close>)

lemma progress:
  assumes "workers_ok N (cs_workers s) (cs_queue s)" and "0 < N" and "\<not> quiet s"
  shows "\<exists>t. cstep env nr N s t"
proof (cases "cs_events s")
  case (Cons e es)
  then show ?thesis using cstep.Deliver by blast
next
  case Nil
  show ?thesis
  proof (cases "\<exists>n < N. cs_workers s n \<noteq> W_Idle")
    case True
    then show ?thesis using busy_worker_steps by blast
  next
    case False
    then have idle: "cs_workers s n = W_Idle" for n using assms(1) by (cases "n < N") (auto simp: workers_ok_def)
    then have q: "wq_inv (cs_queue s)" "wq_running (cs_queue s)" "wq_processing (cs_queue s) = {}" "wq_pending (cs_queue s) \<noteq> {}"
      using assms(1,3) Nil by (auto simp: workers_ok_def quiet_def)
    show ?thesis
    proof (cases "\<exists>i q'. wqGet (cs_queue s) = Some (Some i, q')")
      case True
      then show ?thesis using cstep.Get[OF assms(2) idle] by blast
    next
      case False
      then obtain i q' where "wqGet (wqReady i (cs_queue s)) = Some (Some i, q')"
        using wq.get_idle[OF q] by blast
      then have "i \<in> wq_waiting (cs_queue s)" using False by (cases "i \<in> wq_waiting (cs_queue s)") (auto simp: wqReady_def)
      then show ?thesis using cstep.Ready by blast
    qed
  qed
qed

section \<open>Two workers: an old list of pods can win\<close>

text \<open>What the run below needs to know of a state with two workers.\<close>

definition view :: "'c env \<Rightarrow> NeutronRouter \<Rightarrow> ('c \<Rightarrow> (string \<times> string) list) \<Rightarrow> 'c cstate \<Rightarrow> RoutedPod list \<Rightarrow> event list \<Rightarrow>
    item wqueue \<Rightarrow> wstate \<Rightarrow> wstate \<Rightarrow> (string \<times> string) list \<Rightarrow> bool" where
  "view env nr rts s0 pods evs q x y rs \<longleftrightarrow> (\<exists>s. reach env nr 2 s0 s \<and> lock_free nr (cs_sys s) \<and> cs_pods s = pods \<and> cs_events s = evs \<and>
     cs_queue s = q \<and> cs_workers s = (\<lambda>_. W_Idle)(0 := x, 1 := y) \<and> rts (sys_cloud (cs_sys s)) = rs)"

lemma reach_i: "reachU U env nr N s0 s \<Longrightarrow> istepU U s t \<Longrightarrow> reachU U env nr N s0 t"
  unfolding reachU_def by (rule rtranclp.rtrancl_into_rtrancl) auto

lemma reach_c: "reachU U env nr N s0 s \<Longrightarrow> cstep env nr N s t \<Longrightarrow> reachU U env nr N s0 t"
  unfolding reachU_def by (rule rtranclp.rtrancl_into_rtrancl) auto

lemma viewE:
  assumes "view env nr rts s0 pods evs q x y rs"
  obtains s where "reach env nr 2 s0 s" "lock_free nr (cs_sys s)" "cs_pods s = pods" "cs_events s = evs"
     "cs_queue s = q" "cs_workers s = (\<lambda>_. W_Idle)(0 := x, 1 := y)" "rts (sys_cloud (cs_sys s)) = rs"
  using assms unfolding view_def by blast

lemma view_add:
  assumes "view env nr rts s0 pods evs q x y rs" and "validPod p"
  shows "view env nr rts s0 (p # pods) (evs @ [AddEv p]) q x y rs"
proof -
  obtain s where s: "reach env nr 2 s0 s" "lock_free nr (cs_sys s)" "cs_pods s = pods" "cs_events s = evs"
     "cs_queue s = q" "cs_workers s = (\<lambda>_. W_Idle)(0 := x, 1 := y)" "rts (sys_cloud (cs_sys s)) = rs"
    using assms(1) by (rule viewE)
  show ?thesis unfolding view_def
    by (rule exI, intro conjI, rule reach_i[OF s(1) istepU.CacheAdd[OF assms(2)]]) (simp_all add: s)
qed

lemma view_deliver:
  assumes "view env nr rts s0 pods (e # evs) q x y rs"
  shows "view env nr rts s0 pods evs (handle e q) x y rs"
proof -
  obtain s where s: "reach env nr 2 s0 s" "lock_free nr (cs_sys s)" "cs_pods s = pods" "cs_events s = e # evs"
     "cs_queue s = q" "cs_workers s = (\<lambda>_. W_Idle)(0 := x, 1 := y)" "rts (sys_cloud (cs_sys s)) = rs"
    using assms(1) by (rule viewE)
  show ?thesis unfolding view_def
    by (rule exI, intro conjI, rule reach_c[OF s(1) cstep.Deliver[OF s(4)]]) (simp_all add: cs_upd s)
qed

text \<open>A step of worker \<open>n\<close> that only takes it to another state, or also changes the queue.\<close>

lemma view_worker:
  assumes "view env nr rts s0 pods evs q x y rs"
    and "\<And>s. cs_queue s = q \<Longrightarrow> cs_pods s = pods \<Longrightarrow> cs_workers s = (\<lambda>_. W_Idle)(0 := x, 1 := y) \<Longrightarrow>
      cstep env nr 2 s (setWorker n z (setQueue q' s))"
    and "n < (2 :: nat)"
  shows "view env nr rts s0 pods evs q' (if n = 0 then z else x) (if n = 0 then y else z) rs"
proof -
  obtain s where s: "reach env nr 2 s0 s" "lock_free nr (cs_sys s)" "cs_pods s = pods" "cs_events s = evs"
     "cs_queue s = q" "cs_workers s = (\<lambda>_. W_Idle)(0 := x, 1 := y)" "rts (sys_cloud (cs_sys s)) = rs"
    using assms(1) by (rule viewE)
  have "(cs_workers s)(n := z) = (\<lambda>_. W_Idle)(0 := if n = 0 then z else x, 1 := if n = 0 then y else z)"
    using assms(3) by (auto simp: s(6) fun_eq_iff)
  then show ?thesis unfolding view_def
    by (intro exI[of _ "setWorker n z (setQueue q' s)"] conjI, intro reach_c[OF s(1)] assms(2)) (simp_all add: cs_upd s)
qed

lemma setQueue_same: "cs_queue s = q \<Longrightarrow> setQueue q s = s"
  by (auto simp: setQueue_def)

lemma view_update:
  assumes "view env nr rts s0 pods evs q x y rs" and "n < (2 :: nat)" and "(if n = 0 then x else y) = W_Listed i ps"
    and "router_ok env nr rts" and "\<And>c rs. is_Ok (fst (routers_Update env (nr_networkClient nr) (nr_router nr) rs c))"
  shows "view env nr rts s0 pods evs (wqDone i q) (if n = 0 then W_Idle else x) (if n = 0 then y else W_Idle) (parsePodsRoutes nr ps)"
proof -
  obtain s where s: "reach env nr 2 s0 s" "lock_free nr (cs_sys s)" "cs_pods s = pods" "cs_events s = evs"
     "cs_queue s = q" "cs_workers s = (\<lambda>_. W_Idle)(0 := x, 1 := y)" "rts (sys_cloud (cs_sys s)) = rs"
    using assms(1) by (rule viewE)
  obtain r w where u: "UpdateRoutes env nr ps (cs_sys s) = (r, w)" by (cases "UpdateRoutes env nr ps (cs_sys s)")
  have "is_Ok r" using assms(5)[of "parsePodsRoutes nr ps" "sys_cloud (cs_sys s)"] u s(2) UpdateRoutes_call[of nr "cs_sys s" env ps]
    by (auto simp: lock_free_def split: prod.splits)
  then have r: "r = Ok ()" and e: "lock_free nr w" "rts (sys_cloud w) = parsePodsRoutes nr ps"
    using UpdateRoutes_effect[OF assms(4) s(2) u] by (auto simp: is_Ok_iff)
  have "cs_workers s n = W_Listed i ps" using assms(2,3) by (auto simp: s(6) split: if_splits)
  from cstep.Update[OF assms(2) this u]
  have st: "cstep env nr 2 s (setWorker n W_Idle (setQueue (wqDone i q) (s\<lparr>cs_sys := w\<rparr>)))"
    by (simp add: r finishItem_def s(5))
  have "(cs_workers s)(n := W_Idle) = (\<lambda>_. W_Idle)(0 := if n = 0 then W_Idle else x, 1 := if n = 0 then y else W_Idle)"
    using assms(2) by (auto simp: s(6) fun_eq_iff)
  then show ?thesis unfolding view_def
    by (intro exI[of _ "setWorker n W_Idle (setQueue (wqDone i q) (s\<lparr>cs_sys := w\<rparr>))"] conjI reach_c[OF s(1) st])
      (simp_all add: cs_upd s e)
qed

lemma splitKey_podKey: "validPod p \<Longrightarrow> splitKey (podKey p) = Some (rp_Namespace p, rp_Name p)"
  by (auto simp: validPod_def podKey_def splitKey_def split_no_sep split_append_sep)

lemma syncCheck_ok:
  assumes "validPod p" and "\<forall>x \<in> set pods. rp_PodIP x \<noteq> []"
  shows "syncCheck (cacheLister pods) (podKey p) = Ok True"
  using assms splitKey_podKey[OF assms(1)]
  by (auto simp: syncCheck_def cacheLister_def dest!: find_Some_hit split: option.splits)

definition Q :: "item list \<Rightarrow> item set \<Rightarrow> item set \<Rightarrow> item wqueue" where
  "Q items d b = \<lparr>wq_queue = items, wq_dirty = d, wq_processing = b, wq_waiting = {}, wq_shuttingDown = False\<rparr>"

lemma Q_ops:
  "wqNew = Q [] {} {}"
  "i \<notin> d \<Longrightarrow> i \<notin> b \<Longrightarrow> wqAdd i (Q is d b) = Q (is @ [i]) (insert i d) b"
  "wqGet (Q (i # is) d b) = Some (Some i, Q is (d - {i}) (insert i b))"
  "i \<notin> d \<Longrightarrow> wqDone i (Q is d b) = Q is d (b - {i})"
  by (simp_all add: Q_def wqNew_def wqAdd_def wqGet_def wqDone_def Let_def)

lemma view_move:
  assumes v: "view env nr rts s0 pods evs q x y rs"
    and c: "\<And>s. cs_pods s = pods \<Longrightarrow> cs_workers s n = (if n = 0 then x else y) \<Longrightarrow> cstep env nr 2 s (setWorker n z s)"
    and n: "n < 2"
  shows "view env nr rts s0 pods evs q (if n = 0 then z else x) (if n = 0 then y else z) rs"
proof (rule view_worker[OF v _ n])
  fix s :: "'a cstate" assume s: "cs_queue s = q" "cs_pods s = pods" "cs_workers s = (\<lambda>_. W_Idle)(0 := x, 1 := y)"
  have "cs_workers s n = (if n = 0 then x else y)" using n by (auto simp: s(3))
  then show "cstep env nr 2 s (setWorker n z (setQueue q s))" using c[OF s(2)] setQueue_same[OF s(1)] by simp
qed

text \<open>Worker \<open>n\<close> takes the first item of the queue, checks its pod and lists the pods.\<close>

lemma view_take_and_list:
  assumes v: "view env nr rts s0 pods evs (Q (Key (podKey p) # is) d b) x y rs" and n: "n < (2 :: nat)"
    and i: "(if n = 0 then x else y) = W_Idle" and p: "validPod p" and ip: "\<forall>x \<in> set pods. rp_PodIP x \<noteq> []"
  shows "view env nr rts s0 pods evs (Q is (d - {Key (podKey p)}) (insert (Key (podKey p)) b))
     (if n = 0 then W_Listed (Key (podKey p)) pods else x) (if n = 0 then y else W_Listed (Key (podKey p)) pods) rs"
proof -
  let ?k = "Key (podKey p)" and ?q = "Q is (d - {Key (podKey p)}) (insert (Key (podKey p)) b)"
  have 1: "view env nr rts s0 pods evs ?q (if n = 0 then W_Got ?k else x) (if n = 0 then y else W_Got ?k) rs"
    by (rule view_worker[OF v _ n], rule cstep.Get[OF n]) (use i n in \<open>auto simp: Q_ops split: if_splits\<close>)
  have c: "cstep env nr 2 s (setWorker n (W_Checked ?k) s)" if "cs_pods s = pods" "cs_workers s n = W_Got ?k" for s
    using cstep.Check[OF n that(2)] syncCheck_ok[OF p ip] that(1) by simp
  have 2: "view env nr rts s0 pods evs ?q (if n = 0 then W_Checked ?k else x) (if n = 0 then y else W_Checked ?k) rs"
    using view_move[OF 1 _ n, of "W_Checked ?k"] c by (cases "n = 0") auto
  have l: "cstep env nr 2 s (setWorker n (W_Listed ?k pods) s)" if "cs_pods s = pods" "cs_workers s n = W_Checked ?k" for s
    using cstep.Listing[OF n that(2)] that(1) by simp
  show ?thesis
    using view_move[OF 2 _ n, of "W_Listed ?k pods"] l by (cases "n = 0") auto
qed

lemma stale_run:
  assumes r: "router_ok env nr rts" and u: "\<And>c rs. is_Ok (fst (routers_Update env (nr_networkClient nr) (nr_router nr) rs c))"
    and w: "lock_free nr w" and p: "validPod p1" "validPod p2" "rp_PodIP p1 \<noteq> []" "rp_PodIP p2 \<noteq> []" "podKey p1 \<noteq> podKey p2"
  shows "view env nr rts (cinit w) [p2, p1] [] (Q [] {} {}) W_Idle W_Idle (parsePodsRoutes nr [p1])"
proof -
  let ?v = "view env nr rts (cinit w)" and ?k1 = "Key (podKey p1)" and ?k2 = "Key (podKey p2)" and ?r = "rts (sys_cloud w)"
  have "reach env nr 2 (cinit w) (cinit w)" by (simp add: reachU_def)
  then have 0: "?v [] [] (Q [] {} {}) W_Idle W_Idle ?r"
    unfolding view_def using w by (intro exI[of _ "cinit w"]) (auto simp: cinit_def Q_ops)
  have 1: "?v [p1] [] (Q [?k1] {?k1} {}) W_Idle W_Idle ?r"
    using view_deliver[OF view_add[OF 0 p(1), simplified]] by (simp add: handle_eq evItem_def Q_ops)
  have 2: "?v [p1] [] (Q [] {} {?k1}) (W_Listed ?k1 [p1]) W_Idle ?r"
    using view_take_and_list[OF 1, of 0] p by simp
  have 3: "?v [p2, p1] [] (Q [?k2] {?k2} {?k1}) (W_Listed ?k1 [p1]) W_Idle ?r"
    using view_deliver[OF view_add[OF 2 p(2), simplified]] p(5) by (simp add: handle_eq evItem_def Q_ops)
  have 4: "?v [p2, p1] [] (Q [] {} {?k2, ?k1}) (W_Listed ?k1 [p1]) (W_Listed ?k2 [p2, p1]) ?r"
    using view_take_and_list[OF 3, of 1] p by simp
  have 5: "?v [p2, p1] [] (Q [] {} {?k1}) (W_Listed ?k1 [p1]) W_Idle (parsePodsRoutes nr [p2, p1])"
    using view_update[OF 4, of 1 ?k2 "[p2, p1]", OF _ _ r u] p(5) by (simp add: Q_ops)
  show ?thesis
    using view_update[OF 5, of 0 ?k1 "[p1]", OF _ _ r u] by (simp add: Q_ops)
qed

section \<open>One worker alone empties the queue\<close>

lemma Controller_sync_no_panic:
  assumes "router_ok env nr rts" and "lock_free nr w" and "Controller_sync env nr (cacheLister pods) k w = (r, w')"
  shows "r \<noteq> Panic \<and> lock_free nr w'"
proof (cases "syncCheck (cacheLister pods) k")
  case (Ok go)
  obtain x v where u: "UpdateRoutes env nr pods w = (x, v)" by (cases "UpdateRoutes env nr pods w")
  show ?thesis using assms(2,3) Ok u UpdateRoutes_effect[OF assms(1,2) u]
    by (cases go; cases x) (auto simp: Controller_sync_def cacheLister_def act_simps)
qed (use assms syncCheck_no_panic in \<open>auto simp: Controller_sync_def act_simps\<close>)

lemma wqGet_first: "wq_queue q = i # rest \<Longrightarrow>
    wqGet q = Some (Some i, q\<lparr>wq_queue := rest, wq_processing := insert i (wq_processing q), wq_dirty := wq_dirty q - {i}\<rparr>)"
  by (simp add: wqGet_def)

lemma processItem_shrinks:
  assumes "router_ok env nr rts" and "lock_free nr w" and "i \<notin> wq_dirty q" and "wq_running q"
    and "processItem env nr (cacheLister pods) i (w, q) = (r, (w', q'))"
  shows "r = Ok True \<and> lock_free nr w' \<and> wq_queue q' = wq_queue q \<and> wq_dirty q' = wq_dirty q \<and>
    wq_processing q' = wq_processing q - {i} \<and> wq_waiting q' \<subseteq> insert i (wq_waiting q) \<and> wq_running q'"
proof (cases i)
  case (Obj a)
  then show ?thesis using assms by (auto simp: processItem_def wqDone_def wq_running_def)
next
  case (Key k)
  obtain x v where s: "Controller_sync env nr (cacheLister pods) k w = (x, v)" by (cases "Controller_sync env nr (cacheLister pods) k w")
  then show ?thesis using Key assms Controller_sync_no_panic[OF assms(1,2) s]
    by (cases x) (auto simp: processItem_def finishItem_def wqDone_def wqAddRateLimited_def wq_running_def)
qed

lemma runWorker_empties:
  assumes r: "router_ok env nr rts"
  shows "lock_free nr w \<Longrightarrow> wq_inv q \<Longrightarrow> wq_running q \<Longrightarrow> wq_processing q = {} \<Longrightarrow> length (wq_queue q) < fuel \<Longrightarrow>
    \<exists>w' q'. runWorker fuel env nr (cacheLister pods) (w, q) = Some (w', q') \<and> wq_queue q' = [] \<and> wq_dirty q' = {} \<and>
      wq_processing q' = {} \<and> wq_waiting q' \<subseteq> wq_waiting q \<union> set (wq_queue q)"
proof (induction fuel arbitrary: w q)
  case 0
  then show ?case by simp
next
  case (Suc fuel)
  show ?case
  proof (cases "wq_queue q")
    case Nil
    then show ?thesis using Suc.prems
      by (simp add: processNextWorkItem_def wqGet_def wq_running_def wq_inv_def)
  next
    case (Cons i rest)
    define q1 where "q1 = q\<lparr>wq_queue := rest, wq_processing := insert i (wq_processing q), wq_dirty := wq_dirty q - {i}\<rparr>"
    obtain x w2 q2 where p: "processItem env nr (cacheLister pods) i (w, q1) = (x, (w2, q2))"
      by (cases "processItem env nr (cacheLister pods) i (w, q1)") auto
    have e: "x = Ok True \<and> lock_free nr w2 \<and> wq_queue q2 = rest \<and> wq_dirty q2 = wq_dirty q - {i} \<and>
        wq_processing q2 = {} \<and> wq_waiting q2 \<subseteq> insert i (wq_waiting q) \<and> wq_running q2"
      using processItem_shrinks[OF r Suc.prems(1) _ _ p] Suc.prems by (auto simp: q1_def wq_running_def)
    have iv: "wq_inv q2" using e Suc.prems(2,4) Cons by (auto simp: wq_inv_def)
    have "\<exists>w' q'. runWorker fuel env nr (cacheLister pods) (w2, q2) = Some (w', q') \<and> wq_queue q' = [] \<and> wq_dirty q' = {} \<and>
        wq_processing q' = {} \<and> wq_waiting q' \<subseteq> wq_waiting q2 \<union> set (wq_queue q2)"
      by (rule Suc.IH) (use e iv Suc.prems(5) Cons in \<open>auto\<close>)
    then obtain w' q' where f: "runWorker fuel env nr (cacheLister pods) (w2, q2) = Some (w', q')" "wq_queue q' = []"
        "wq_dirty q' = {}" "wq_processing q' = {}" and s: "wq_waiting q' \<subseteq> wq_waiting q2 \<union> set rest"
      using e by auto
    have "wq_waiting q' \<subseteq> wq_waiting q \<union> set (wq_queue q)" 
    proof (rule order_trans[OF s])
      show "wq_waiting q2 \<union> set rest \<subseteq> wq_waiting q \<union> set (wq_queue q)" using e Cons by auto
    qed
    then show ?thesis using f e p wqGet_first[OF Cons]
      by (simp add: processNextWorkItem_def q1_def[symmetric])
  qed
qed

section \<open>Properties of the controller\<close>

text \<open>A router of the small cloud, with two pods.\<close>

definition demo_router :: NeutronRouter where
  "demo_router = \<lparr>nr_lock = 0, nr_networkClient = 0, nr_subnet = demo_subnet, nr_router = ''r''\<rparr>"

definition demo_pod :: "string \<Rightarrow> string \<Rightarrow> RoutedPod" where
  "demo_pod n a = \<lparr>rp_Namespace = ''ns'', rp_Name = n, rp_PodIP = a, rp_HostIP = ''10.0.0.5'', rp_Deleting = False, rp_Annotations = []\<rparr>"

lemma demo_router_ok: "router_ok demo_env demo_router dc_routes"
  by (simp add: router_ok_def demo_env_def)

lemma demo_lock_free: "lock_free demo_router demo_sys"
  by (simp add: lock_free_def demo_router_def demo_sys_def)

lemma demo_no_routes: "dc_routes (sys_cloud demo_sys) = []"
  by (simp add: demo_sys_def)

text \<open>C11. In every state the controller can reach, with any number of workers, no two workers hold the same
  item of the queue.\<close>

theorem no_item_held_twice:
  assumes "reach env nr N (cinit w) s" and "m \<noteq> n"
  shows "held (cs_workers s m) \<inter> held (cs_workers s n) = {}"
  using reach_workers_ok[OF assms(1)] assms(2) unfolding workers_ok_def by blast

theorem no_item_held_twice_witness:
  "held (cs_workers (cinit demo_sys) 0) \<inter> held (cs_workers (cinit demo_sys) 1) = {}"
  by (rule no_item_held_twice[of demo_env demo_router 2 demo_sys]) (simp_all add: reachU_def)

text \<open>A run of one worker: a pod comes, its key is queued, taken and checked, the pods are listed and the routes written.\<close>

lemma demo_one_run:
  assumes p: "validPod p" "rp_PodIP p \<noteq> []"
  shows "\<exists>s. reachU U demo_env demo_router 1 (cinit demo_sys) s \<and> quiet s \<and> cs_pods s = [p]"
proof -
  let ?R = "reachU U demo_env demo_router 1 (cinit demo_sys)" and ?k = "Key (podKey p)"
  let ?s = "\<lambda>evs q x. \<lparr>cs_sys = demo_sys, cs_pods = [p], cs_events = evs, cs_queue = q, cs_workers = (\<lambda>_. W_Idle)(0 := x)\<rparr>"
  note c = reach_c[where U = U and env = demo_env and nr = demo_router and N = 1 and ?s0.0 = "cinit demo_sys"]
  note s = setWorker_def setQueue_def
  have 0: "?R (cinit demo_sys)" by (simp add: reachU_def)
  have w: "(\<lambda>_. W_Idle)(0 := W_Idle) = (\<lambda>_ :: nat. W_Idle)" by auto
  have 1: "?R (?s [AddEv p] (Q [] {} {}) W_Idle)"
    using reach_i[OF 0 istepU.CacheAdd[OF p(1), where s = "cinit demo_sys"]] by (simp add: cinit_def Q_ops w)
  have 2: "?R (?s [] (Q [?k] {?k} {}) W_Idle)"
    using c[OF 1 cstep.Deliver[where e = "AddEv p" and es = "[]"]] by (simp add: handle_eq evItem_def Q_ops s)
  have 3: "?R (?s [] (Q [] {} {?k}) (W_Got ?k))"
    using c[OF 2 cstep.Get[where n = 0 and i = ?k and q = "Q [] {} {?k}"]] by (simp add: Q_ops s w)
  have 4: "?R (?s [] (Q [] {} {?k}) (W_Checked ?k))"
    using c[OF 3 cstep.Check[where n = 0 and k = "podKey p"]] syncCheck_ok[OF p(1), of "[p]"] p(2) by (simp add: s)
  have 5: "?R (?s [] (Q [] {} {?k}) (W_Listed ?k [p]))"
    using c[OF 4 cstep.Listing[where n = 0 and i = ?k]] by (simp add: s)
  obtain r v where u: "UpdateRoutes demo_env demo_router [p] demo_sys = (r, v)" by (cases "UpdateRoutes demo_env demo_router [p] demo_sys")
  then have "r = Ok ()" using UpdateRoutes_call[of demo_router demo_sys demo_env "[p]"] demo_lock_free
    by (auto simp: lock_free_def demo_env_def split: prod.splits)
  then have 6: "?R ((?s [] (Q [] {} {}) W_Idle)\<lparr>cs_sys := v\<rparr>)"
    using c[OF 5 cstep.Update[where n = 0 and i = ?k and pods = "[p]" and r = r and w = v]] u
    by (simp add: s Q_ops finishItem_def cinit_def w)
  show ?thesis by (intro exI conjI, rule 6) (simp_all add: quiet_def Q_def wq_pending_def)
qed

text \<open>C3. With one worker, whenever the controller has come to rest (no event to deliver, nothing pending, the worker
  idle) the router holds exactly the routes of the pods in the cache, each as it is or as it was before updates of it: one
  per pod that is not being deleted and has an address of the subnet, to its node. When the updates that happen (\<open>U\<close>) leave
  the routes of the pods as they are, these are the routes of the cache.\<close>

theorem one_worker_routes_in_step:
  assumes "router_ok env nr rts" and "lock_free nr w" and "rts (sys_cloud w) = []" and "reflp U" and "transp U"
    and "reachU U env nr 1 (cinit w) s" and "quiet s"
  shows "(\<exists>old. list_all2 (\<lambda>p p'. samePod p p' \<and> U p p') old (cs_pods s) \<and>
      rts (sys_cloud (cs_sys s)) = map routeOf (filter (routable nr) old)) \<and>
    ((\<forall>p p'. U p p' \<longrightarrow> routable nr p = routable nr p' \<and> routeOf p = routeOf p') \<longrightarrow>
      rts (sys_cloud (cs_sys s)) = map routeOf (filter (routable nr) (cs_pods s)))"
proof -
  obtain old where o: "olderPods U old (cs_pods s)" "rts (sys_cloud (cs_sys s)) = map routeOf (filter (routable nr) old)"
    using reach_conv[OF assms(6,1-5)] assms(7) by (auto simp: conv_def settled_def quiet_def inStep_def parsePodsRoutes_eq)
  moreover have "map routeOf (filter (routable nr) old) = map routeOf (filter (routable nr) (cs_pods s))"
    if "\<forall>p p'. U p p' \<longrightarrow> routable nr p = routable nr p' \<and> routeOf p = routeOf p'"
    by (rule olderPods_routes[OF o(1)]) (use that in auto)
  ultimately show ?thesis unfolding olderPods_def by auto
qed

theorem one_worker_routes_in_step_witness:
  "\<exists>s :: democloud cstate. cs_pods s = [demo_pod ''a'' ''10.0.0.10''] \<and> dc_routes (sys_cloud (cs_sys s)) = [routeOf (demo_pod ''a'' ''10.0.0.10'')]"
proof -
  let ?p = "demo_pod ''a'' ''10.0.0.10''"
  have "validPod ?p" "rp_PodIP ?p \<noteq> []" by (simp_all add: validPod_def demo_pod_def)
  then obtain s where s: "reachU (=) demo_env demo_router 1 (cinit demo_sys) s" "quiet s" "cs_pods s = [?p]"
    using demo_one_run by blast
  have "routable demo_router ?p" by code_simp
  moreover have "dc_routes (sys_cloud (cs_sys s)) = map routeOf (filter (routable demo_router) (cs_pods s))"
    using one_worker_routes_in_step[OF demo_router_ok demo_lock_free demo_no_routes _ _ s(1,2)] by simp
  ultimately show ?thesis using s(3) by (intro exI[of _ s]) simp
qed



text \<open>C32. A worker on its own, with nothing added meanwhile, handles every queued item and then waits: as many rounds
  as there are items are enough, the queue is empty afterwards, and only items of it wait for a retry.\<close>

theorem runWorker_empties_queue:
  assumes "router_ok env nr rts" and "lock_free nr w" and "wq_inv q" and "wq_running q" and "wq_processing q = {}"
    and "length (wq_queue q) < fuel"
  shows "\<exists>w' q'. runWorker fuel env nr (cacheLister pods) (w, q) = Some (w', q') \<and> wq_queue q' = [] \<and> wq_dirty q' = {} \<and>
      wq_processing q' = {} \<and> wq_waiting q' \<subseteq> wq_waiting q \<union> set (wq_queue q)"
  by (rule runWorker_empties[OF assms])

theorem runWorker_empties_queue_witness:
  "\<exists>w' q'. runWorker 2 demo_env demo_router (cacheLister []) (demo_sys, wqAdd (Key ''ns/a'') wqNew) = Some (w', q') \<and>
     wq_queue q' = [] \<and> wq_dirty q' = {}"
  using runWorker_empties_queue[OF demo_router_ok demo_lock_free, of "wqAdd (Key ''ns/a'') wqNew" 2 "[]"]
  by (auto simp: wqAdd_def wqNew_def wq_inv_def wq_running_def Let_def)

text \<open>C33. With the two workers the controller is run with, the routes can end up stale: the pods are listed before the
  router's lock is taken, so a worker can write an old list over a newer one. There is a run that comes to rest
  with the routes of the first pod only, although the cache has a second routable pod.\<close>

theorem two_workers_can_end_stale:
  assumes "router_ok env nr rts" and "\<And>c rs. is_Ok (fst (routers_Update env (nr_networkClient nr) (nr_router nr) rs c))"
    and "lock_free nr w" and "validPod p1" and "validPod p2" and "rp_PodIP p1 \<noteq> []" and "rp_PodIP p2 \<noteq> []"
    and "podKey p1 \<noteq> podKey p2" and "routable nr p2"
  shows "\<exists>s. reach env nr 2 (cinit w) s \<and> quiet s \<and> cs_pods s = [p2, p1] \<and>
    rts (sys_cloud (cs_sys s)) = parsePodsRoutes nr [p1] \<and> rts (sys_cloud (cs_sys s)) \<noteq> parsePodsRoutes nr (cs_pods s)"
proof -
  obtain s where s: "reach env nr 2 (cinit w) s" "lock_free nr (cs_sys s)" "cs_pods s = [p2, p1]" "cs_events s = []"
     "cs_queue s = Q [] {} {}" "cs_workers s = (\<lambda>_. W_Idle)(0 := W_Idle, 1 := W_Idle)"
     "rts (sys_cloud (cs_sys s)) = parsePodsRoutes nr [p1]"
    using stale_run[OF assms(1-8)] by (rule viewE)
  then have "quiet s" by (simp add: quiet_def Q_def wq_pending_def)
  moreover have "parsePodsRoutes nr [p1] \<noteq> parsePodsRoutes nr [p2, p1]" using assms(9) by (simp add: parsePodsRoutes_eq)
  ultimately show ?thesis using s by (intro exI[of _ s]) simp
qed

theorem two_workers_can_end_stale_witness:
  "\<exists>s. reach demo_env demo_router 2 (cinit demo_sys) s \<and> quiet s \<and>
     cs_pods s = [demo_pod ''b'' ''10.0.0.11'', demo_pod ''a'' ''10.0.0.10''] \<and>
     dc_routes (sys_cloud (cs_sys s)) \<noteq> parsePodsRoutes demo_router (cs_pods s)"
proof -
  have "routable demo_router (demo_pod ''b'' ''10.0.0.11'')" by code_simp
  then have "\<exists>s. reach demo_env demo_router 2 (cinit demo_sys) s \<and> quiet s \<and>
      cs_pods s = [demo_pod ''b'' ''10.0.0.11'', demo_pod ''a'' ''10.0.0.10''] \<and>
      dc_routes (sys_cloud (cs_sys s)) = parsePodsRoutes demo_router [demo_pod ''a'' ''10.0.0.10''] \<and>
      dc_routes (sys_cloud (cs_sys s)) \<noteq> parsePodsRoutes demo_router (cs_pods s)"
    by (intro two_workers_can_end_stale demo_router_ok demo_lock_free)
      (simp_all add: validPod_def demo_pod_def podKey_def demo_env_def)
  then show ?thesis by blast
qed

text \<open>An update event never leads to a sync: the handler queues the pod object instead of its key, and a worker
  drops what is not a key. After an update with new annotations an idle worker returns to waiting with the system and
  the queue as they were before the event.\<close>

theorem update_event_never_syncs:
  assumes "set (rp_Annotations oldPod) \<noteq> set (rp_Annotations newPod)"
  shows "Controller_update oldPod ptr newPod wqNew \<noteq> wqNew \<and>
    runWorker (Suc (Suc fuel)) env nr ls (w, Controller_update oldPod ptr newPod wqNew) = Some (w, wqNew)"
  using assms
  by (simp add: Controller_update_def wqAdd_def wqNew_def processNextWorkItem_def processItem_def wqGet_def wqDone_def Let_def)

theorem update_event_never_syncs_witness:
  "runWorker 2 demo_env demo_router (cacheLister [demo_pod ''a'' ''10.0.0.10''])
     (demo_sys, Controller_update (demo_pod ''a'' []) 7 ((demo_pod ''a'' ''10.0.0.10'')\<lparr>rp_Annotations := [(''k'', ''v'')]\<rparr>) wqNew) =
   Some (demo_sys, wqNew)"
  using update_event_never_syncs[of "demo_pod ''a'' []" "(demo_pod ''a'' ''10.0.0.10'')\<lparr>rp_Annotations := [(''k'', ''v'')]\<rparr>" 7 0 demo_env
      demo_router "cacheLister [demo_pod ''a'' ''10.0.0.10'']" demo_sys]
  by (simp add: demo_pod_def numeral_2_eq_2)

end
