(* ===== verification/K8s.thy ===== *)
theory K8s
  imports MixPool
begin

text \<open>
  \<^verbatim>\<open>pkg/api/k8s/k8s.go\<close>: the port files of the containers, the host name, and the parser of the network
  annotation of a pod. \<^verbatim>\<open>json.Unmarshal\<close> is the parameter \<open>unmarshal\<close>, the flag and the
  environment are arguments.
\<close>

section \<open>Port files\<close>

definition stateDir :: string where
  "stateDir = ''/var/lib/cni/galaxy/port''"

record k8sPort =
  kp_HostPort :: int
  kp_ContainerPort :: int
  kp_Protocol :: string
  kp_HostIP :: string
  kp_PodName :: string
  kp_PodIP :: string

text \<open>\<^verbatim>\<open>ioutil.WriteFile\<close>: open with truncation, write, close; the first error is returned.\<close>

definition parentDir :: "string \<Rightarrow> string" where
  "parentDir p = (let d = join ''/'' (butlast (split (CHR ''/'') (pathClean p))) in if d = [] then ''/'' else d)"

definition osOpenTrunc :: "string \<Rightarrow> ('c, unit) sysact" where
  "osOpenTrunc path = guardFault (OpOpen path) (\<lambda>w.
     if pathClean path \<in> set (sys_dirs w) then (Err (''open '' @ path @ '': is a directory''), w)
     else if parentDir path \<notin> set (sys_dirs w) then (Err (''open '' @ path @ '': no such file or directory''), w)
     else (Ok (), w\<lparr>sys_files := AList.update (pathClean path) [] (sys_files w)\<rparr>))"

definition ioWriteFile :: "string \<Rightarrow> string \<Rightarrow> ('c, unit) sysact" where
  "ioWriteFile path data =
     abind (osOpenTrunc path) (\<lambda>_.
     acase (osWriteString path data)
       (\<lambda>_. osClose path)
       (\<lambda>e. abind (aignore (osClose path)) (\<lambda>_. aerr e)))"

definition SavePort :: "string \<Rightarrow> string \<Rightarrow> ('c, unit) sysact" where
  "SavePort containerID data =
     abind (osMkdirAll stateDir) (\<lambda>_. ioWriteFile (pathJoin stateDir containerID) data)"

definition RemovePortFile :: "string \<Rightarrow> ('c, unit) sysact" where
  "RemovePortFile containerID = osRemove (pathJoin stateDir containerID)"

definition ConsumePort :: "(string \<Rightarrow> k8sPort list result) \<Rightarrow> string \<Rightarrow> ('c, k8sPort list) sysact" where
  "ConsumePort unmarshal containerID =
     abind (osReadFile (pathJoin stateDir containerID)) (\<lambda>data.
     if length data = 0 then aret [] else alift (unmarshal data))"

section \<open>Names\<close>

definition GetPodFullName :: "string \<Rightarrow> string \<Rightarrow> string" where
  "GetPodFullName podName namespace = podName @ ''_'' @ namespace"

text \<open>\<^verbatim>\<open>glog.Fatalf\<close> ends the process, as a panic does.\<close>

definition GetHostname :: "string \<Rightarrow> string \<Rightarrow> string result \<Rightarrow> string result" where
  "GetHostname flagHostnameOverride MY_NODE_NAME osHostname =
     rbind (if flagHostnameOverride \<noteq> [] then Ok flagHostnameOverride
            else if MY_NODE_NAME \<noteq> [] then Ok MY_NODE_NAME
            else (case osHostname of Ok nodename \<Rightarrow> Ok nodename | _ \<Rightarrow> Panic)) (\<lambda>hostname.
     Ok (toLower (trimSpace hostname)))"

section \<open>The network annotation\<close>

record NetworkSelectionElement =
  ns_Name :: string
  ns_Namespace :: string
  ns_IPRequest :: string
  ns_MacRequest :: string
  ns_InterfaceRequest :: string

text \<open>The regular expression \<^verbatim>\<open>^[a-z0-9]([-a-z0-9]*[a-z0-9])?$\<close>.\<close>

definition isAlnum :: "char \<Rightarrow> bool" where
  "isAlnum c \<longleftrightarrow> isDigit c \<or> (97 \<le> (of_char c :: nat) \<and> (of_char c :: nat) \<le> 122)"

definition isLabel :: "string \<Rightarrow> bool" where
  "isLabel s \<longleftrightarrow> s \<noteq> [] \<and> isAlnum (hd s) \<and> isAlnum (last s) \<and> list_all (\<lambda>c. isAlnum c \<or> c = CHR ''-'') s"

text \<open>The loop over the three items: the first that is neither empty nor a label ends the function.\<close>

fun checkItems :: "string list \<Rightarrow> unit result" where
  "checkItems [] = Ok ()"
| "checkItems (item # items) =
     (if \<not> isLabel item \<and> length item > 0
      then Err (''Failed to parse: one or more items did not match comma-delimited format'' @
                '' (must consist of lower case alphanumeric characters). Must start and end with an alphanumeric'' @
                '' character), mismatch @ ''@ [CHR 0x27] @ item @ [CHR 0x27] @ '' '')
      else checkItems items)"

definition parsePodNetworkObjectName :: "string \<Rightarrow> (string \<times> string \<times> string) result" where
  "parsePodNetworkObjectName podNetwork =
     (let slashItems = split (CHR ''/'') podNetwork in
      rbind (if length slashItems = 2 then Ok (trimSpace (slashItems ! 0), slashItems ! 1)
             else if length slashItems = 1 then Ok ([], slashItems ! 0)
             else Err (''Invalid network object '' @ podNetwork @ '' (failed at '' @ [CHR 0x27, CHR ''/'', CHR 0x27] @ '') ''))
        (\<lambda>(netNsName, networkName).
      let atItems = split (CHR ''@'') networkName;
          networkName = trimSpace (atItems ! 0)
      in rbind (if length atItems = 2 then Ok (trimSpace (atItems ! 1))
                else if length atItems \<noteq> 1
                then Err (''Invalid network object (failed at '' @ [CHR 0x27, CHR ''@'', CHR 0x27] @ '') '')
                else Ok [])
           (\<lambda>netIfName.
         rbind (checkItems [netNsName, networkName, netIfName]) (\<lambda>_.
         Ok (netNsName, networkName, netIfName)))))"

definition isJsonAnnotation :: "string \<Rightarrow> bool" where
  "isJsonAnnotation s \<longleftrightarrow> list_ex (\<lambda>c. c = CHR ''['' \<or> c = CHR ''{'' \<or> c = CHR 0x22) s"

definition newElement :: "string \<Rightarrow> string \<Rightarrow> NetworkSelectionElement" where
  "newElement networkName netIfName =
     \<lparr>ns_Name = networkName, ns_Namespace = [], ns_IPRequest = [], ns_MacRequest = [], ns_InterfaceRequest = netIfName\<rparr>"

definition parseItem :: "string \<Rightarrow> NetworkSelectionElement result" where
  "parseItem item =
     (case parsePodNetworkObjectName (trimSpace item) of
        Ok (_, networkName, netIfName) \<Rightarrow> Ok (newElement networkName netIfName)
      | Err e \<Rightarrow> Err (''parsePodNetworkAnnotation: '' @ e)
      | Panic \<Rightarrow> Panic)"

definition ParsePodNetworkAnnotation ::
  "(string \<Rightarrow> NetworkSelectionElement list result) \<Rightarrow> string \<Rightarrow> NetworkSelectionElement list result" where
  "ParsePodNetworkAnnotation unmarshal podNetworks =
     (if podNetworks = []
      then Err ''parsePodNetworkAnnotation: pod annotation should be written as <namespace>/<network name>@<ifname>''
      else if isJsonAnnotation podNetworks
      then (case unmarshal podNetworks of
              Ok networks \<Rightarrow> Ok networks
            | Err e \<Rightarrow> Err (''parsePodNetworkAnnotation: failed to parse pod Network Attachment Selection Annotation JSON format: '' @ e)
            | Panic \<Rightarrow> Panic)
      else rmap parseItem (split (CHR '','') podNetworks))"


section \<open>Reading an annotation back\<close>

lemma isLabel_chars:
  assumes "isLabel s"
  shows "CHR '','' \<notin> set s" "CHR ''/'' \<notin> set s" "CHR ''@'' \<notin> set s" "CHR '' '' \<notin> set s" "trimSpace s = s"
    "\<not> isJsonAnnotation s"
proof -
  have d: "\<not> isAlnum (CHR '','')" "\<not> isAlnum (CHR ''/'')" "\<not> isAlnum (CHR ''@'')" "\<not> isAlnum (CHR '' '')"
    "\<not> isAlnum (CHR ''['')" "\<not> isAlnum (CHR ''{'')" "\<not> isAlnum (CHR 0x22)"
    "\<not> isAlnum (CHR 0x09)" "\<not> isAlnum (CHR 0x0A)" "\<not> isAlnum (CHR 0x0B)" "\<not> isAlnum (CHR 0x0C)" "\<not> isAlnum (CHR 0x0D)"
    by code_simp+
  have c: "isAlnum c \<or> c = CHR ''-''" if "c \<in> set s" for c using assms that by (auto simp: isLabel_def list_all_iff)
  show "CHR '','' \<notin> set s" "CHR ''/'' \<notin> set s" "CHR ''@'' \<notin> set s" "CHR '' '' \<notin> set s" using c d by force+
  show "\<not> isJsonAnnotation s" using c d by (force simp: isJsonAnnotation_def list_ex_iff)
  have sp: "\<not> isSpace c" if "isAlnum c" for c using that d by (auto simp: isSpace_def)
  show "trimSpace s = s" unfolding trimSpace_def
    by (rule trimBy_id) (use assms sp in \<open>auto simp: isLabel_def\<close>)
qed

definition optLabel :: "string \<Rightarrow> bool" where
  "optLabel s \<longleftrightarrow> s = [] \<or> isLabel s"

lemma optLabel_chars:
  assumes "optLabel s"
  shows "CHR '','' \<notin> set s" "CHR ''/'' \<notin> set s" "CHR ''@'' \<notin> set s" "trimSpace s = s" "\<not> isJsonAnnotation s"
  using assms isLabel_chars[of s] by (auto simp: optLabel_def isJsonAnnotation_def)

lemma checkItems_Ok: "checkItems items = Ok () \<longleftrightarrow> list_all optLabel items"
  by (induction items) (auto simp: optLabel_def)

lemma checkItems_no_panic: "checkItems items \<noteq> Panic"
  by (induction items) auto

text \<open>An object name as the annotation documents it: the namespace and the interface are optional.\<close>

fun objText :: "string \<times> string \<times> string \<Rightarrow> string" where
  "objText (nsn, name, ifn) = (if nsn = [] then [] else nsn @ ''/'') @ name @ (if ifn = [] then [] else ''@'' @ ifn)"

definition objOk :: "string \<times> string \<times> string \<Rightarrow> bool" where
  "objOk t \<longleftrightarrow> (case t of (nsn, name, ifn) \<Rightarrow> optLabel nsn \<and> isLabel name \<and> optLabel ifn)"

lemma parse_objText:
  assumes "objOk t"
  shows "parsePodNetworkObjectName (objText t) = Ok t"
proof -
  obtain nsn name ifn where t: "t = (nsn, name, ifn)" by (cases t)
  have l: "optLabel nsn" "optLabel name" "optLabel ifn" using assms by (auto simp: t objOk_def optLabel_def)
  note c = optLabel_chars[OF l(1)] optLabel_chars[OF l(2)] optLabel_chars[OF l(3)]
  define r where "r = name @ (if ifn = [] then [] else ''@'' @ ifn)"
  have at: "split (CHR ''@'') r = (if ifn = [] then [name] else [name, ifn])"
    using c by (simp add: r_def split_no_sep split_append_sep)
  have rs: "CHR ''/'' \<notin> set r" using c by (simp add: r_def)
  have sl: "split (CHR ''/'') (objText t) = (if nsn = [] then [r] else [nsn, r])"
    using c rs by (simp add: t r_def[symmetric] split_no_sep split_append_sep)
  have "checkItems [nsn, name, ifn] = Ok ()" using l unfolding checkItems_Ok by simp
  then show ?thesis
    using sl[unfolded t] at c(4) c(9) c(14)
    by (cases "nsn = []"; cases "ifn = []") (simp_all add: parsePodNetworkObjectName_def t Let_def del: checkItems.simps objText.simps)
qed

lemma objText_chars:
  assumes "objOk t"
  shows "CHR '','' \<notin> set (objText t)" "objText t \<noteq> []" "\<not> isJsonAnnotation (objText t)" "\<not> isSpace (hd (objText t))"
    "\<not> isSpace (last (objText t))"
proof -
  obtain nsn name ifn where t: "t = (nsn, name, ifn)" by (cases t)
  have l: "optLabel nsn" "isLabel name" "optLabel ifn" using assms by (auto simp: t objOk_def)
  note c = optLabel_chars[OF l(1)] isLabel_chars[OF l(2)] optLabel_chars[OF l(3)]
  show "CHR '','' \<notin> set (objText t)" using c by (simp add: t)
  show "objText t \<noteq> []" using l(2) by (simp add: t isLabel_def)
  show "\<not> isJsonAnnotation (objText t)" using c by (simp add: t isJsonAnnotation_def)
  have s: "\<not> isSpace c" if "isAlnum c" for c
    using that by (auto simp: isSpace_def isAlnum_def isDigit_def)
  show "\<not> isSpace (hd (objText t))" "\<not> isSpace (last (objText t))"
    using l s by (auto simp: t isLabel_def optLabel_def)
qed

lemma isJson_append: "isJsonAnnotation (a @ b) \<longleftrightarrow> isJsonAnnotation a \<or> isJsonAnnotation b"
  by (simp add: isJsonAnnotation_def)

lemma isJson_blanks: "\<not> isJsonAnnotation (replicate k (CHR '' ''))"
  by (induction k) (simp_all add: isJsonAnnotation_def)

lemma isJson_comma: "isJsonAnnotation (CHR '','' # s) = isJsonAnnotation s"
  by (simp add: isJsonAnnotation_def)

lemma trimSpace_blanks:
  assumes "s \<noteq> []" and "\<not> isSpace (hd s)" and "\<not> isSpace (last s)"
  shows "trimSpace (replicate k (CHR '' '') @ s) = s"
proof -
  have "isSpace (CHR '' '')" by (simp add: isSpace_def)
  then have "dropWhile isSpace (replicate k (CHR '' '') @ s) = dropWhile isSpace s" by (induction k) simp_all
  then show ?thesis using trimBy_id[of s isSpace] assms by (simp add: trimSpace_def trimBy_def)
qed

text \<open>C34. An annotation that lists networks as documented, \<^verbatim>\<open><namespace>/<network name>@<ifname>\<close> with optional
  namespace and interface, separated by commas and any number of blanks, is read as exactly these
  networks and interfaces, in order; the namespaces are dropped.\<close>

theorem annotation_roundtrip:
  assumes "items \<noteq> []" and "\<forall>(k, t) \<in> set items. objOk t"
  shows "ParsePodNetworkAnnotation unmarshal (join '','' (map (\<lambda>(k, t). replicate k (CHR '' '') @ objText t) items)) =
    Ok (map (\<lambda>(k, nsn, name, ifn). newElement name ifn) items)"
proof -
  define tx where "tx = (\<lambda>(k, t). replicate k (CHR '' '') @ objText t)"
  have ok: "objOk (snd i)" if "i \<in> set items" for i using assms(2) that by auto
  have nc: "CHR '','' \<notin> set (tx i)" if "i \<in> set items" for i
    using objText_chars(1)[OF ok[OF that]] by (auto simp: tx_def split: prod.splits)
  have sp: "split (CHR '','') (join [CHR '',''] (map tx items)) = map tx items"
    by (rule split_join) (use assms(1) nc in auto)
  have "isJsonAnnotation (join '','' xs) \<longleftrightarrow> (\<exists>x \<in> set xs. isJsonAnnotation x)" for xs
  proof (induction xs)
    case (Cons x xs)
    then show ?case by (cases "xs = []") (simp_all add: join_Cons isJson_append isJson_comma)
  qed (simp add: isJsonAnnotation_def)
  moreover have "\<not> isJsonAnnotation (tx i)" if "i \<in> set items" for i
    using objText_chars(3)[OF ok[OF that]] isJson_blanks by (cases i) (simp add: tx_def isJson_append)
  ultimately have j: "\<not> isJsonAnnotation (join '','' (map tx items))" by auto
  have ne: "join '','' (map tx items) \<noteq> []"
  proof
    assume "join '','' (map tx items) = []"
    then have "map tx items = [[]]" using sp by simp
    then show False using ok objText_chars(2) by (fastforce simp: tx_def)
  qed
  have "parseItem (tx i) = Ok ((\<lambda>(k, nsn, name, ifn). newElement name ifn) i)" if "i \<in> set items" for i
    using parse_objText[OF ok[OF that]] trimSpace_blanks[OF objText_chars(2,4,5)[OF ok[OF that]]]
    by (auto simp: parseItem_def tx_def split: prod.splits)
  then have "rmap parseItem (map tx items) = Ok (map (\<lambda>(k, nsn, name, ifn). newElement name ifn) items)"
    by (auto simp: rmap_Ok_iff list_all2_conv_all_nth)
  then show ?thesis using ne j sp by (simp add: ParsePodNetworkAnnotation_def tx_def)
qed

definition demo_nets :: "(nat \<times> string \<times> string \<times> string) list" where
  "demo_nets = [(0, ''kube-system'', ''tcnp-cni'', ''eth0''), (1, [], ''net2'', []), (2, [], ''net3'', ''eth1'')]"

theorem annotation_roundtrip_witness:
  "ParsePodNetworkAnnotation (\<lambda>_. Ok []) ''kube-system/tcnp-cni@eth0, net2,  net3@eth1'' =
     Ok [newElement ''tcnp-cni'' ''eth0'', newElement ''net2'' [], newElement ''net3'' ''eth1'']"
proof -
  have "list_all (\<lambda>(k, t). objOk t) demo_nets" by code_simp
  then have "\<forall>(k, t) \<in> set demo_nets. objOk t" by (auto simp: list_all_iff)
  moreover have "join '','' (map (\<lambda>(k, t). replicate k (CHR '' '') @ objText t) demo_nets) =
      ''kube-system/tcnp-cni@eth0, net2,  net3@eth1''" by code_simp
  ultimately show ?thesis using annotation_roundtrip[of demo_nets "\<lambda>_. Ok []"] by (simp add: demo_nets_def)
qed

section \<open>What an annotation can be read as\<close>

lemma parseObject_no_panic: "parsePodNetworkObjectName s \<noteq> Panic"
  using checkItems_no_panic
  by (auto simp: parsePodNetworkObjectName_def Let_def rbind_eq_Panic split: prod.splits)

lemma parseItem_labels:
  assumes "parseItem s = Ok el"
  shows "optLabel (ns_Name el) \<and> optLabel (ns_InterfaceRequest el) \<and> ns_Namespace el = []"
proof -
  obtain nsn name ifn where "parsePodNetworkObjectName (trimSpace s) = Ok (nsn, name, ifn)" "el = newElement name ifn"
    using assms by (auto simp: parseItem_def split: result.splits prod.splits)
  moreover from this(1) have "checkItems [nsn, name, ifn] = Ok ()"
    by (auto simp: parsePodNetworkObjectName_def Let_def rbind_eq_Ok simp del: checkItems.simps)
  ultimately show ?thesis unfolding checkItems_Ok by (simp add: newElement_def)
qed

lemma length_split: "length (split c s) = Suc (length (filter (\<lambda>x. x = c) s))"
proof (induction s)
  case (Cons x xs)
  obtain y ys where "split c xs = y # ys" by (cases "split c xs") auto
  then show ?case using Cons by auto
qed simp

text \<open>An annotation in the comma form never makes the parser panic, and when it is accepted there is one
  element per comma-separated item, every network name and interface is a DNS label or empty, and
  no element has a namespace. A missing network name is accepted too: a lone comma gives two
  elements without a name.\<close>

theorem annotation_elements_valid:
  assumes "\<not> isJsonAnnotation s"
  shows "(case ParsePodNetworkAnnotation unmarshal s of
      Ok els \<Rightarrow> length els = Suc (length (filter (\<lambda>c. c = CHR '','') s)) \<and>
        list_all (\<lambda>el. optLabel (ns_Name el) \<and> optLabel (ns_InterfaceRequest el) \<and> ns_Namespace el = []) els
    | Err e \<Rightarrow> True | Panic \<Rightarrow> False) \<and>
    ParsePodNetworkAnnotation unmarshal '','' = Ok [newElement [] [], newElement [] []]"
proof
  have np: "rmap parseItem xs \<noteq> Panic" for xs
    by (rule rmap_no_panic) (auto simp: parseItem_def parseObject_no_panic split: result.splits prod.splits)
  show "case ParsePodNetworkAnnotation unmarshal s of
      Ok els \<Rightarrow> length els = Suc (length (filter (\<lambda>c. c = CHR '','') s)) \<and>
        list_all (\<lambda>el. optLabel (ns_Name el) \<and> optLabel (ns_InterfaceRequest el) \<and> ns_Namespace el = []) els
    | Err e \<Rightarrow> True | Panic \<Rightarrow> False"
  proof (cases "ParsePodNetworkAnnotation unmarshal s")
    case (Ok els)
    then have r: "rmap parseItem (split (CHR '','') s) = Ok els"
      using assms by (auto simp: ParsePodNetworkAnnotation_def split: if_splits)
    then have "list_all2 (\<lambda>x y. parseItem x = Ok y) (split (CHR '','') s) els" by (simp add: rmap_Ok_iff)
    then have "\<exists>x. parseItem x = Ok el" if el: "el \<in> set els" for el
    proof -
      obtain i where "i < length els" "els ! i = el" using el by (auto simp: in_set_conv_nth)
      then show ?thesis using list_all2_nthD2[OF \<open>list_all2 _ _ els\<close>, of i] by metis
    qed
    then have "list_all (\<lambda>el. optLabel (ns_Name el) \<and> optLabel (ns_InterfaceRequest el) \<and> ns_Namespace el = []) els"
      using parseItem_labels unfolding list_all_iff by blast
    then show ?thesis using Ok rmap_Ok_length[OF r] by (simp add: length_split)
  qed (use assms np in \<open>auto simp: ParsePodNetworkAnnotation_def split: if_splits\<close>)
  have "parseItem [] = Ok (newElement [] [])" by code_simp
  then show "ParsePodNetworkAnnotation unmarshal '','' = Ok [newElement [] [], newElement [] []]"
    by (simp add: ParsePodNetworkAnnotation_def isJsonAnnotation_def)
qed

theorem annotation_elements_valid_witness:
  "case ParsePodNetworkAnnotation (\<lambda>_. Ok []) ''a/b,c@d'' of
      Ok els \<Rightarrow> length els = 2 \<and>
        list_all (\<lambda>el. optLabel (ns_Name el) \<and> optLabel (ns_InterfaceRequest el) \<and> ns_Namespace el = []) els
    | Err e \<Rightarrow> True | Panic \<Rightarrow> False"
proof -
  have "length (filter (\<lambda>c. c = CHR '','') ''a/b,c@d'') = 1" and "\<not> isJsonAnnotation ''a/b,c@d''" by code_simp+
  then show ?thesis using annotation_elements_valid[of "''a/b,c@d''" "\<lambda>_. Ok []"] by (simp split: result.splits)
qed

section \<open>Port files are read back\<close>

text \<open>C35. What \<^verbatim>\<open>SavePort\<close> stores for a container, \<^verbatim>\<open>ConsumePort\<close> returns, decoded, as long as the file is there:
  reading leaves it in place, saving again replaces it, the files of other containers are untouched,
  and after \<^verbatim>\<open>RemovePortFile\<close> the container has no ports any more.\<close>

theorem SavePort_ConsumePort:
  assumes "no_faults w" and "normalPart cid" and "map_of (sys_files w) stateDir = None"
    and "pathJoin stateDir cid \<notin> set (sys_dirs w)" and "SavePort cid data w = (r, w1)"
  shows "r = Ok () \<and> ConsumePort unmarshal cid w1 = ((if data = [] then Ok [] else unmarshal data), w1) \<and>
    (\<forall>cid'. normalPart cid' \<and> cid' \<noteq> cid \<longrightarrow>
       fst (ConsumePort unmarshal cid' w1) = fst (ConsumePort unmarshal cid' w)) \<and>
    (\<exists>w2. RemovePortFile cid w1 = (Ok (), w2) \<and> is_Err (fst (ConsumePort unmarshal cid w2)))"
proof -
  have sd: "stateDir \<noteq> []" "hd stateDir = CHR ''/''" "pathClean stateDir = stateDir" "dirPrefix stateDir = stateDir @ ''/''"
    by code_simp+
  note P = pathJoin_abs[OF sd(1,2)]
  define f where "f = pathJoin stateDir cid"
  have fe: "f = stateDir @ ''/'' @ cid" and fc: "pathClean f = f" using P(1,2)[OF assms(2)] sd(4) by (simp_all add: f_def)
  have "split (CHR ''/'') f = split (CHR ''/'') stateDir @ [cid]"
    unfolding fe by (rule split_snoc) (use assms(2) in \<open>simp add: normalPart_def\<close>)
  moreover have "join ''/'' (split (CHR ''/'') stateDir) = stateDir" by code_simp
  ultimately have pd: "parentDir f = stateDir" using sd(1) fc by (simp add: parentDir_def Let_def)
  define w1' where "w1' = w\<lparr>sys_dirs := List.insert stateDir (sys_dirs w), sys_files := AList.update f data (AList.update f [] (sys_files w))\<rparr>"
  have ne: "f \<noteq> stateDir" by (simp add: fe)
  have S: "SavePort cid data w = (Ok (), w1')"
    using assms(1,3,4) sd fc pd ne
    by (simp add: SavePort_def ioWriteFile_def osMkdirAll_def osOpenTrunc_def osWriteString_def osClose_def guardFault_def
      no_faults_def act_simps f_def[symmetric] w1'_def)
  then have r: "r = Ok ()" "w1 = w1'" using assms(5) by simp_all
  have m: "map_of (sys_files w1') = (map_of (sys_files w))(f \<mapsto> data)" by (simp add: w1'_def update_conv')
  have nf: "no_faults w1'" using assms(1) by (simp add: w1'_def no_faults_def)
  have C: "ConsumePort unmarshal cid w1' = ((if data = [] then Ok [] else unmarshal data), w1')"
    using m nf fc by (simp add: ConsumePort_def osReadFile_def guardFault_def no_faults_def act_simps f_def[symmetric])
  have O: "fst (ConsumePort unmarshal cid' w1') = fst (ConsumePort unmarshal cid' w)" if c: "normalPart cid'" "cid' \<noteq> cid" for cid'
  proof -
    have "pathClean (pathJoin stateDir cid') \<noteq> f" using P(1,2)[OF c(1)] sd(4) c(2) by (simp add: fe)
    then have "map_of (sys_files w1') (pathClean (pathJoin stateDir cid')) = map_of (sys_files w) (pathClean (pathJoin stateDir cid'))"
      by (simp add: m)
    then show ?thesis using nf assms(1)
      by (auto simp: ConsumePort_def osReadFile_def guardFault_def no_faults_def act_simps split: option.splits)
  qed
  have R: "RemovePortFile cid w1' = (Ok (), w1'\<lparr>sys_files := AList.delete f (sys_files w1')\<rparr>)"
    using m nf fc by (simp add: RemovePortFile_def osRemove_def guardFault_def no_faults_def f_def[symmetric])
  have "is_Err (fst (ConsumePort unmarshal cid (w1'\<lparr>sys_files := AList.delete f (sys_files w1')\<rparr>)))"
    using nf fc by (simp add: ConsumePort_def osReadFile_def guardFault_def no_faults_def act_simps f_def[symmetric] delete_conv')
  then show ?thesis using r C O R by blast
qed

definition demo_files :: "unit sys" where
  "demo_files = \<lparr>sys_cloud = (), sys_files = [], sys_dirs = [], sys_flocks = [], sys_mutexes = [], sys_ports = [],
     sys_hostname = None, sys_fault = (\<lambda>_. None)\<rparr>"

theorem SavePort_ConsumePort_witness:
  "fst (SavePort ''c1'' ''[]'' demo_files) = Ok () \<and>
   fst (ConsumePort (\<lambda>_. Ok []) ''c1'' (snd (SavePort ''c1'' ''[]'' demo_files))) = Ok []"
  using SavePort_ConsumePort[of demo_files "''c1''" "''[]''" "fst (SavePort ''c1'' ''[]'' demo_files)"
    "snd (SavePort ''c1'' ''[]'' demo_files)" "\<lambda>_. Ok []"]
  by (simp add: no_faults_def demo_files_def normalPart_def)

end
