(* ===== verification/Lifecycle.thy ===== *)
theory Lifecycle
  imports K8s "HOL-Library.Sublist"
begin

text \<open>
  The two programs around the controllers, \<^verbatim>\<open>cmd/network-policy-controller/main.go\<close> and
  \<^verbatim>\<open>cmd/veth-route-controller/main.go\<close>, with \<^verbatim>\<open>pkg/signals\<close> and \<^verbatim>\<open>pkg/client\<close>. The files differ in the body
  of \<^verbatim>\<open>run\<close> only. A process is the record \<open>proc\<close>: where its main goroutine is, where \<^verbatim>\<open>run\<close> is, and the state of the
  package \<^verbatim>\<open>signals\<close>. \<open>pnext\<close> is what an event does to it, an event being a signal, a turn of one of its goroutines, or
  an answer of the API server; an event that cannot happen in a state changes nothing. A schedule is a list of events, so
  that a statement about all lists is one about all interleavings.
\<close>

section \<open>The package signals\<close>

datatype osSignal = Interrupt | SIGTERM

datatype platform = Posix | Windows

fun shutdownSignals :: "platform \<Rightarrow> osSignal list" where
  "shutdownSignals Posix = [Interrupt, SIGTERM]"
| "shutdownSignals Windows = [Interrupt]"

text \<open>
  \<open>sh_onlyOne\<close>: the channel \<^verbatim>\<open>onlyOneSignalHandler\<close> is closed; \<open>sh_c\<close>: the number of signals in the channel \<^verbatim>\<open>c\<close>;
  \<open>sh_first\<close>: the goroutine is past its first receive; \<open>sh_stop\<close>: the channel \<^verbatim>\<open>stop\<close> is closed.
\<close>

record shutdown =
  sh_onlyOne :: bool
  sh_c :: nat
  sh_first :: bool
  sh_stop :: bool

definition noHandler :: shutdown where
  "noHandler = \<lparr>sh_onlyOne = False, sh_c = 0, sh_first = False, sh_stop = False\<rparr>"

definition SetupSignalHandler :: "shutdown \<Rightarrow> shutdown result" where
  "SetupSignalHandler h = (if sh_onlyOne h then Panic
     else Ok \<lparr>sh_onlyOne = True, sh_c = 0, sh_first = False, sh_stop = False\<rparr>)"

text \<open>How a process ends: with an exit code, by a panic, or by the default action of a signal.\<close>

datatype ending = Exit nat | Crash | Killed

text \<open>
  \<^verbatim>\<open>signal.Notify\<close> sends a signal to the channel, which holds two, and drops it when the channel is full. A signal that is
  not notified ends the process.
\<close>

definition deliver :: "platform \<Rightarrow> osSignal \<Rightarrow> shutdown \<Rightarrow> ending + shutdown" where
  "deliver pl sg h = (if sh_onlyOne h \<and> sg \<in> set (shutdownSignals pl) then Inr (h\<lparr>sh_c := min 2 (sh_c h + 1)\<rparr>) else Inl Killed)"

text \<open>One receive of the goroutine that \<^verbatim>\<open>SetupSignalHandler\<close> starts.\<close>

definition handlerGo :: "shutdown \<Rightarrow> ending + shutdown" where
  "handlerGo h =
     (if \<not> sh_onlyOne h \<or> sh_c h = 0 then Inr h
      else if \<not> sh_first h then Inr (h\<lparr>sh_c := sh_c h - 1, sh_first := True, sh_stop := True\<rparr>)
      else Inl (Exit 1))"

section \<open>The main functions\<close>

datatype program = NetworkPolicyController | VethRouteController

record flags =
  fl_kubeconfig :: string
  fl_master :: string
  fl_LeaderElect :: bool
  fl_LockNameSpace :: string
  fl_LockName :: string
  fl_LockComponentName :: string
  fl_LeaseDuration :: int
  fl_RenewDeadline :: int
  fl_RetryPeriod :: int

text \<open>The values of the flags that are not given; a \<^verbatim>\<open>time.Duration\<close> counts nanoseconds.\<close>

definition second :: int where "second = 1000000000"

definition defaultFlags :: "program \<Rightarrow> flags" where
  "defaultFlags pg =
     \<lparr>fl_kubeconfig = [], fl_master = [], fl_LeaderElect = False, fl_LockNameSpace = ''kube-system'',
      fl_LockName = ''kong-controller-leader-elect-lock'', fl_LockComponentName = ''leader-elector'',
      fl_LeaseDuration = 15 * second, fl_RenewDeadline = 10 * second, fl_RetryPeriod = 2 * second\<rparr>"

text \<open>The libraries the programs call while they start.\<close>

record ('cfg, 'cl, 'lk) libs =
  lb_InClusterConfig :: "'cfg result"
  lb_BuildConfigFromFlags :: "string \<Rightarrow> string \<Rightarrow> 'cfg result"
  lb_NewForConfig :: "'cfg \<Rightarrow> 'cl result"
  lb_Hostname :: "string result"
  lb_resourcelock_New :: "string \<Rightarrow> string \<Rightarrow> string \<Rightarrow> 'cl \<Rightarrow> 'lk result"
  lb_NewLeaderElector :: "'lk \<Rightarrow> int \<Rightarrow> int \<Rightarrow> int \<Rightarrow> unit result"
  lb_NewNeutronRouter :: "unit result"
  lb_hostnameOverride :: string
  lb_MY_NODE_NAME :: string

definition GetInClusterClientSet :: "('cfg, 'cl, 'lk) libs \<Rightarrow> 'cl result" where
  "GetInClusterClientSet L = rbind (lb_InClusterConfig L) (lb_NewForConfig L)"

definition GetClusterClientSetWithKC :: "('cfg, 'cl, 'lk) libs \<Rightarrow> string \<Rightarrow> string \<Rightarrow> 'cl result" where
  "GetClusterClientSetWithKC L masterURL kubeconfig = rbind (lb_BuildConfigFromFlags L masterURL kubeconfig) (lb_NewForConfig L)"

definition hostname :: "('cfg, 'cl, 'lk) libs \<Rightarrow> string result" where
  "hostname L = (case lb_Hostname L of Ok h \<Rightarrow> Ok h | _ \<Rightarrow> Panic)"

text \<open>
  The main goroutine runs \<^verbatim>\<open>run\<close> itself, tries to acquire the lease, renews it, or has ended, with the process. \<^verbatim>\<open>run\<close>
  is not called, at its first statement, after the signal handler is installed, waiting in \<^verbatim>\<open>WaitForCacheSync\<close> (the
  route controller only), waiting for the stop channel, or has returned.
\<close>

datatype mphase = M_Run | M_Acquire | M_Renew | M_Ended ending

datatype rphase = R_None | R_Enter | R_Create | R_Sync | R_Serve | R_Done

record proc =
  p_main :: mphase
  p_run :: rphase
  p_sig :: shutdown
  p_synced :: bool

definition ended :: "ending \<Rightarrow> proc \<Rightarrow> proc" where
  "ended e p = p\<lparr>p_main := M_Ended e\<rparr>"

definition alive :: "proc \<Rightarrow> bool" where
  "alive p = (case p_main p of M_Ended _ \<Rightarrow> False | _ \<Rightarrow> True)"

definition proc0 :: "mphase \<Rightarrow> rphase \<Rightarrow> proc" where
  "proc0 m r = \<lparr>p_main = m, p_run = r, p_sig = noHandler, p_synced = False\<rparr>"

text \<open>
  \<^verbatim>\<open>main\<close> up to the call of \<^verbatim>\<open>run\<close> or into \<^verbatim>\<open>RunOrDie\<close>. \<^verbatim>\<open>klog.Fatalf\<close> exits with code 255; \<open>lb_NewLeaderElector\<close> checks the
  configuration, and \<^verbatim>\<open>RunOrDie\<close> panics when it is refused.
\<close>

definition elect :: "('cfg, 'cl, 'lk) libs \<Rightarrow> flags \<Rightarrow> 'cl \<Rightarrow> proc" where
  "elect L fl kubeClient =
     (case rbind (hostname L) (\<lambda>h. lb_resourcelock_New L (fl_LockNameSpace fl) (fl_LockName fl) h kubeClient) of
        Ok rl \<Rightarrow>
          (case lb_NewLeaderElector L rl (fl_LeaseDuration fl) (fl_RenewDeadline fl) (fl_RetryPeriod fl) of
             Ok _ \<Rightarrow> proc0 M_Acquire R_None
           | _ \<Rightarrow> proc0 (M_Ended Crash) R_None)
      | _ \<Rightarrow> proc0 (M_Ended Crash) R_None)"

definition main_start :: "('cfg, 'cl, 'lk) libs \<Rightarrow> flags \<Rightarrow> proc" where
  "main_start L fl =
     (case (case GetInClusterClientSet L of
              Err _ \<Rightarrow> GetClusterClientSetWithKC L (fl_master fl) (fl_kubeconfig fl)
            | r \<Rightarrow> r) of
        Ok kubeClient \<Rightarrow> if \<not> fl_LeaderElect fl then proc0 M_Run R_Enter else elect L fl kubeClient
      | Err _ \<Rightarrow> proc0 (M_Ended (Exit 255)) R_None
      | Panic \<Rightarrow> proc0 (M_Ended Crash) R_None)"

text \<open>The callbacks of the election. \<^verbatim>\<open>StartedLeading\<close> runs in a goroutine of its own; \<^verbatim>\<open>NewLeader\<close> only logs.\<close>

definition StartedLeading :: "('cfg, 'cl, 'lk) libs \<Rightarrow> proc \<Rightarrow> proc" where
  "StartedLeading L p = (case hostname L of Ok _ \<Rightarrow> p\<lparr>p_run := R_Enter\<rparr> | _ \<Rightarrow> ended Crash p)"

definition StoppedLeading :: "('cfg, 'cl, 'lk) libs \<Rightarrow> proc \<Rightarrow> proc" where
  "StoppedLeading L p = (case hostname L of Ok _ \<Rightarrow> ended (Exit 0) p | _ \<Rightarrow> ended Crash p)"

definition NewLeader :: "('cfg, 'cl, 'lk) libs \<Rightarrow> string \<Rightarrow> proc \<Rightarrow> proc" where
  "NewLeader L leader p = (case hostname L of Ok _ \<Rightarrow> p | _ \<Rightarrow> ended Crash p)"

text \<open>\<^verbatim>\<open>run\<close> has returned: the end of the process when it was called by \<^verbatim>\<open>main\<close>, else the end of its goroutine.\<close>

definition runReturns :: "proc \<Rightarrow> proc" where
  "runReturns p = (if p_main p = M_Run then ended (Exit 0) (p\<lparr>p_run := R_Done\<rparr>) else p\<lparr>p_run := R_Done\<rparr>)"

text \<open>
  What \<^verbatim>\<open>run\<close> creates once it has the stop channel. \<^verbatim>\<open>NewPolicyManager\<close> asks for the host name and ends the process without
  one; \<^verbatim>\<open>run\<close> then starts the informers and the periodic \<^verbatim>\<open>pm.Run\<close> and waits. The route controller panics without a router,
  and \<^verbatim>\<open>Controller.Run\<close> first waits for the caches.
\<close>

definition run_policy :: "('cfg, 'cl, 'lk) libs \<Rightarrow> proc \<Rightarrow> proc" where
  [simp]: "run_policy L p =
     (case GetHostname (lb_hostnameOverride L) (lb_MY_NODE_NAME L) (lb_Hostname L) of
        Ok _ \<Rightarrow> p\<lparr>p_run := R_Serve\<rparr> | _ \<Rightarrow> ended (Exit 255) p)"

definition run_route :: "('cfg, 'cl, 'lk) libs \<Rightarrow> proc \<Rightarrow> proc" where
  [simp]: "run_route L p = (case lb_NewNeutronRouter L of Ok _ \<Rightarrow> p\<lparr>p_run := R_Sync\<rparr> | _ \<Rightarrow> ended Crash p)"

text \<open>
  A turn of \<^verbatim>\<open>run\<close>. \<open>noticed\<close>: in \<^verbatim>\<open>WaitForCacheSync\<close> the closed stop channel is noticed before the caches are found synced.
\<close>

definition run_go :: "('cfg, 'cl, 'lk) libs \<Rightarrow> program \<Rightarrow> bool \<Rightarrow> proc \<Rightarrow> proc" where
  "run_go L pg noticed p =
     (case p_run p of
        R_Enter \<Rightarrow> (case SetupSignalHandler (p_sig p) of Ok h \<Rightarrow> p\<lparr>p_sig := h, p_run := R_Create\<rparr> | _ \<Rightarrow> ended Crash p)
      | R_Create \<Rightarrow> (case pg of NetworkPolicyController \<Rightarrow> run_policy L p | VethRouteController \<Rightarrow> run_route L p)
      | R_Sync \<Rightarrow>
          (if sh_stop (p_sig p) \<and> (noticed \<or> \<not> p_synced p) then ended (Exit 255) p
           else if p_synced p then p\<lparr>p_run := R_Serve\<rparr> else p)
      | R_Serve \<Rightarrow> if sh_stop (p_sig p) then runReturns p else p
      | _ \<Rightarrow> p)"

datatype pevent = Signalled osSignal | HandlerGo | RunGo bool | CacheSynced | Acquired | Renewed | RenewFailed | LeaderSeen string

definition withSig :: "(ending + shutdown) \<Rightarrow> proc \<Rightarrow> proc" where
  "withSig r p = (case r of Inl e \<Rightarrow> ended e p | Inr h \<Rightarrow> p\<lparr>p_sig := h\<rparr>)"

text \<open>The informers are started by \<^verbatim>\<open>run\<close>, after the controller is made.\<close>

definition informing :: "proc \<Rightarrow> bool" where
  "informing p \<longleftrightarrow> p_run p \<in> {R_Sync, R_Serve}"

definition pnext :: "platform \<Rightarrow> ('cfg, 'cl, 'lk) libs \<Rightarrow> program \<Rightarrow> proc \<Rightarrow> pevent \<Rightarrow> proc" where
  "pnext pl L pg p ev =
     (if \<not> alive p then p
      else case ev of
        Signalled sg \<Rightarrow> withSig (deliver pl sg (p_sig p)) p
      | HandlerGo \<Rightarrow> withSig (handlerGo (p_sig p)) p
      | RunGo noticed \<Rightarrow> run_go L pg noticed p
      | CacheSynced \<Rightarrow> if informing p then p\<lparr>p_synced := True\<rparr> else p
      | Acquired \<Rightarrow> if p_main p = M_Acquire then StartedLeading L (p\<lparr>p_main := M_Renew\<rparr>) else p
      | Renewed \<Rightarrow> p
      | RenewFailed \<Rightarrow> if p_main p = M_Renew then StoppedLeading L p else p
      | LeaderSeen leader \<Rightarrow> if p_main p \<in> {M_Acquire, M_Renew} then NewLeader L leader p else p)"

definition pexec :: "platform \<Rightarrow> ('cfg, 'cl, 'lk) libs \<Rightarrow> program \<Rightarrow> pevent list \<Rightarrow> proc \<Rightarrow> proc" where
  "pexec pl L pg evs p = foldl (pnext pl L pg) p evs"

section \<open>What every schedule keeps\<close>

text \<open>The invariant of a process; \<open>le\<close> is the flag \<^verbatim>\<open>leader-elect\<close>.\<close>

definition proc_ok :: "bool \<Rightarrow> proc \<Rightarrow> bool" where
  "proc_ok le p \<longleftrightarrow> (alive p \<longrightarrow>
     (p_run p \<in> {R_None, R_Enter} \<longrightarrow> p_sig p = noHandler) \<and>
     (p_run p \<notin> {R_None, R_Enter} \<longrightarrow> sh_onlyOne (p_sig p)) \<and>
     (sh_stop (p_sig p) = sh_first (p_sig p)) \<and>
     (le \<longrightarrow> p_main p = (if p_run p = R_None then M_Acquire else M_Renew)) \<and>
     (\<not> le \<longrightarrow> p_main p = M_Run \<and> p_run p \<notin> {R_None, R_Done}))"

lemma alive_simps [simp]:
  "\<not> alive (ended e p)" "alive (p\<lparr>p_sig := h\<rparr>) = alive p" "alive (p\<lparr>p_run := r\<rparr>) = alive p"
  "alive (p\<lparr>p_synced := b\<rparr>) = alive p" "alive (proc0 M_Run r)" "alive (proc0 M_Acquire r)" "\<not> alive (proc0 (M_Ended e) r)"
  by (simp_all add: alive_def ended_def proc0_def)

lemma proc_ok_start: "proc_ok (fl_LeaderElect fl) (main_start L fl)"
  by (auto simp: main_start_def elect_def proc_ok_def proc0_def noHandler_def alive_def split: result.splits)

lemma proc_ok_dead: "\<not> alive p \<Longrightarrow> proc_ok le p"
  by (simp add: proc_ok_def)

lemma proc_ok_run:
  assumes "proc_ok le p" and "alive p"
  shows "proc_ok le (run_go L pg b p)"
proof (cases "p_run p")
  case R_Enter
  then show ?thesis using assms
    by (auto simp: run_go_def SetupSignalHandler_def noHandler_def proc_ok_def)
qed (use assms in \<open>auto simp: run_go_def runReturns_def proc_ok_def split: program.splits result.splits\<close>)

lemma proc_ok_next:
  assumes "proc_ok le p"
  shows "proc_ok le (pnext pl L pg p ev)"
proof (cases "alive p")
  case True
  show ?thesis
  proof (cases ev)
    case (RunGo b)
    then show ?thesis using True proc_ok_run[OF assms True] by (simp add: pnext_def)
  next
    case (Signalled sg)
    then show ?thesis using assms True by (auto simp: pnext_def withSig_def deliver_def proc_ok_def noHandler_def)
  next
    case HandlerGo
    then show ?thesis using assms True by (auto simp: pnext_def withSig_def handlerGo_def proc_ok_def noHandler_def)
  next
    case Acquired
    then show ?thesis using assms True
      by (auto simp: pnext_def StartedLeading_def proc_ok_def split: result.splits if_splits)
  qed (use assms True in \<open>auto simp: pnext_def StoppedLeading_def NewLeader_def proc_ok_def split: result.splits if_splits\<close>)
qed (simp add: proc_ok_dead pnext_def)

lemma pexec_simps [simp]:
  "pexec pl L pg [] p = p" "pexec pl L pg (ev # evs) p = pexec pl L pg evs (pnext pl L pg p ev)"
  "pexec pl L pg (evs @ evs') p = pexec pl L pg evs' (pexec pl L pg evs p)"
  by (simp_all add: pexec_def)

text \<open>Induction over a schedule for what no event breaks.\<close>

lemma pexec_keeps:
  assumes "I p" and "\<And>q ev. ev \<in> set evs \<Longrightarrow> I q \<Longrightarrow> I (pnext pl L pg q ev)"
  shows "I (pexec pl L pg evs p)"
  using assms
proof (induction evs arbitrary: p)
  case (Cons ev evs)
  show ?case unfolding pexec_simps by (rule Cons.IH) (use Cons.prems in auto)
qed simp

lemma proc_ok_exec: "proc_ok le p \<Longrightarrow> proc_ok le (pexec pl L pg evs p)"
  by (rule pexec_keeps[where I = "proc_ok le"]) (simp_all add: proc_ok_next)

lemma reached_ok: "proc_ok (fl_LeaderElect fl) (pexec pl L pg evs (main_start L fl))"
  by (rule proc_ok_exec[OF proc_ok_start])

lemma dead_next: "\<not> alive p \<Longrightarrow> pnext pl L pg p ev = p"
  by (simp add: pnext_def)

lemma dead_exec: "\<not> alive p \<Longrightarrow> pexec pl L pg evs p = p"
  by (induction evs) (simp_all add: dead_next)

text \<open>
  The stages of a shutdown, none of which an event takes back: the handler is installed; a signal waits in the channel or
  was received; the stop channel is closed; \<^verbatim>\<open>run\<close> has at most \<open>k\<close> turns left.
\<close>

fun turnsLeft :: "rphase \<Rightarrow> nat" where
  "turnsLeft R_Create = 3"
| "turnsLeft R_Sync = 2"
| "turnsLeft R_Serve = 1"
| "turnsLeft _ = 0"

definition installed :: "nat \<Rightarrow> proc \<Rightarrow> bool" where
  "installed k p \<longleftrightarrow> (alive p \<longrightarrow> p_main p \<noteq> M_Acquire \<and> p_run p \<notin> {R_None, R_Enter} \<and> turnsLeft (p_run p) \<le> k \<and>
     sh_onlyOne (p_sig p) \<and> sh_stop (p_sig p) = sh_first (p_sig p))"

definition warned :: "nat \<Rightarrow> proc \<Rightarrow> bool" where
  "warned k p \<longleftrightarrow> installed k p \<and> (alive p \<longrightarrow> sh_c (p_sig p) > 0 \<or> sh_stop (p_sig p))"

definition stopping :: "nat \<Rightarrow> proc \<Rightarrow> bool" where
  "stopping k p \<longleftrightarrow> installed k p \<and> (alive p \<longrightarrow> sh_stop (p_sig p))"

lemmas stage_defs = installed_def warned_def stopping_def

lemma run_go_later:
  assumes "alive p" and "alive (run_go L pg b p)" and "p_run p \<notin> {R_None, R_Enter}"
  shows "p_main (run_go L pg b p) = p_main p \<and> p_run (run_go L pg b p) \<notin> {R_None, R_Enter} \<and> p_sig (run_go L pg b p) = p_sig p \<and>
    turnsLeft (p_run (run_go L pg b p)) \<le> turnsLeft (p_run p) \<and>
    (sh_stop (p_sig p) \<longrightarrow> turnsLeft (p_run (run_go L pg b p)) \<le> turnsLeft (p_run p) - 1)"
  using assms by (cases "p_run p") (auto simp: run_go_def runReturns_def split: program.splits result.splits if_splits)

text \<open>What an event does to a process it leaves alive, once the handler is installed.\<close>

lemma next_later:
  assumes "installed k p" and "alive p" and "alive (pnext pl L pg p ev)"
  defines "q \<equiv> pnext pl L pg p ev"
  shows "installed k q" and "sh_stop (p_sig p) \<Longrightarrow> sh_stop (p_sig q)"
    and "sh_c (p_sig p) > 0 \<or> sh_stop (p_sig p) \<Longrightarrow> sh_c (p_sig q) > 0 \<or> sh_stop (p_sig q)"
proof -
  have "installed k q \<and> (sh_stop (p_sig p) \<longrightarrow> sh_stop (p_sig q)) \<and>
    (sh_c (p_sig p) > 0 \<or> sh_stop (p_sig p) \<longrightarrow> sh_c (p_sig q) > 0 \<or> sh_stop (p_sig q))"
  proof (cases ev)
    case (RunGo b)
    then show ?thesis using assms run_go_later[of p L pg b] by (auto simp: pnext_def installed_def)
  next
    case Acquired
    then show ?thesis using assms by (auto simp: pnext_def installed_def StartedLeading_def split: result.splits if_splits)
  qed (use assms in \<open>auto simp: pnext_def installed_def withSig_def deliver_def handlerGo_def StoppedLeading_def NewLeader_def
      split: result.splits if_splits\<close>)
  then show "installed k q" "sh_stop (p_sig p) \<Longrightarrow> sh_stop (p_sig q)"
    "sh_c (p_sig p) > 0 \<or> sh_stop (p_sig p) \<Longrightarrow> sh_c (p_sig q) > 0 \<or> sh_stop (p_sig q)" by blast+
qed

lemma installed_next: "installed k p \<Longrightarrow> installed k (pnext pl L pg p ev)"
  by (cases "alive p"; cases "alive (pnext pl L pg p ev)") (use next_later[of k p pl L pg ev] in \<open>auto simp: installed_def dead_next\<close>)

lemma warned_next: "warned k p \<Longrightarrow> warned k (pnext pl L pg p ev)"
  by (cases "alive p"; cases "alive (pnext pl L pg p ev)") (use next_later[of k p pl L pg ev] in \<open>auto simp: stage_defs dead_next\<close>)

lemma stopping_next: "stopping k p \<Longrightarrow> stopping k (pnext pl L pg p ev)"
  by (cases "alive p"; cases "alive (pnext pl L pg p ev)") (use next_later[of k p pl L pg ev] in \<open>auto simp: stage_defs dead_next\<close>)

text \<open>The events that bring a shutdown from one stage to the next.\<close>

lemma installed_signal: "installed k p \<Longrightarrow> warned k (pnext pl L pg p (Signalled sg))"
  by (auto simp: stage_defs pnext_def withSig_def deliver_def)

lemma warned_handler: "warned k p \<Longrightarrow> stopping k (pnext pl L pg p HandlerGo)"
  by (auto simp: stage_defs pnext_def withSig_def handlerGo_def)

lemma stopping_run: "stopping (Suc k) p \<Longrightarrow> stopping k (pnext pl L pg p (RunGo b))"
proof (cases "alive p \<and> alive (pnext pl L pg p (RunGo b))")
  case True
  moreover assume "stopping (Suc k) p"
  ultimately show ?thesis using run_go_later[of p L pg b] by (auto simp: stage_defs pnext_def)
qed (auto simp: stage_defs dead_next)

text \<open>A stage is reached at the end of every schedule in which its event comes after the stage before.\<close>

lemma pexec_stage:
  assumes "subseq (e # es) evs" and "P p" and "\<And>q ev. P q \<Longrightarrow> P (pnext pl L pg q ev)"
    and "\<And>q. P q \<Longrightarrow> Q (pnext pl L pg q e)" and "\<And>q evs. subseq es evs \<Longrightarrow> Q q \<Longrightarrow> R (pexec pl L pg evs q)"
  shows "R (pexec pl L pg evs p)"
proof -
  obtain us vs where e: "evs = us @ e # vs" "subseq es vs" using list_emb_ConsD[OF assms(1)] by blast
  have "P (pexec pl L pg us p)" by (rule pexec_keeps[where I = P]) (use assms(2,3) in auto)
  then show ?thesis using assms(4,5) e by simp
qed

lemma stopping_turns: "subseq (map RunGo bs) evs \<Longrightarrow> stopping (length bs + k) p \<Longrightarrow> stopping k (pexec pl L pg evs p)"
proof (induction bs arbitrary: evs p)
  case Nil
  show ?case by (rule pexec_keeps[where I = "stopping k"]) (use Nil stopping_next in auto)
next
  case (Cons b bs)
  show ?case
    by (rule pexec_stage[where e = "RunGo b" and es = "map RunGo bs" and P = "stopping (length (b # bs) + k)" and Q = "stopping (length bs + k)"])
      (use Cons stopping_next stopping_run in auto)
qed

lemma shutdown_stages:
  assumes "installed (length bs) p" and "subseq (Signalled sg # HandlerGo # map RunGo bs) evs"
  shows "stopping 0 (pexec pl L pg evs p)"
proof (rule pexec_stage[where P = "installed (length bs)" and Q = "warned (length bs)", OF assms(2,1) installed_next installed_signal])
  fix q evs assume s: "subseq (HandlerGo # map RunGo bs) evs" and q: "warned (length bs) q"
  show "stopping 0 (pexec pl L pg evs q)"
    by (rule pexec_stage[where P = "warned (length bs)" and Q = "stopping (length bs)", OF s q warned_next warned_handler])
      (use stopping_turns[where bs = bs and k = 0] in simp_all)
qed

text \<open>The only event that moves the main goroutine of a process it leaves alive is the lease.\<close>

lemma main_next:
  assumes "alive p" and "alive (pnext pl L pg p ev)"
  shows "p_main (pnext pl L pg p ev) = (if ev = Acquired \<and> p_main p = M_Acquire then M_Renew else p_main p)"
    and "\<not> (ev = RenewFailed \<and> p_main p = M_Renew)"
proof -
  have "p_main (pnext pl L pg p ev) = (if ev = Acquired \<and> p_main p = M_Acquire then M_Renew else p_main p) \<and>
    \<not> (ev = RenewFailed \<and> p_main p = M_Renew)"
  proof (cases ev)
    case (RunGo b)
    then show ?thesis using assms
      by (cases "p_run p") (auto simp: pnext_def run_go_def runReturns_def split: program.splits result.splits if_splits)
  qed (use assms in \<open>auto simp: pnext_def withSig_def deliver_def handlerGo_def StartedLeading_def StoppedLeading_def NewLeader_def
      split: result.splits if_splits\<close>)
  then show "p_main (pnext pl L pg p ev) = (if ev = Acquired \<and> p_main p = M_Acquire then M_Renew else p_main p)"
    "\<not> (ev = RenewFailed \<and> p_main p = M_Renew)" by blast+
qed

section \<open>The programs\<close>

definition demo_libs :: "(unit, unit, unit) libs" where
  "demo_libs = \<lparr>lb_InClusterConfig = Err ''not in a cluster'', lb_BuildConfigFromFlags = (\<lambda>_ _. Ok ()), lb_NewForConfig = (\<lambda>_. Ok ()),
     lb_Hostname = Ok ''node1'', lb_resourcelock_New = (\<lambda>_ _ _ _. Ok ()), lb_NewLeaderElector = (\<lambda>_ _ _ _. Ok ()),
     lb_NewNeutronRouter = Ok (), lb_hostnameOverride = [], lb_MY_NODE_NAME = []\<rparr>"

abbreviation demo_flags :: "bool \<Rightarrow> flags" where
  "demo_flags le \<equiv> (defaultFlags VethRouteController)\<lparr>fl_LeaderElect := le\<rparr>"

text \<open>C12. Without leader election one signal stops a program, wherever its \<^verbatim>\<open>run\<close> is once the signal handler is installed:
  it has ended at the end of every schedule in which the signal is followed by a turn of the handler and three turns of
  \<^verbatim>\<open>run\<close>, whatever comes in between.\<close>

theorem signal_stops_program:
  assumes "\<not> fl_LeaderElect fl" and "p = pexec pl L pg evs0 (main_start L fl)" and "p_run p \<notin> {R_None, R_Enter}"
    and "subseq [Signalled sg, HandlerGo, RunGo b1, RunGo b2, RunGo b3] evs"
  shows "\<not> alive (pexec pl L pg evs p)"
proof -
  let ?q = "pexec pl L pg evs p"
  have ok: "proc_ok False p" "proc_ok False ?q" using reached_ok[of fl pl L pg evs0] proc_ok_exec assms(1,2) by auto
  have "turnsLeft r \<le> 3" for r by (cases r) simp_all
  then have "installed 3 p" using ok(1) assms(3) by (auto simp: proc_ok_def installed_def)
  then have "stopping 0 ?q" using shutdown_stages[of "[b1, b2, b3]" p sg evs] assms(4) by (simp add: eval_nat_numeral)
  moreover have "turnsLeft r \<le> 0 \<longleftrightarrow> r \<in> {R_None, R_Enter, R_Done}" for r by (cases r) auto
  ultimately show ?thesis using ok(2) by (auto simp: proc_ok_def stage_defs)
qed

theorem signal_stops_program_witness:
  "\<not> alive (pexec Posix demo_libs VethRouteController
      [CacheSynced, Signalled SIGTERM, Renewed, HandlerGo, RunGo False, RunGo False, RunGo False]
      (pexec Posix demo_libs VethRouteController [RunGo False, RunGo False] (main_start demo_libs (demo_flags False))))"
proof (rule signal_stops_program[where sg = SIGTERM and pl = Posix and L = demo_libs and pg = VethRouteController,
      where ?b1.0 = False and ?b2.0 = False and ?b3.0 = False, OF _ refl])
  show "\<not> fl_LeaderElect (demo_flags False)" by simp
  show "p_run (pexec Posix demo_libs VethRouteController [RunGo False, RunGo False] (main_start demo_libs (demo_flags False)))
    \<notin> {R_None, R_Enter}" by code_simp
  show "subseq [Signalled SIGTERM, HandlerGo, RunGo False, RunGo False, RunGo False]
     [CacheSynced, Signalled SIGTERM, Renewed, HandlerGo, RunGo False, RunGo False, RunGo False]" by simp
qed

text \<open>C8. With leader election a program works only while it leads: in every schedule, as long as the process is alive and
  \<^verbatim>\<open>run\<close> has been called, the lease was acquired and no renewal has failed since.\<close>

theorem runs_only_as_leader:
  assumes "fl_LeaderElect fl" and "p = pexec pl L pg evs (main_start L fl)" and "alive p" and "p_run p \<noteq> R_None"
  shows "p_main p = M_Renew \<and> Acquired \<in> set evs \<and> RenewFailed \<notin> set (dropWhile (\<lambda>ev. ev \<noteq> Acquired) evs)"
proof -
  let ?p = "\<lambda>evs. pexec pl L pg evs (main_start L fl)"
  let ?since = "\<lambda>evs. dropWhile (\<lambda>ev. ev \<noteq> Acquired) evs"
  have ok: "proc_ok True (?p evs)" for evs using reached_ok[of fl pl L pg evs] assms(1) by simp
  have "alive (?p evs) \<longrightarrow> (p_main (?p evs) = M_Acquire \<and> Acquired \<notin> set evs \<or>
      p_main (?p evs) = M_Renew \<and> Acquired \<in> set evs \<and> RenewFailed \<notin> set (?since evs))" for evs
  proof (induction evs rule: rev_induct)
    case Nil
    show ?case using ok[of "[]"] assms(1) by (auto simp: proc_ok_def main_start_def elect_def proc0_def alive_def split: result.splits)
  next
    case (snoc ev evs)
    show ?case
    proof (cases "alive (?p evs) \<and> alive (?p (evs @ [ev]))")
      case True
      then show ?thesis using snoc.IH main_next[of "?p evs" pl L pg ev] by (auto simp: dropWhile_append)
    qed (use dead_exec[of "?p evs" pl L pg "[ev]"] in auto)
  qed
  from this[of evs] show ?thesis using ok[of evs] assms by (auto simp: proc_ok_def)
qed

theorem runs_only_as_leader_witness:
  "p_main (pexec Posix demo_libs NetworkPolicyController [LeaderSeen ''b'', Acquired, RunGo False] (main_start demo_libs (demo_flags True))) = M_Renew"
proof -
  have "alive (pexec Posix demo_libs NetworkPolicyController [LeaderSeen ''b'', Acquired, RunGo False] (main_start demo_libs (demo_flags True)))"
    "p_run (pexec Posix demo_libs NetworkPolicyController [LeaderSeen ''b'', Acquired, RunGo False] (main_start demo_libs (demo_flags True))) \<noteq> R_None"
    by code_simp+
  from runs_only_as_leader[OF _ refl this] show ?thesis by simp
qed

fun isSignal :: "pevent \<Rightarrow> bool" where
  "isSignal (Signalled _) = True"
| "isSignal _ = False"

lemma hostname_elected:
  assumes "fl_LeaderElect fl" and "alive (main_start L fl)"
  shows "\<exists>h. hostname L = Ok h"
proof (rule ccontr)
  assume "\<not> ?thesis"
  then have "hostname L = Panic" by (simp add: hostname_def split: result.splits)
  then have "\<not> alive (elect L fl c)" for c by (simp add: elect_def)
  then show False using assms by (auto simp: main_start_def split: result.splits)
qed

lemma pexec_alive: "alive (pexec pl L pg evs p) \<Longrightarrow> alive p"
  using dead_exec by metis

text \<open>The leader whose handler has seen at most one signal, received or waiting.\<close>

definition leading :: "nat \<Rightarrow> proc \<Rightarrow> bool" where
  "leading n p \<longleftrightarrow> p_main p = M_Renew \<and> p_run p \<in> {R_Serve, R_Done} \<and> sh_onlyOne (p_sig p) \<and>
     sh_stop (p_sig p) = sh_first (p_sig p) \<and> sh_c (p_sig p) + of_bool (sh_first (p_sig p)) + n \<le> 1"

lemma leading_next:
  assumes "leading (n + of_bool (isSignal ev)) p" and "hostname L = Ok h" and "ev \<noteq> RenewFailed"
    and "\<And>sg. ev = Signalled sg \<Longrightarrow> sg \<in> set (shutdownSignals pl)"
  shows "leading n (pnext pl L pg p ev)"
proof (cases ev)
  case (RunGo b)
  then have "leading n p" and "pnext pl L pg p ev = run_go L pg b p" using assms(1) by (auto simp: pnext_def leading_def alive_def)
  then show ?thesis by (cases "sh_stop (p_sig p)") (auto simp: leading_def run_go_def runReturns_def)
next
  case (Signalled sg)
  then show ?thesis using assms(1) assms(4)[of sg] by (auto simp: leading_def pnext_def alive_def withSig_def deliver_def)
next
  case HandlerGo
  then show ?thesis using assms(1) by (auto simp: leading_def pnext_def alive_def withSig_def handlerGo_def)
qed (use assms(1-3) in \<open>auto simp: leading_def pnext_def alive_def NewLeader_def\<close>)

lemma leading_exec:
  assumes "leading (length (filter isSignal evs)) p" and "hostname L = Ok h" and "RenewFailed \<notin> set evs"
    and "\<And>sg. Signalled sg \<in> set evs \<Longrightarrow> sg \<in> set (shutdownSignals pl)"
  shows "leading 0 (pexec pl L pg evs p)"
  using assms
proof (induction evs arbitrary: p)
  case (Cons ev evs)
  have "leading (length (filter isSignal evs)) (pnext pl L pg p ev)"
    by (rule leading_next[where h = h]) (use Cons.prems in auto)
  then show ?case using Cons by simp
qed simp

text \<open>C39. With leader election a signal does not end the leader. After the first signal its \<^verbatim>\<open>run\<close> returns, but the context
  given to \<^verbatim>\<open>RunOrDie\<close> is never cancelled: in every schedule with one signal and no failed renewal the process stays
  alive and keeps renewing its lease, with the controller stopped, so that no other instance takes over.\<close>

theorem signal_leaves_idle_leader:
  assumes "fl_LeaderElect fl" and "p = pexec pl L pg evs0 (main_start L fl)" and "alive p" and "p_run p = R_Serve"
    and "p_sig p = \<lparr>sh_onlyOne = True, sh_c = 0, sh_first = False, sh_stop = False\<rparr>"
    and "sg \<in> set (shutdownSignals pl)" and "filter isSignal evs = [Signalled sg]" and "RenewFailed \<notin> set evs"
    and "subseq [Signalled sg, HandlerGo, RunGo b] evs"
  shows "p_main (pexec pl L pg evs p) = M_Renew \<and> p_run (pexec pl L pg evs p) = R_Done"
proof -
  let ?q = "pexec pl L pg evs p"
  obtain h where h: "hostname L = Ok h"
    using hostname_elected[OF assms(1)] pexec_alive assms(2,3) by metis
  have m: "p_main p = M_Renew" using reached_ok[of fl pl L pg evs0] assms(1-4) by (auto simp: proc_ok_def)
  have "Signalled sg' \<in> set evs \<Longrightarrow> sg' = sg" for sg'
  proof -
    assume "Signalled sg' \<in> set evs"
    then have "Signalled sg' \<in> set (filter isSignal evs)" by simp
    then show ?thesis using assms(7) by simp
  qed
  then have sgs: "\<And>sg'. Signalled sg' \<in> set evs \<Longrightarrow> sg' \<in> set (shutdownSignals pl)" using assms(6) by simp
  have l: "leading 0 ?q"
    by (rule leading_exec[OF _ h assms(8) sgs]) (use m assms(4,5,7) in \<open>auto simp: leading_def\<close>)
  have "installed 1 p" using assms(4,5) m by (simp add: installed_def)
  then have "stopping 0 ?q" using shutdown_stages[of "[b]" p sg evs] assms(9) by simp
  then show ?thesis using l by (auto simp: leading_def stage_defs alive_def)
qed

theorem signal_leaves_idle_leader_witness:
  "p_main (pexec Posix demo_libs NetworkPolicyController [Signalled SIGTERM, HandlerGo, Renewed, RunGo False, Renewed]
     (pexec Posix demo_libs NetworkPolicyController [Acquired, RunGo False, RunGo False] (main_start demo_libs (demo_flags True)))) = M_Renew"
proof -
  let ?p = "pexec Posix demo_libs NetworkPolicyController [Acquired, RunGo False, RunGo False] (main_start demo_libs (demo_flags True))"
  have "alive ?p" "p_run ?p = R_Serve" "p_sig ?p = \<lparr>sh_onlyOne = True, sh_c = 0, sh_first = False, sh_stop = False\<rparr>" by code_simp+
  from signal_leaves_idle_leader[where sg = SIGTERM and b = False and evs = "[Signalled SIGTERM, HandlerGo, Renewed, RunGo False, Renewed]",
      OF _ refl this] show ?thesis by simp
qed

text \<open>With the default flags the two programs use the same lock, so that only one of them runs.\<close>

lemma default_locks_clash:
  "fl_LockNameSpace (defaultFlags NetworkPolicyController) = fl_LockNameSpace (defaultFlags VethRouteController)"
  "fl_LockName (defaultFlags NetworkPolicyController) = fl_LockName (defaultFlags VethRouteController)"
  by (simp_all add: defaultFlags_def)

end
