(* ===== verification/RouteProgram.thy ===== *)
theory RouteProgram
  imports ControllerRuns Lifecycle
begin

text \<open>
  The process of \<^verbatim>\<open>cmd/veth-route-controller\<close> with the controller in it: \<^verbatim>\<open>Run\<close> of
  \<^verbatim>\<open>pkg/controller/controller.go\<close> on the controller \<open>cinit\<close> that \<^verbatim>\<open>NewController\<close> makes, and what becomes of the workers when the process stops. A state is a process of
  \<open>Lifecycle\<close> and the state of a controller of \<open>Controller\<close>.
\<close>

record 'c route_sys =
  rs_proc :: proc
  rs_ctl :: "'c cstate"

text \<open>
  \<^verbatim>\<open>Run\<close> starts \<^verbatim>\<open>threadiness\<close> workers, which \<^verbatim>\<open>main\<close> sets to two, when the caches have synced. They are goroutines: they go
  on when \<^verbatim>\<open>Run\<close> has returned, until the queue, which is then shut down, is empty or the process ends.
\<close>

definition threads :: "nat \<Rightarrow> proc \<Rightarrow> nat" where
  "threads threadiness p = (if p_run p \<in> {R_Serve, R_Done} then threadiness else 0)"

text \<open>The deferred \<^verbatim>\<open>ShutDown\<close>: it runs when \<^verbatim>\<open>Run\<close> returns, after the stop channel was closed or without synced caches.\<close>

definition returned :: "proc \<Rightarrow> proc \<Rightarrow> bool" where
  "returned p p' \<longleftrightarrow> p_run p \<in> {R_Sync, R_Serve} \<and> (p_run p' = R_Done \<or> p_main p' = M_Ended (Exit 255))"

definition Controller_Run :: "platform \<Rightarrow> ('cfg, 'cl, 'lk) libs \<Rightarrow> pevent \<Rightarrow> 'c route_sys \<Rightarrow> 'c route_sys" where
  "Controller_Run pl L ev s =
     (let p' = pnext pl L VethRouteController (rs_proc s) ev
      in \<lparr>rs_proc = p',
          rs_ctl = (if returned (rs_proc s) p' then setQueue (wqShutDown (cs_queue (rs_ctl s))) (rs_ctl s) else rs_ctl s)\<rparr>)"

inductive rpstep :: "platform \<Rightarrow> ('cfg, 'cl, 'lk) libs \<Rightarrow> 'c env \<Rightarrow> NeutronRouter \<Rightarrow> 'c route_sys \<Rightarrow> 'c route_sys \<Rightarrow> bool"
  for pl L env nr where
  Life: "rpstep pl L env nr s (Controller_Run pl L ev s)"
| Inform: "alive (rs_proc s) \<Longrightarrow> informing (rs_proc s) \<Longrightarrow> istep (rs_ctl s) c \<Longrightarrow> rpstep pl L env nr s (s\<lparr>rs_ctl := c\<rparr>)"
| Work: "alive (rs_proc s) \<Longrightarrow> cstep env nr (threads 2 (rs_proc s)) (rs_ctl s) c \<Longrightarrow> rpstep pl L env nr s (s\<lparr>rs_ctl := c\<rparr>)"

text \<open>
  The router comes from \<^verbatim>\<open>NewNeutronRouter\<close> of \<open>Router\<close>: \<open>routerOf\<close> is what that call gives in the world \<open>w\<close>, and \<open>withRouter\<close>
  the libraries in which \<^verbatim>\<open>run\<close> sees its outcome.
\<close>

definition routerOf :: "'c env \<Rightarrow> (string \<Rightarrow> Net \<Rightarrow> Net result) \<Rightarrow> 'c sys \<Rightarrow> NeutronRouter result" where
  "routerOf env unmarshal w = fst (NewNeutronRouter env unmarshal w)"

definition withRouter :: "'c env \<Rightarrow> (string \<Rightarrow> Net \<Rightarrow> Net result) \<Rightarrow> 'c sys \<Rightarrow> ('cfg, 'cl, 'lk) libs \<Rightarrow> ('cfg, 'cl, 'lk) libs" where
  "withRouter env unmarshal w L = L\<lparr>lb_NewNeutronRouter := rbind (routerOf env unmarshal w) (\<lambda>_. Ok ())\<rparr>"

definition rp_init :: "('cfg, 'cl, 'lk) libs \<Rightarrow> flags \<Rightarrow> 'c sys \<Rightarrow> 'c route_sys" where
  "rp_init L fl w = \<lparr>rs_proc = main_start L fl, rs_ctl = cinit w\<rparr>"

definition rp_reach :: "platform \<Rightarrow> ('cfg, 'cl, 'lk) libs \<Rightarrow> 'c env \<Rightarrow> NeutronRouter \<Rightarrow> 'c route_sys \<Rightarrow> 'c route_sys \<Rightarrow> bool" where
  "rp_reach pl L env nr = (rpstep pl L env nr)\<^sup>*\<^sup>*"

inductive_cases rpstepE: "rpstep pl L env nr s t"

section \<open>When the routes are written\<close>

text \<open>The workers are only started with synced caches.\<close>

definition synced_ok :: "proc \<Rightarrow> bool" where
  "synced_ok p \<longleftrightarrow> (p_run p \<in> {R_Serve, R_Done} \<longrightarrow> p_synced p)"

lemma synced_ok_next: "synced_ok p \<Longrightarrow> synced_ok (pnext pl L VethRouteController p ev)"
proof (cases ev)
  case (RunGo b)
  then show "synced_ok p \<Longrightarrow> ?thesis"
    by (cases "p_run p") (auto simp: synced_ok_def pnext_def run_go_def runReturns_def ended_def split: result.splits)
qed (auto simp: synced_ok_def pnext_def withSig_def ended_def StartedLeading_def StoppedLeading_def NewLeader_def
    split: sum.splits result.splits)

definition rp_ok :: "bool \<Rightarrow> 'c route_sys \<Rightarrow> bool" where
  "rp_ok le s \<longleftrightarrow> proc_ok le (rs_proc s) \<and> synced_ok (rs_proc s)"

lemma rp_ok_step: "rpstep pl L env nr s t \<Longrightarrow> rp_ok le s \<Longrightarrow> rp_ok le t"
  by (erule rpstepE) (auto simp: rp_ok_def Controller_Run_def Let_def proc_ok_next synced_ok_next)

lemma rp_ok_init: "rp_ok (fl_LeaderElect fl) (rp_init L fl w)"
proof -
  have "synced_ok (main_start L fl)"
    by (auto simp: main_start_def elect_def proc0_def synced_ok_def split: result.splits)
  then show ?thesis by (simp add: rp_ok_def rp_init_def proc_ok_start)
qed

lemma rp_reach_ok: "rp_reach pl L env nr (rp_init L fl w) s \<Longrightarrow> rp_ok (fl_LeaderElect fl) s"
  unfolding rp_reach_def by (induction rule: rtranclp_induct) (auto intro: rp_ok_init rp_ok_step)

text \<open>Only a worker writes to the cloud.\<close>

lemma cstep_writes: "cstep env nr N c c' \<Longrightarrow> cs_sys c' \<noteq> cs_sys c \<Longrightarrow> N > 0"
  by (erule cstep.cases) (auto simp: cs_upd)

text \<open>C5. The program writes routes only with synced caches and, with leader election, only as the leader: in every reachable
  state, a step that changes the system around the controller (the routes of the router are part of it) is made by a live
  process whose informer has synced and which, when a leader is elected, holds the lease.\<close>

theorem routes_written_by_synced_leader:
  assumes "rp_reach pl L env nr (rp_init L fl w) s" and "rpstep pl L env nr s t"
    and "cs_sys (rs_ctl t) \<noteq> cs_sys (rs_ctl s)"
  shows "alive (rs_proc s) \<and> p_synced (rs_proc s) \<and> (fl_LeaderElect fl \<longrightarrow> p_main (rs_proc s) = M_Renew)"
proof -
  have ok: "rp_ok (fl_LeaderElect fl) s" by (rule rp_reach_ok[OF assms(1)])
  have "alive (rs_proc s) \<and> p_run (rs_proc s) \<in> {R_Serve, R_Done}" using assms(2)
  proof (cases rule: rpstep.cases)
    case (Work c)
    then show ?thesis using cstep_writes[of env nr "threads 2 (rs_proc s)" "rs_ctl s" c] assms(3) by (auto simp: threads_def split: if_splits)
  qed (use assms(3) istep_keeps in \<open>auto simp: Controller_Run_def Let_def cs_upd\<close>)
  then show ?thesis using ok by (auto simp: rp_ok_def proc_ok_def synced_ok_def)
qed

section \<open>The program and the controller\<close>

lemma cstep_more: "cstep env nr N c c' \<Longrightarrow> N \<le> M \<Longrightarrow> cstep env nr M c c'"
  by (induction rule: cstep.induct) (auto intro: cstep.intros)

lemma threads_le: "threads n p \<le> n"
  by (simp add: threads_def)

text \<open>As long as \<^verbatim>\<open>Run\<close> has not returned: the process is alive and \<^verbatim>\<open>run\<close> is not past it.\<close>

definition in_Run :: "proc \<Rightarrow> bool" where
  "in_Run p \<longleftrightarrow> alive p \<and> p_run p \<noteq> R_Done"

lemma in_Run_back:
  assumes "proc_ok le p" and "in_Run (pnext pl L pg p ev)"
  shows "in_Run p"
proof (cases "alive p \<longrightarrow> p_run p = R_Done")
  case True
  have a: "alive p" using assms(2) dead_next[of p pl L pg ev] by (metis in_Run_def)
  then have "p_main p \<noteq> M_Acquire" using True assms(1) by (cases le) (auto simp: proc_ok_def)
  then show ?thesis using True a assms(2)
    by (cases ev) (auto simp: in_Run_def pnext_def run_go_def withSig_def StoppedLeading_def NewLeader_def
        split: sum.splits result.splits if_splits)
qed (use assms(2) in \<open>auto simp: in_Run_def dead_next\<close>)


text \<open>The other way round: a process that serves can do whatever the controller can.\<close>

lemma serve_reach:
  assumes "reach env nr 2 c c'" and "alive p" and "p_run p = R_Serve"
  shows "rp_reach pl L env nr \<lparr>rs_proc = p, rs_ctl = c\<rparr> \<lparr>rs_proc = p, rs_ctl = c'\<rparr>"
  using assms(1)
proof (induction rule: reach_induct)
  case (informer s t)
  have "rpstep pl L env nr \<lparr>rs_proc = p, rs_ctl = s\<rparr> (\<lparr>rs_proc = p, rs_ctl = s\<rparr>\<lparr>rs_ctl := t\<rparr>)"
    by (rule rpstep.Inform) (use informer assms in \<open>simp_all add: informing_def\<close>)
  then show ?case using informer by (simp add: rp_reach_def)
next
  case (controller s t)
  have "rpstep pl L env nr \<lparr>rs_proc = p, rs_ctl = s\<rparr> (\<lparr>rs_proc = p, rs_ctl = s\<rparr>\<lparr>rs_ctl := t\<rparr>)"
    by (rule rpstep.Work) (use controller assms in \<open>simp_all add: threads_def\<close>)
  then show ?case using controller by (simp add: rp_reach_def)
qed (simp add: rp_reach_def)

text \<open>A step of the process alone in which \<^verbatim>\<open>Run\<close> does not return.\<close>

lemma life_step:
  assumes "rp_reach pl L env nr s0 \<lparr>rs_proc = p, rs_ctl = c\<rparr>" and "pnext pl L VethRouteController p ev = q" and "in_Run q"
  shows "rp_reach pl L env nr s0 \<lparr>rs_proc = q, rs_ctl = c\<rparr>"
proof -
  have "\<not> returned p q" using assms(3) by (auto simp: in_Run_def returned_def alive_def)
  then have "rpstep pl L env nr \<lparr>rs_proc = p, rs_ctl = c\<rparr> \<lparr>rs_proc = q, rs_ctl = c\<rparr>"
    using rpstep.Life[of pl L env nr "\<lparr>rs_proc = p, rs_ctl = c\<rparr>" ev] assms(2) by (simp add: Controller_Run_def Let_def)
  then show ?thesis using assms(1) by (simp add: rp_reach_def)
qed

definition serving :: proc where
  "serving = \<lparr>p_main = M_Run, p_run = R_Serve, p_sig = \<lparr>sh_onlyOne = True, sh_c = 0, sh_first = False, sh_stop = False\<rparr>, p_synced = True\<rparr>"

lemma serve_start:
  assumes "main_start L fl = proc0 M_Run R_Enter" and "lb_NewNeutronRouter L = Ok ()"
  shows "rp_reach pl L env nr (rp_init L fl w) \<lparr>rs_proc = serving, rs_ctl = cinit w\<rparr>"
proof -
  let ?R = "rp_reach pl L env nr (rp_init L fl w)" and ?h = "\<lparr>sh_onlyOne = True, sh_c = 0, sh_first = False, sh_stop = False\<rparr>"
  let ?p = "\<lambda>r h b. \<lparr>p_main = M_Run, p_run = r, p_sig = h, p_synced = b\<rparr>"
  note s = pnext_def alive_def run_go_def SetupSignalHandler_def noHandler_def in_Run_def informing_def serving_def
  have "?R \<lparr>rs_proc = ?p R_Enter noHandler False, rs_ctl = cinit w\<rparr>" using assms(1) by (simp add: rp_reach_def rp_init_def proc0_def)
  then have "?R \<lparr>rs_proc = ?p R_Create ?h False, rs_ctl = cinit w\<rparr>" by (rule life_step[where ev = "RunGo False"]) (simp_all add: s)
  then have "?R \<lparr>rs_proc = ?p R_Sync ?h False, rs_ctl = cinit w\<rparr>" by (rule life_step[where ev = "RunGo False"]) (simp_all add: s assms(2))
  then have "?R \<lparr>rs_proc = ?p R_Sync ?h True, rs_ctl = cinit w\<rparr>" by (rule life_step[where ev = CacheSynced]) (simp_all add: s)
  then show ?thesis by (rule life_step[where ev = "RunGo False"]) (simp_all add: s)
qed

text \<open>A run in which a worker has listed the pods.\<close>

lemma listed_reach:
  assumes "lock_free nr w" and "validPod p" and "rp_PodIP p \<noteq> []"
  shows "view env nr rts (cinit w) [p] [] (Q [] {} {Key (podKey p)}) (W_Listed (Key (podKey p)) [p]) W_Idle (rts (sys_cloud w))"
proof -
  let ?v = "view env nr rts (cinit w)" and ?k = "Key (podKey p)" and ?r = "rts (sys_cloud w)"
  have "reach env nr 2 (cinit w) (cinit w)" by (simp add: reachU_def)
  then have 0: "?v [] [] (Q [] {} {}) W_Idle W_Idle ?r"
    unfolding view_def using assms(1) by (intro exI[of _ "cinit w"]) (auto simp: cinit_def Q_ops)
  have 1: "?v [p] [] (Q [?k] {?k} {}) W_Idle W_Idle ?r"
    using view_deliver[OF view_add[OF 0 assms(2), simplified]] by (simp add: handle_eq evItem_def Q_ops)
  show ?thesis using view_take_and_list[OF 1, of 0] assms by simp
qed

text \<open>C30. \<^verbatim>\<open>Run\<close> does not wait for its workers: after one signal the process can be gone, with exit code 0, while a worker holds a key and
  the list of pods it was about to write; from that state nothing happens any more.\<close>

theorem exit_abandons_update:
  assumes "main_start L fl = proc0 M_Run R_Enter" and "lb_NewNeutronRouter L = Ok ()"
    and "lock_free nr w" and "validPod p" and "rp_PodIP p \<noteq> []"
  shows "\<exists>s. rp_reach Posix L env nr (rp_init L fl w) s \<and> p_main (rs_proc s) = M_Ended (Exit 0) \<and>
    cs_workers (rs_ctl s) 0 = W_Listed (Key (podKey p)) [p] \<and> (\<forall>t. rpstep Posix L env nr s t \<longrightarrow> t = s)"
proof -
  let ?R = "rp_reach Posix L env nr (rp_init L fl w)"
  obtain c where c: "reach env nr 2 (cinit w) c" "cs_workers c = (\<lambda>_. W_Idle)(0 := W_Listed (Key (podKey p)) [p], 1 := W_Idle)"
    using listed_reach[OF assms(3-5), of env "\<lambda>_. []"] by (rule viewE)
  let ?p = "\<lambda>h. serving\<lparr>p_sig := h\<rparr>" and ?h = "p_sig serving"
  let ?stop = "?h\<lparr>sh_first := True, sh_stop := True\<rparr>"
  let ?fin = "\<lparr>rs_proc = ?p ?stop\<lparr>p_run := R_Done, p_main := M_Ended (Exit 0)\<rparr>, rs_ctl = setQueue (wqShutDown (cs_queue c)) c\<rparr>"
  note s = pnext_def alive_def run_go_def in_Run_def serving_def withSig_def deliver_def handlerGo_def
  have "rp_reach Posix L env nr \<lparr>rs_proc = serving, rs_ctl = cinit w\<rparr> \<lparr>rs_proc = serving, rs_ctl = c\<rparr>"
    by (rule serve_reach[OF c(1)]) (simp_all add: serving_def alive_def)
  then have "?R \<lparr>rs_proc = serving, rs_ctl = c\<rparr>"
    using serve_start[OF assms(1,2), of Posix env nr w] by (auto simp: rp_reach_def)
  then have "?R \<lparr>rs_proc = ?p (?h\<lparr>sh_c := 1\<rparr>), rs_ctl = c\<rparr>" by (rule life_step[where ev = "Signalled SIGTERM"]) (simp_all add: s)
  then have stop: "?R \<lparr>rs_proc = ?p ?stop, rs_ctl = c\<rparr>" by (rule life_step[where ev = HandlerGo]) (simp_all add: s)
  have "Controller_Run Posix L (RunGo False) \<lparr>rs_proc = ?p ?stop, rs_ctl = c\<rparr> = ?fin"
    by (simp add: Controller_Run_def Let_def s runReturns_def ended_def returned_def)
  then have "rpstep Posix L env nr \<lparr>rs_proc = ?p ?stop, rs_ctl = c\<rparr> ?fin" using rpstep.Life[of Posix L env nr] by metis
  then have "?R ?fin" using stop by (simp add: rp_reach_def)
  moreover have "\<forall>t. rpstep Posix L env nr ?fin t \<longrightarrow> t = ?fin"
    by (auto elim!: rpstepE simp: Controller_Run_def Let_def dead_next returned_def alive_def)
  ultimately show ?thesis by (intro exI[of _ ?fin]) (simp add: c(2) cs_upd)
qed

text \<open>A router that cannot be had ends the program before it serves.\<close>

lemma no_router_no_program:
  assumes "\<not> is_Ok (routerOf env unmarshal w)" and "alive p" and "p_run p = R_Create"
  shows "p_main (pnext pl (withRouter env unmarshal w L) VethRouteController p (RunGo b)) = M_Ended Crash"
  using assms by (cases "routerOf env unmarshal w") (simp_all add: pnext_def run_go_def withRouter_def ended_def)

lemma demo_start: "main_start demo_libs (demo_flags False) = proc0 M_Run R_Enter" "lb_NewNeutronRouter demo_libs = Ok ()"
  by (simp_all add: main_start_def demo_libs_def GetInClusterClientSet_def GetClusterClientSetWithKC_def)

lemma demo_valid: "validPod (demo_pod ''a'' ''10.0.0.10'')" "rp_PodIP (demo_pod ''a'' ''10.0.0.10'') \<noteq> []"
  by (simp_all add: validPod_def demo_pod_def)

theorem exit_abandons_update_witness:
  "\<exists>s. rp_reach Posix demo_libs demo_env demo_router (rp_init demo_libs (demo_flags False) demo_sys) s \<and>
     p_main (rs_proc s) = M_Ended (Exit 0) \<and> cs_workers (rs_ctl s) 0 \<noteq> W_Idle"
  using exit_abandons_update[OF demo_start demo_lock_free demo_valid, of demo_env] by auto


theorem routes_written_by_synced_leader_witness:
  "\<exists>s t. rpstep Posix demo_libs demo_env demo_router s t \<and> cs_sys (rs_ctl t) \<noteq> cs_sys (rs_ctl s) \<and> p_synced (rs_proc s)"
proof -
  let ?p = "demo_pod ''a'' ''10.0.0.10''"
  let ?R = "rp_reach Posix demo_libs demo_env demo_router (rp_init demo_libs (demo_flags False) demo_sys)"
  obtain c where c: "reach demo_env demo_router 2 (cinit demo_sys) c" "lock_free demo_router (cs_sys c)"
    "cs_workers c = (\<lambda>_. W_Idle)(0 := W_Listed (Key (podKey ?p)) [?p], 1 := W_Idle)" "dc_routes (sys_cloud (cs_sys c)) = dc_routes (sys_cloud demo_sys)"
    using listed_reach[OF demo_lock_free demo_valid, of demo_env dc_routes] by (rule viewE)
  obtain r w where u: "UpdateRoutes demo_env demo_router [?p] (cs_sys c) = (r, w)" by (cases "UpdateRoutes demo_env demo_router [?p] (cs_sys c)")
  have "is_Ok r" using u c(2) UpdateRoutes_call[of demo_router "cs_sys c" demo_env "[?p]"] by (auto simp: lock_free_def demo_env_def split: prod.splits)
  then have "dc_routes (sys_cloud w) = parsePodsRoutes demo_router [?p]" using UpdateRoutes_effect[OF demo_router_ok c(2) u] by (cases r) auto
  moreover have "parsePodsRoutes demo_router [?p] \<noteq> []" by code_simp
  ultimately have ne: "w \<noteq> cs_sys c" using c(4) demo_no_routes by auto
  let ?s = "\<lparr>rs_proc = serving, rs_ctl = c\<rparr>"
    and ?c = "setWorker 0 W_Idle (setQueue (finishItem (Key (podKey ?p)) r (cs_queue c)) (c\<lparr>cs_sys := w\<rparr>))"
  have "cstep demo_env demo_router (threads 2 serving) c ?c"
    by (rule cstep.Update[OF _ _ u]) (simp_all add: threads_def serving_def c(3))
  then have st: "rpstep Posix demo_libs demo_env demo_router ?s (?s\<lparr>rs_ctl := ?c\<rparr>)"
    by (intro rpstep.Work) (simp_all add: serving_def alive_def)
  have d: "cs_sys (rs_ctl (?s\<lparr>rs_ctl := ?c\<rparr>)) \<noteq> cs_sys (rs_ctl ?s)" using ne by (simp add: cs_upd)
  have "rp_reach Posix demo_libs demo_env demo_router \<lparr>rs_proc = serving, rs_ctl = cinit demo_sys\<rparr> ?s"
    by (rule serve_reach[OF c(1)]) (simp_all add: serving_def alive_def)
  then have "?R ?s" using serve_start[OF demo_start, of Posix demo_env demo_router demo_sys] by (auto simp: rp_reach_def)
  from routes_written_by_synced_leader[OF this st d] show ?thesis using st d by blast
qed

end
