(* ===== verification/Scheduler.thy ===== *)
theory Scheduler
  imports StoreProps "HOL-Library.Signed_Division"
begin

text \<open>
  The scheduler plugins: \<^verbatim>\<open>pkg/scheduling\<close> (\<^verbatim>\<open>scheduling.go\<close>, \<^verbatim>\<open>parallel.go\<close>) filters and scores nodes by the network
  interfaces and addresses their instances have left, \<^verbatim>\<open>pkg/qos\<close> (\<^verbatim>\<open>queue_sort.go\<close>) orders the
  scheduling queue by the quality of service. The locale \<open>queue_sort\<close> is what the scheduler's heap
  needs of a \<^verbatim>\<open>Less\<close>: \<^verbatim>\<open>Scheduling.Less\<close> fulfils it, \<^verbatim>\<open>qos.Sort.Less\<close> does not.
  The state of a scheduling cycle is the map from node addresses to the collected data. The nodes are
  collected by parallel workers; \<open>ParallelCollection\<close> gets the order in which they
  come to their nodes.
\<close>

section \<open>Data\<close>

record Args =
  ar_OpenStackConf :: OpenStackConf
  ar_MaxInstanceIps :: int
  ar_MaxInstanceEnis :: int

record Scheduling =
  sch_computeClient :: ServiceClient
  sch_args :: Args

datatype Code = Success | Error | Unschedulable

record Status =
  sta_Code :: Code
  sta_Message :: string

definition NewStatus :: "Code \<Rightarrow> string \<Rightarrow> Status" where
  "NewStatus c m = \<lparr>sta_Code = c, sta_Message = m\<rparr>"

text \<open>A node: its name and its addresses with their types.\<close>

record Node =
  nd_Name :: string
  nd_Addresses :: "(string \<times> string) list"

record Data =
  dt_NodeIntsValue :: int
  dt_NodeIpsValue :: int

type_synonym CycleState = "(string \<times> Data) list"

text \<open>A pod in the scheduling queue: its priority (0 when unset), QoS class and the time of the first attempt.\<close>

datatype QOSClass = Guaranteed | Burstable | BestEffort

record PodInfo =
  pi_Namespace :: string
  pi_Name :: string
  pi_Priority :: "int option"
  pi_QOS :: QOSClass
  pi_InitialAttempt :: int

definition GetPodPriority :: "PodInfo \<Rightarrow> int" where
  "GetPodPriority p = (case pi_Priority p of Some n \<Rightarrow> n | None \<Rightarrow> 0)"

section \<open>The plugin Scheduling\<close>

text \<open>\<open>decodeInto\<close> stands for \<^verbatim>\<open>framework.DecodeInto\<close>, which overwrites the defaults.\<close>

definition Scheduling_New :: "'c env \<Rightarrow> (Args \<Rightarrow> Args result) \<Rightarrow> Args \<Rightarrow> ('c, Scheduling) sysact" where
  "Scheduling_New env decodeInto zero =
     abind (alift (decodeInto (zero\<lparr>ar_MaxInstanceEnis := int MAX_ENIS, ar_MaxInstanceIps := int MAX_IPS\<rparr>))) (\<lambda>args.
     abind (ConnectStore env (Some (ar_OpenStackConf args)) SERVICE_TYPE_COMPUTE) (\<lambda>computeClient.
     aret \<lparr>sch_computeClient = computeClient, sch_args = args\<rparr>))"

definition Scheduling_Less :: "PodInfo \<Rightarrow> PodInfo \<Rightarrow> bool" where
  "Scheduling_Less podInfo1 podInfo2 =
     (let priority1 = GetPodPriority podInfo1; priority2 = GetPodPriority podInfo2 in
      if priority1 \<noteq> priority2 then priority1 > priority2
      else
      let time1 = pi_InitialAttempt podInfo1; time2 = pi_InitialAttempt podInfo2 in
      if \<not> time1 = time2 then time1 < time2
      else
      let podKey1 = pi_Namespace podInfo1 @ ''/'' @ pi_Name podInfo1;
          podKey2 = pi_Namespace podInfo2 @ ''/'' @ pi_Name podInfo1
      in podKey1 < podKey2)"

definition getNodeInternalIP :: "Node \<Rightarrow> string option" where
  "getNodeInternalIP node = map_option snd (List.find (\<lambda>(t, a). t = ''InternalIP'') (nd_Addresses node))"

definition Filter :: "'c env \<Rightarrow> Scheduling \<Rightarrow> Node \<Rightarrow> ('c, Status) sysact" where
  "Filter env cs node =
     (case getNodeInternalIP node of
        None \<Rightarrow> aret (NewStatus Unschedulable ''node not have internal IP'')
      | Some nodeInternalIP \<Rightarrow>
        acase (CountServerIntsAndEnis env (sch_computeClient cs) nodeInternalIP)
          (\<lambda>(vmEnis, vmIps).
             if int vmEnis \<ge> ar_MaxInstanceEnis (sch_args cs)
             then aret (NewStatus Unschedulable ''greater than MaxInstanceEnis'')
             else if int vmIps \<ge> ar_MaxInstanceIps (sch_args cs)
             then aret (NewStatus Unschedulable ''greater than MaxInstanceIps'')
             else aret (NewStatus Success []))
          (\<lambda>e. aret (NewStatus Unschedulable ''failed to get instance enis and ips'')))"

section \<open>Collecting the data of the nodes\<close>

definition onSys :: "('c, 'a) sysact \<Rightarrow> ('c sys \<times> CycleState, 'a) act" where
  "onSys m = (\<lambda>(w, st). case m w of (r, w') \<Rightarrow> (r, (w', st)))"

definition stateWrite :: "string \<Rightarrow> Data \<Rightarrow> ('c sys \<times> CycleState, unit) act" where
  "stateWrite k d = (\<lambda>(w, st). (Ok (), (w, AList.update k d st)))"

definition CollectNodeIntsAndIps :: "'c env \<Rightarrow> Scheduling \<Rightarrow> Node \<Rightarrow> ('c sys \<times> CycleState, Status) act" where
  "CollectNodeIntsAndIps env cs node =
     (case getNodeInternalIP node of
        None \<Rightarrow> aret (NewStatus Error ''no internal ip'')
      | Some nodeInternalIP \<Rightarrow>
        acase (onSys (CountServerIntsAndEnis env (sch_computeClient cs) nodeInternalIP))
          (\<lambda>(vmEnis, vmIps).
             abind (stateWrite nodeInternalIP
                      \<lparr>dt_NodeIntsValue = int MAX_IPS - int vmEnis, dt_NodeIpsValue = int MAX_ENIS - int vmIps\<rparr>) (\<lambda>_.
             aret (NewStatus Success [])))
          (\<lambda>e. aret (NewStatus Error ''failed to get instance enis and ips'')))"

text \<open>
  The workers take every node once from the channel; \<open>order\<close> is the order in which the nodes are
  collected, and the messages of failures are joined in that order. The context is \<^verbatim>\<open>nil\<close> in the only call.
\<close>

fun collectAll :: "'c env \<Rightarrow> Scheduling \<Rightarrow> Node list \<Rightarrow> string \<Rightarrow> ('c sys \<times> CycleState, string) act" where
  "collectAll env cs [] msg = aret msg"
| "collectAll env cs (node # nodes) msg =
     abind (CollectNodeIntsAndIps env cs node) (\<lambda>re.
     collectAll env cs nodes (if sta_Code re \<noteq> Success then msg @ sta_Message re else msg))"

definition ParallelCollection :: "'c env \<Rightarrow> Scheduling \<Rightarrow> Node list \<Rightarrow> ('c sys \<times> CycleState, Status) act" where
  "ParallelCollection env cs order =
     abind (collectAll env cs order []) (\<lambda>msg.
     aret (if msg \<noteq> [] then NewStatus Error msg else NewStatus Success []))"

definition PreScore :: "'c env \<Rightarrow> Scheduling \<Rightarrow> Node list \<Rightarrow> ('c sys \<times> CycleState, Status) act" where
  "PreScore env cs order = ParallelCollection env cs order"

section \<open>Scores\<close>

definition score :: "CycleState \<Rightarrow> Node \<Rightarrow> int result" where
  "score st node =
     (case getNodeInternalIP node of
        None \<Rightarrow> Err (''node '' @ nd_Name node @ '' internal ip not found'')
      | Some ip \<Rightarrow> (case map_of st ip of
            None \<Rightarrow> Err ''not found''
          | Some d \<Rightarrow> Ok (int64 (dt_NodeIpsValue d * 1 + dt_NodeIntsValue d * 1))))"

text \<open>\<open>getNode\<close> stands for the lookup in the scheduler's snapshot.\<close>

definition Score :: "(string \<Rightarrow> Node result) \<Rightarrow> CycleState \<Rightarrow> string \<Rightarrow> int \<times> Status" where
  "Score getNode st nodeName =
     (case getNode nodeName of
        Ok node \<Rightarrow> (case score st node of
            Ok s \<Rightarrow> (s, NewStatus Success [])
          | Err e \<Rightarrow> (0, NewStatus Error (''Score Node err: '' @ e))
          | Panic \<Rightarrow> (0, NewStatus Error []))
      | Err e \<Rightarrow> (0, NewStatus Error (''Getting node '' @ quoted nodeName @ '' from snapshot err: '' @ e))
      | Panic \<Rightarrow> (0, NewStatus Error []))"

definition MaxNodeScore :: int where "MaxNodeScore = 100"

definition max64 :: "int \<Rightarrow> int \<Rightarrow> int" where
  "max64 a b = (if a > b then a else b)"

text \<open>A division by zero panics; the quotient of Go rounds towards zero.\<close>

definition NormalizeScore :: "(string \<times> int) list \<Rightarrow> (string \<times> int) list result" where
  "NormalizeScore scores =
     (let highest = foldl (\<lambda>h (n, s). max64 h s) 0 scores in
      rmap (\<lambda>(n, s). if highest = 0 then Panic else Ok (n, int64 (int64 (s * MaxNodeScore) sdiv highest))) scores)"

section \<open>The plugin QOSSort\<close>

definition compQOS :: "PodInfo \<Rightarrow> PodInfo \<Rightarrow> bool" where
  "compQOS p1 p2 =
     (if pi_QOS p1 = Guaranteed then True
      else if pi_QOS p1 = Burstable then pi_QOS p2 \<noteq> Guaranteed
      else pi_QOS p2 = BestEffort)"

definition Sort_Less :: "PodInfo \<Rightarrow> PodInfo \<Rightarrow> bool" where
  "Sort_Less pInfo1 pInfo2 =
     (let p1 = GetPodPriority pInfo1; p2 = GetPodPriority pInfo2
      in p1 > p2 \<or> (p1 = p2 \<and> compQOS pInfo1 pInfo2))"

section \<open>The contract of a queue order\<close>

text \<open>
  A strict weak order on the pods \<open>valid\<close> of the cluster: the scheduler's heap keeps, and pops, an element
  no other comes before only when \<^verbatim>\<open>Less\<close> is one.
\<close>

locale queue_sort =
  fixes less :: "'p \<Rightarrow> 'p \<Rightarrow> bool" and valid :: "'p \<Rightarrow> bool"
  assumes irrefl: "valid a \<Longrightarrow> \<not> less a a"
    and trans: "valid a \<Longrightarrow> valid b \<Longrightarrow> valid c \<Longrightarrow> less a b \<Longrightarrow> less b c \<Longrightarrow> less a c"
    and incomp_trans: "valid a \<Longrightarrow> valid b \<Longrightarrow> valid c \<Longrightarrow> \<not> less a b \<Longrightarrow> \<not> less b a \<Longrightarrow> \<not> less b c \<Longrightarrow> \<not> less c b \<Longrightarrow>
      \<not> less a c \<and> \<not> less c a"
begin

lemma asym: "valid a \<Longrightarrow> valid b \<Longrightarrow> less a b \<Longrightarrow> \<not> less b a"
  using irrefl trans by blast

text \<open>In every non-empty queue there is a pod to schedule next.\<close>

lemma head_exists: "xs \<noteq> [] \<Longrightarrow> list_all valid xs \<Longrightarrow> \<exists>x \<in> set xs. \<forall>y \<in> set xs. \<not> less y x"
proof (induction xs rule: list_nonempty_induct)
  case (single x)
  then show ?case by (simp add: irrefl)
next
  case (cons x xs)
  then obtain m where m: "m \<in> set xs" "\<forall>y \<in> set xs. \<not> less y m" by auto
  have v: "valid x" "\<forall>y \<in> set xs. valid y" using cons.prems by (simp_all add: list_all_iff)
  show ?case
  proof (cases "less x m")
    case True
    then have "\<forall>y \<in> set xs. \<not> less y x" using m v trans by blast
    then show ?thesis using v by (intro bexI[of _ x]) (simp_all add: irrefl)
  next
    case False
    then show ?thesis using m by (intro bexI[of _ m]) simp_all
  qed
qed

end

section \<open>Scheduling.Less fulfils it\<close>

text \<open>Namespaces are DNS labels: they have no slash.\<close>

definition validInfo :: "PodInfo \<Rightarrow> bool" where
  "validInfo p \<longleftrightarrow> CHR ''/'' \<notin> set (pi_Namespace p)"

lemma less_slash:
  "CHR ''/'' \<notin> set a \<Longrightarrow> CHR ''/'' \<notin> set b \<Longrightarrow> (a @ CHR ''/'' # n < b @ CHR ''/'' # n) \<longleftrightarrow> (a @ ''/'' < b @ ''/'')"
proof (induction a arbitrary: b)
  case Nil
  then show ?case by (cases b) auto
next
  case (Cons x xs)
  then show ?case by (cases b) auto
qed

lemma Scheduling_Less_iff:
  assumes "validInfo a" and "validInfo b"
  shows "Scheduling_Less a b \<longleftrightarrow> GetPodPriority a > GetPodPriority b \<or> (GetPodPriority a = GetPodPriority b \<and>
    (pi_InitialAttempt a < pi_InitialAttempt b \<or>
     (pi_InitialAttempt a = pi_InitialAttempt b \<and> pi_Namespace a @ ''/'' < pi_Namespace b @ ''/'')))"
  using less_slash[of "pi_Namespace a" "pi_Namespace b" "pi_Name a"] assms
  by (auto simp: Scheduling_Less_def validInfo_def Let_def)

lemma lex3_incomparable:
  fixes p q r :: "'a::linorder" and t u v :: "'b::linorder" and x y z :: "'c::linorder"
  assumes "\<not> (q < p \<or> p = q \<and> (t < u \<or> t = u \<and> x < y))" and "\<not> (p < q \<or> q = p \<and> (u < t \<or> u = t \<and> y < x))"
  shows "p = q \<and> t = u \<and> x = y"
  using assms by (metis not_less_iff_gr_or_eq)

lemma Scheduling_Less_incomparable:
  assumes "validInfo a" and "validInfo b" and "\<not> Scheduling_Less a b" and "\<not> Scheduling_Less b a"
  shows "GetPodPriority a = GetPodPriority b \<and> pi_InitialAttempt a = pi_InitialAttempt b \<and> pi_Namespace a @ ''/'' = pi_Namespace b @ ''/''"
  by (rule lex3_incomparable[OF assms(3)[unfolded Scheduling_Less_iff[OF assms(1,2)]] assms(4)[unfolded Scheduling_Less_iff[OF assms(2,1)]]])

lemma Scheduling_Less_same:
  assumes "validInfo a" and "validInfo b" and "GetPodPriority a = GetPodPriority b" and "pi_InitialAttempt a = pi_InitialAttempt b"
    and "pi_Namespace a @ ''/'' = pi_Namespace b @ ''/''"
  shows "\<not> Scheduling_Less a b"
  unfolding Scheduling_Less_iff[OF assms(1,2)] assms(3-5) by (simp only: less_irrefl simp_thms)

interpretation sch: queue_sort Scheduling_Less validInfo
proof
  fix a b c
  show "validInfo a \<Longrightarrow> \<not> Scheduling_Less a a" by (simp add: Scheduling_Less_iff)
  show "validInfo a \<Longrightarrow> validInfo b \<Longrightarrow> validInfo c \<Longrightarrow> Scheduling_Less a b \<Longrightarrow> Scheduling_Less b c \<Longrightarrow> Scheduling_Less a c"
    by (auto simp: Scheduling_Less_iff)
  assume v: "validInfo a" "validInfo b" "validInfo c" and n: "\<not> Scheduling_Less a b" "\<not> Scheduling_Less b a"
    "\<not> Scheduling_Less b c" "\<not> Scheduling_Less c b"
  note ab = Scheduling_Less_incomparable[OF v(1,2) n(1,2)] and bc = Scheduling_Less_incomparable[OF v(2,3) n(3,4)]
  have e: "GetPodPriority a = GetPodPriority c" "pi_InitialAttempt a = pi_InitialAttempt c" "pi_Namespace a @ ''/'' = pi_Namespace c @ ''/''"
    using ab[THEN conjunct1] bc[THEN conjunct1] ab[THEN conjunct2, THEN conjunct1] bc[THEN conjunct2, THEN conjunct1]
      ab[THEN conjunct2, THEN conjunct2] bc[THEN conjunct2, THEN conjunct2] by (simp_all only:)
  show "\<not> Scheduling_Less a c \<and> \<not> Scheduling_Less c a"
    by (intro conjI Scheduling_Less_same[OF v(1,3) e] Scheduling_Less_same[OF v(3,1) e[symmetric]])
qed

text \<open>The order of \<^verbatim>\<open>qos.Sort\<close> is not one: two pods of the same class come before each other.\<close>

lemma Sort_Less_reflexive: "Sort_Less p p"
  by (cases "pi_QOS p") (simp_all add: Sort_Less_def compQOS_def)

section \<open>Normalized scores\<close>

lemma foldl_max64: "foldl (\<lambda>h (n, s). max64 h s) h scores = Max (insert h (snd ` set scores))"
proof (induction scores arbitrary: h)
  case Nil
  then show ?case by simp
next
  case (Cons x xs)
  have "foldl (\<lambda>h (n, s). max64 h s) h (x # xs) = Max (insert (max64 h (snd x)) (snd ` set xs))"
    using Cons by (cases x) simp
  also have "\<dots> = Max (insert h (snd ` set (x # xs)))"
    by (cases "snd ` set xs = {}") (auto simp: max64_def max_def)
  finally show ?case .
qed

lemma sdiv_nonneg: "0 \<le> x \<Longrightarrow> 0 < (h :: int) \<Longrightarrow> x sdiv h = x div h"
  by (cases "x = 0") (simp_all add: signed_divide_int_def)

lemma div_le_self: "0 \<le> (x :: int) \<Longrightarrow> x div h \<le> x"
  by (cases "x = 0") (auto intro: int_div_le_self)

lemma NormalizeScore_eq:
  assumes r: "\<forall>(n, s) \<in> set scores. 0 \<le> s \<and> s * MaxNodeScore < 2 ^ 63" and h: "h = Max (insert 0 (snd ` set scores))" "0 < h"
  shows "NormalizeScore scores = Ok (map (\<lambda>(n, s). (n, s * MaxNodeScore div h)) scores)"
proof -
  have q: "int64 (int64 (s * MaxNodeScore) sdiv h) = s * MaxNodeScore div h" if "(n, s) \<in> set scores" for n s
  proof -
    have b: "0 \<le> s * MaxNodeScore" "s * MaxNodeScore < 2 ^ 63" using r that by (auto simp: MaxNodeScore_def)
    have d: "0 \<le> s * MaxNodeScore div h" using b(1) h(2) by (simp add: pos_imp_zdiv_nonneg_iff)
    note d = d div_le_self[OF b(1), of h]
    have "int64 (s * MaxNodeScore) = s * MaxNodeScore" by (rule int64_id) (use b in linarith)+
    moreover have "int64 (s * MaxNodeScore div h) = s * MaxNodeScore div h" by (rule int64_id) (use b d in linarith)+
    ultimately show ?thesis using sdiv_nonneg[OF b(1) h(2)] by simp
  qed
  show ?thesis
    using h q by (auto simp: NormalizeScore_def foldl_max64 rmap_Ok_iff list_all2_map2 list_all2_same)
qed

section \<open>Collecting is independent of the order\<close>

text \<open>
  \<open>counts\<close>: while the nodes are collected the instances do not change, so that the count of an address
  has one answer.
\<close>

definition counts :: "'c env \<Rightarrow> Scheduling \<Rightarrow> (string \<Rightarrow> (nat \<times> nat) result) \<Rightarrow> 'c sys \<Rightarrow> Node list \<Rightarrow> bool" where
  "counts env cs cnt w nodes \<longleftrightarrow> list_all (\<lambda>ip.
     CountServerIntsAndEnis env (sch_computeClient cs) ip w = (cnt ip, w) \<and> cnt ip \<noteq> Panic) (List.map_filter getNodeInternalIP nodes)"

lemma counts_Cons: "counts env cs cnt w (n # nodes) \<longleftrightarrow> counts env cs cnt w [n] \<and> counts env cs cnt w nodes"
  by (auto simp: counts_def map_filter_def)

definition collected :: "(string \<Rightarrow> (nat \<times> nat) result) \<Rightarrow> Node list \<Rightarrow> string \<Rightarrow> Data option" where
  "collected cnt nodes k =
     (if k \<in> set (List.map_filter getNodeInternalIP nodes)
      then (case cnt k of Ok (e, i) \<Rightarrow> Some \<lparr>dt_NodeIntsValue = int MAX_IPS - int e, dt_NodeIpsValue = int MAX_ENIS - int i\<rparr>
            | _ \<Rightarrow> None)
      else None)"

definition reachable :: "(string \<Rightarrow> (nat \<times> nat) result) \<Rightarrow> Node \<Rightarrow> bool" where
  "reachable cnt n = (case getNodeInternalIP n of None \<Rightarrow> False | Some ip \<Rightarrow> is_Ok (cnt ip))"

lemma collected_Cons: "collected cnt (n # nodes) = collected cnt [n] ++ collected cnt nodes"
  by (rule ext) (auto simp: collected_def map_filter_def map_add_def split: option.splits)

lemma collected_None: "getNodeInternalIP n = None \<Longrightarrow> collected cnt [n] = Map.empty"
  by (rule ext) (simp add: collected_def map_filter_def)

lemma collected_Some: "getNodeInternalIP n = Some ip \<Longrightarrow> cnt ip = Ok (e, i) \<Longrightarrow>
    collected cnt [n] = [ip \<mapsto> \<lparr>dt_NodeIntsValue = int MAX_IPS - int e, dt_NodeIpsValue = int MAX_ENIS - int i\<rparr>]"
  by (rule ext) (simp add: collected_def map_filter_def)

lemma collected_Err: "getNodeInternalIP n = Some ip \<Longrightarrow> cnt ip = Err e \<Longrightarrow> collected cnt [n] = Map.empty"
  by (rule ext) (simp add: collected_def map_filter_def)

lemma Collect_step:
  assumes "counts env cs cnt w [node]"
  obtains st' re where "CollectNodeIntsAndIps env cs node (w, st) = (Ok re, (w, st'))"
    and "map_of st' = map_of st ++ collected cnt [node]"
    and "sta_Code re = Success \<longleftrightarrow> reachable cnt node" and "sta_Code re \<noteq> Success \<longrightarrow> sta_Message re \<noteq> []"
proof (cases "getNodeInternalIP node")
  case None
  then show ?thesis using that[of "NewStatus Error ''no internal ip''" st]
    by (simp add: CollectNodeIntsAndIps_def act_simps collected_None reachable_def NewStatus_def)
next
  case (Some ip)
  have c: "CountServerIntsAndEnis env (sch_computeClient cs) ip w = (cnt ip, w)" "cnt ip \<noteq> Panic"
    using assms Some by (simp_all add: counts_def map_filter_def)
  show ?thesis
  proof (cases "cnt ip")
    case (Ok ei)
    let ?d = "\<lparr>dt_NodeIntsValue = int MAX_IPS - int (fst ei), dt_NodeIpsValue = int MAX_ENIS - int (snd ei)\<rparr>"
    show ?thesis
    proof (rule that)
      show "CollectNodeIntsAndIps env cs node (w, st) = (Ok (NewStatus Success []), (w, AList.update ip ?d st))"
        using Some c Ok by (cases ei) (simp add: CollectNodeIntsAndIps_def onSys_def stateWrite_def act_simps)
      show "map_of (AList.update ip ?d st) = map_of st ++ collected cnt [node]"
        using Some Ok by (cases ei) (simp add: collected_Some update_conv')
    qed (use Some Ok in \<open>simp_all add: NewStatus_def reachable_def\<close>)
  next
    case (Err e)
    show ?thesis
      using that[of "NewStatus Error ''failed to get instance enis and ips''" st] Some c Err
      by (simp add: CollectNodeIntsAndIps_def onSys_def act_simps collected_Err reachable_def NewStatus_def)
  next
    case Panic
    then show ?thesis using c by simp
  qed
qed

lemma collectAll_result:
  "counts env cs cnt w nodes \<Longrightarrow> \<exists>msg' st'. collectAll env cs nodes msg (w, st) = (Ok msg', (w, st')) \<and>
    map_of st' = map_of st ++ collected cnt nodes \<and>
    (msg' = [] \<longleftrightarrow> msg = [] \<and> (\<forall>n \<in> set nodes. reachable cnt n))"
proof (induction nodes arbitrary: msg st)
  case Nil
  have "collected cnt [] = Map.empty" by (rule ext) (simp add: collected_def map_filter_def)
  then show ?case by (simp add: act_simps)
next
  case (Cons n nodes)
  have c: "counts env cs cnt w [n]" "counts env cs cnt w nodes" using Cons.prems counts_Cons by blast+
  obtain st1 re where 1: "CollectNodeIntsAndIps env cs n (w, st) = (Ok re, (w, st1))"
    and m: "map_of st1 = map_of st ++ collected cnt [n]"
    and s: "sta_Code re = Success \<longleftrightarrow> reachable cnt n" "sta_Code re \<noteq> Success \<longrightarrow> sta_Message re \<noteq> []"
    by (rule Collect_step[OF c(1), of st])
  define msg1 where "msg1 = (if sta_Code re \<noteq> Success then msg @ sta_Message re else msg)"
  obtain msg2 st2 where 2: "collectAll env cs nodes msg1 (w, st1) = (Ok msg2, (w, st2))"
    "map_of st2 = map_of st1 ++ collected cnt nodes"
    "msg2 = [] \<longleftrightarrow> msg1 = [] \<and> (\<forall>n \<in> set nodes. reachable cnt n)"
    using Cons.IH[OF c(2), of msg1 st1] by blast
  have "map_of st2 = map_of st ++ collected cnt (n # nodes)"
    by (simp only: 2(2) m collected_Cons[of cnt n nodes] map_add_assoc)
  then show ?case using 1 2 s by (auto simp: abind_def msg1_def)
qed

section \<open>Properties of the scheduler plugins\<close>


definition demo_info :: "string \<Rightarrow> int \<Rightarrow> PodInfo" where
  "demo_info n t = \<lparr>pi_Namespace = ''ns'', pi_Name = n, pi_Priority = None, pi_QOS = Guaranteed, pi_InitialAttempt = t\<rparr>"




text \<open>When no score is positive, the division by the highest score panics.\<close>

lemma NormalizeScore_panics:
  assumes "scores \<noteq> []" and "list_all (\<lambda>(n, s). s \<le> 0) scores"
  shows "NormalizeScore scores = Panic"
proof -
  have "Max (insert 0 (snd ` set scores)) = 0" by (rule Max_eqI) (use assms(2) in \<open>auto simp: list_all_iff\<close>)
  then show ?thesis using assms(1) by (cases scores) (auto simp: NormalizeScore_def foldl_max64 Let_def split: prod.splits)
qed


definition demo_sched :: Scheduling where
  "demo_sched = \<lparr>sch_computeClient = 1, sch_args = \<lparr>ar_OpenStackConf = \<lparr>os_UserName = [], os_PassWord = [], os_Project = [],
     os_Domain = [], os_AuthUrl = []\<rparr>, ar_MaxInstanceIps = 20, ar_MaxInstanceEnis = 16\<rparr>\<rparr>"

definition demo_node :: Node where
  "demo_node = \<lparr>nd_Name = ''n'', nd_Addresses = [(''Hostname'', ''n''), (''InternalIP'', ''10.0.0.5'')]\<rparr>"


end
