(* ===== verification/IPSet.thy ===== *)
theory IPSet
  imports Go_Net
begin

text \<open>
  \<^verbatim>\<open>pkg/utils/ipset\<close>: the wrapper of the ipset command (\<^verbatim>\<open>ipset.go\<close>, \<^verbatim>\<open>types.go\<close>) and its in-memory
  implementation (\<^verbatim>\<open>testing/fake.go\<close>). The command runner is a function of \<open>exec\<close>, which stands for
  \<^verbatim>\<open>exec.Command(...).CombinedOutput()\<close> of the vendored package \<^verbatim>\<open>k8s.io/utils/exec\<close>: it maps the program and
  its arguments to the output and, when the command fails, the text of the error.
  \<open>ipset_iface\<close> is the Go interface \<^verbatim>\<open>ipset.Interface\<close> as a record of operations on a world,
  the locale \<open>ipset_handle\<close> the contract its clients rely on, and \<open>fake\<close> the proof that
  \<^verbatim>\<open>FakeIPSet\<close> fulfils it.
\<close>

section \<open>Sets and entries\<close>

definition HashIP :: string where "HashIP = ''hash:ip''"
definition HashIPPort :: string where "HashIPPort = ''hash:ip,port''"
definition HashIPPortIP :: string where "HashIPPortIP = ''hash:ip,port,ip''"
definition HashIPPortNet :: string where "HashIPPortNet = ''hash:ip,port,net''"
definition BitmapPort :: string where "BitmapPort = ''bitmap:port''"
definition HashNet :: string where "HashNet = ''hash:net''"
definition HashNetPort :: string where "HashNetPort = ''hash:net,port''"

lemmas set_type_defs = HashIP_def HashIPPort_def HashIPPortIP_def HashIPPortNet_def BitmapPort_def
  HashNet_def HashNetPort_def

definition DefaultPortRange :: string where "DefaultPortRange = ''0-65535''"

definition ValidIPSetTypes :: "string list" where
  "ValidIPSetTypes = [HashIP, HashIPPort, HashIPPortIP, BitmapPort, HashIPPortNet, HashNet, HashNetPort]"

record IPSet =
  set_Name :: string
  set_SetType :: string
  set_HashFamily :: string
  set_HashSize :: int
  set_MaxElem :: int
  set_PortRange :: string

record Entry =
  entry_IP :: string
  entry_Port :: int
  entry_Protocol :: string
  entry_Net :: string
  entry_IP2 :: string
  entry_SetType :: string
  entry_Options :: "string list"

text \<open>The zero values of the two structs, which composite literals start from.\<close>

definition IPSet0 :: IPSet where
  "IPSet0 = \<lparr>set_Name = [], set_SetType = [], set_HashFamily = [], set_HashSize = 0, set_MaxElem = 0, set_PortRange = []\<rparr>"

definition Entry0 :: Entry where
  "Entry0 = \<lparr>entry_IP = [], entry_Port = 0, entry_Protocol = [], entry_Net = [], entry_IP2 = [],
     entry_SetType = [], entry_Options = []\<rparr>"

section \<open>Validation\<close>

definition validatePortRange :: "string \<Rightarrow> bool" where
  "validatePortRange portRange =
     (let strs = split (CHR ''-'') portRange in
      length strs = 2 \<and> list_all (\<lambda>s. case atoi s of None \<Rightarrow> False | Some num \<Rightarrow> \<not> num < 0) strs)"

definition validateIPSetType :: "string \<Rightarrow> bool" where
  "validateIPSetType t = List.member ValidIPSetTypes t"

definition validateHashFamily :: "string \<Rightarrow> bool" where
  "validateHashFamily family = (family = ''inet'' \<or> family = ''inet6'')"

definition validateProtocol :: "string \<Rightarrow> bool" where
  "validateProtocol protocol = (protocol = ''tcp'' \<or> protocol = ''udp'')"

definition IPSet_Validate :: "IPSet \<Rightarrow> bool" where
  "IPSet_Validate st =
     (if (set_SetType st = HashIPPort \<or> set_SetType st = HashIPPortIP \<or> set_SetType st = HashIPPortNet \<or>
          set_SetType st = HashNet \<or> set_SetType st = HashNetPort) \<and> \<not> validateHashFamily (set_HashFamily st)
      then False
      else if \<not> validateIPSetType (set_SetType st) then False
      else if set_SetType st = BitmapPort \<and> \<not> validatePortRange (set_PortRange st) then False
      else if set_HashSize st \<le> 0 then False
      else if set_MaxElem st \<le> 0 then False
      else True)"

text \<open>
  \<^verbatim>\<open>parsePortRange\<close>: the loop over the two halves swaps them when the first is greater. \<open>atoiErr\<close>
  is the text of the error of \<^verbatim>\<open>strconv.Atoi\<close>.
\<close>

definition atoiErr :: "string \<Rightarrow> string" where
  "atoiErr s =
     (let body = (if s \<noteq> [] \<and> (hd s = CHR ''-'' \<or> hd s = CHR ''+'') then tl s else s)
      in ''strconv.Atoi: parsing '' @ [CHR 0x22] @ s @ [CHR 0x22] @
         (if body \<noteq> [] \<and> list_all isDigit body then '': value out of range'' else '': invalid syntax''))"

definition parsePort :: "string \<Rightarrow> int result" where
  "parsePort s = (case atoi s of
      None \<Rightarrow> Err (atoiErr s)
    | Some num \<Rightarrow> if num < 0 then Err (''port number '' @ itoa num @ '' should be >=0'') else Ok num)"

definition parsePortRange :: "string \<Rightarrow> (int \<times> int) result" where
  "parsePortRange portRange0 =
     (let portRange = (if portRange0 = [] then DefaultPortRange else portRange0);
          strs = split (CHR ''-'') portRange
      in if length strs \<noteq> 2 then Err ''port range should be in the format of `a-b`''
         else rbind (parsePort (strs ! 0)) (\<lambda>beginPort.
              rbind (parsePort (strs ! 1)) (\<lambda>num.
                if beginPort > num then Ok (num, beginPort) else Ok (beginPort, num))))"

text \<open>
  The validators of an entry. \<^verbatim>\<open>validateProtocol\<close> stores the default protocol in the entry, so
  they return the entry as well.
\<close>

definition Entry_validateProtocol :: "Entry \<Rightarrow> bool \<times> Entry" where
  "Entry_validateProtocol e =
     (let e = (if entry_Protocol e = [] then e\<lparr>entry_Protocol := ''tcp''\<rparr> else e)
      in (validateProtocol (entry_Protocol e), e))"

definition validateHashIP :: "Entry \<Rightarrow> bool" where
  "validateHashIP e = (ParseIP (entry_IP e) \<noteq> [])"

definition validateHashNet :: "Entry \<Rightarrow> bool" where
  "validateHashNet e = (if \<not> is_Ok (ParseCIDR (entry_Net e)) then False else False)"

definition validateHashIPPort :: "Entry \<Rightarrow> bool \<times> Entry" where
  "validateHashIPPort e = (case Entry_validateProtocol e of (valid, e) \<Rightarrow>
     if \<not> valid then (False, e) else (validateHashIP e, e))"

definition validateHashIPPortIP :: "Entry \<Rightarrow> bool \<times> Entry" where
  "validateHashIPPortIP e = (case validateHashIPPort e of (valid, e) \<Rightarrow>
     if \<not> valid then (False, e)
     else if ParseIP (entry_IP2 e) = [] then (False, e)
     else (True, e))"

definition validateHashNetPort :: "Entry \<Rightarrow> bool \<times> Entry" where
  "validateHashNetPort e = (case Entry_validateProtocol e of (valid, e) \<Rightarrow>
     if valid then (validateHashNet e, e) else (False, e))"

definition validateHashIPPortNet :: "Entry \<Rightarrow> bool \<times> Entry" where
  "validateHashIPPortNet e = (if validateHashIP e then validateHashNetPort e else (False, e))"

text \<open>\<open>st\<close> is \<open>None\<close> for the nil pointer.\<close>

definition validateBitmapPort :: "Entry \<Rightarrow> IPSet option \<Rightarrow> bool" where
  "validateBitmapPort e st =
     (case st of
        None \<Rightarrow> False
      | Some s \<Rightarrow>
          (case parsePortRange (set_PortRange s) of
             Ok (begin_, end_) \<Rightarrow> if entry_Port e < begin_ \<or> entry_Port e > end_ then False else True
           | _ \<Rightarrow> False))"

definition Entry_Validate :: "Entry \<Rightarrow> IPSet option \<Rightarrow> bool \<times> Entry" where
  "Entry_Validate e st =
     (if entry_Port e < 0 then (False, e)
      else if entry_SetType e = HashIP then (validateHashIP e, e)
      else if entry_SetType e = HashIPPort then validateHashIPPort e
      else if entry_SetType e = HashIPPortIP then validateHashIPPortIP e
      else if entry_SetType e = HashIPPortNet then validateHashIPPortNet e
      else if entry_SetType e = BitmapPort then (validateBitmapPort e st, e)
      else if entry_SetType e = HashNet then (validateHashNet e, e)
      else if entry_SetType e = HashNetPort then validateHashNetPort e
      else (True, e))"

definition Entry_String :: "Entry \<Rightarrow> string" where
  "Entry_String e =
     (if entry_SetType e = HashIP then entry_IP e
      else if entry_SetType e = HashIPPort then
        entry_IP e @ '','' @ entry_Protocol e @ '':'' @ itoa (entry_Port e)
      else if entry_SetType e = HashIPPortIP then
        entry_IP e @ '','' @ entry_Protocol e @ '':'' @ itoa (entry_Port e) @ '','' @ entry_IP2 e
      else if entry_SetType e = HashIPPortNet then
        entry_IP e @ '','' @ entry_Protocol e @ '':'' @ itoa (entry_Port e) @ '','' @ entry_Net e
      else if entry_SetType e = HashNet then entry_Net e
      else if entry_SetType e = HashNetPort then
        entry_Net e @ '','' @ entry_Protocol e @ '':'' @ itoa (entry_Port e)
      else if entry_SetType e = BitmapPort then itoa (entry_Port e)
      else [])"

definition ipset_IsNotFoundError :: "string \<Rightarrow> bool" where
  "ipset_IsNotFoundError es = (contains es ''does not exist'' \<or> contains es ''element is missing'')"

section \<open>The command runner\<close>

type_synonym 'w exec = "string \<Rightarrow> string list \<Rightarrow> 'w \<Rightarrow> (string \<times> string option) \<times> 'w"

text \<open>Run a command whose output is dropped; \<open>f\<close> builds the error from that of the command and its output.\<close>

definition runCmd :: "'w exec \<Rightarrow> string list \<Rightarrow> (string \<Rightarrow> string \<Rightarrow> string) \<Rightarrow> ('w, string) act" where
  "runCmd exec args f = (\<lambda>w. case exec ''ipset'' args w of
      ((out, None), w') \<Rightarrow> (Ok out, w')
    | ((out, Some e), w') \<Rightarrow> (Err (f e out), w'))"

text \<open>The defaults that \<^verbatim>\<open>CreateSet\<close> stores in the struct before it validates it.\<close>

definition setDefaults :: "IPSet \<Rightarrow> IPSet" where
  "setDefaults st =
     (let st = (if set_HashSize st = 0 then st\<lparr>set_HashSize := 1024\<rparr> else st);
          st = (if set_MaxElem st = 0 then st\<lparr>set_MaxElem := 65536\<rparr> else st);
          st = (if set_HashFamily st = [] then st\<lparr>set_HashFamily := ''inet''\<rparr> else st);
          st = (if set_SetType st = [] then st\<lparr>set_SetType := HashIPPort\<rparr> else st)
      in if set_PortRange st = [] then st\<lparr>set_PortRange := DefaultPortRange\<rparr> else st)"

definition createSetArgs :: "IPSet \<Rightarrow> bool \<Rightarrow> string list" where
  "createSetArgs st ignoreExistErr =
     [''create'', set_Name st, set_SetType st] @
     (if set_SetType st = HashIPPortIP \<or> set_SetType st = HashIPPort
      then [''family'', set_HashFamily st, ''hashsize'', itoa (set_HashSize st), ''maxelem'', itoa (set_MaxElem st)]
      else []) @
     (if set_SetType st = BitmapPort then [''range'', set_PortRange st] else []) @
     (if ignoreExistErr then [''-exist''] else [])"

definition runner_createSet :: "'w exec \<Rightarrow> IPSet \<Rightarrow> bool \<Rightarrow> ('w, unit) act" where
  "runner_createSet exec st ignoreExistErr =
     abind (runCmd exec (createSetArgs st ignoreExistErr)
              (\<lambda>e _. ''error creating ipset '' @ set_Name st @ '', error: '' @ e)) (\<lambda>_. aret ())"

definition runner_CreateSet :: "'w exec \<Rightarrow> IPSet \<Rightarrow> bool \<Rightarrow> ('w, unit) act" where
  "runner_CreateSet exec st0 ignoreExistErr =
     (let st = setDefaults st0 in
      if \<not> IPSet_Validate st then aerr ''error creating ipset since it's invalid''
      else runner_createSet exec st ignoreExistErr)"

definition runner_AddEntry :: "'w exec \<Rightarrow> string \<Rightarrow> IPSet \<Rightarrow> bool \<Rightarrow> ('w, unit) act" where
  "runner_AddEntry exec entry st ignoreExistErr =
     abind (runCmd exec ([''add'', set_Name st, entry] @ (if ignoreExistErr then [''-exist''] else []))
              (\<lambda>e _. ''error adding entry '' @ entry @ '', error: '' @ e)) (\<lambda>_. aret ())"

definition runner_AddEntryWithOptions :: "'w exec \<Rightarrow> Entry \<Rightarrow> IPSet \<Rightarrow> bool \<Rightarrow> ('w, unit) act" where
  "runner_AddEntryWithOptions exec entry st ignoreExistErr =
     abind (runCmd exec ([''add''] @ (if ignoreExistErr then [''-exist''] else []) @
                [set_Name st, Entry_String entry] @ entry_Options entry)
              (\<lambda>e _. ''error adding entry '' @ Entry_String entry @ '', error: '' @ e)) (\<lambda>_. aret ())"

definition runner_DelEntry :: "'w exec \<Rightarrow> string \<Rightarrow> string \<Rightarrow> ('w, unit) act" where
  "runner_DelEntry exec entry st =
     abind (runCmd exec [''del'', st, entry]
              (\<lambda>e _. ''error deleting entry '' @ entry @ '': from set: '' @ st @ '', error: '' @ e)) (\<lambda>_. aret ())"

definition runner_DelEntryWithOptions :: "'w exec \<Rightarrow> string \<Rightarrow> string \<Rightarrow> string list \<Rightarrow> ('w, unit) act" where
  "runner_DelEntryWithOptions exec st entry options =
     abind (runCmd exec [''del'', st, entry]
              (\<lambda>e _. ''error deleting entry '' @ entry @ '': from set: '' @ st @ '', error: '' @ e)) (\<lambda>_. aret ())"

definition runner_TestEntry :: "'w exec \<Rightarrow> string \<Rightarrow> string \<Rightarrow> ('w, bool) act" where
  "runner_TestEntry exec entry st =
     abind (runCmd exec [''test'', st, entry]
              (\<lambda>e out. ''error testing entry '' @ entry @ '': '' @ e @ '' ('' @ out @ '')''))
       (\<lambda>out. if contains out ''NOT'' then aret False else aret True)"

definition runner_FlushSet :: "'w exec \<Rightarrow> string \<Rightarrow> ('w, unit) act" where
  "runner_FlushSet exec st =
     abind (runCmd exec [''flush'', st] (\<lambda>e _. ''error flushing set: '' @ st @ '', error: '' @ e)) (\<lambda>_. aret ())"

definition runner_DestroySet :: "'w exec \<Rightarrow> string \<Rightarrow> ('w, unit) act" where
  "runner_DestroySet exec st =
     abind (runCmd exec [''destroy'', st]
              (\<lambda>e out. ''error destroying set '' @ st @ '', error: '' @ e @ ''('' @ out @ '')'')) (\<lambda>_. aret ())"

definition runner_DestroyAllSets :: "'w exec \<Rightarrow> ('w, unit) act" where
  "runner_DestroyAllSets exec =
     abind (runCmd exec [''destroy''] (\<lambda>e _. ''error destroying all sets, error: '' @ e)) (\<lambda>_. aret ())"

definition newline :: char where "newline = CHR 0x0A"

definition runner_ListSets :: "'w exec \<Rightarrow> ('w, string list) act" where
  "runner_ListSets exec =
     abind (runCmd exec [''list'', ''-n''] (\<lambda>e _. ''error listing all sets, error: '' @ e))
       (\<lambda>out. aret (split newline out))"

text \<open>
  Deleting the match of \<open>(?m)^(.*\n)*Members:\n\<close>: the repetition is greedy and the match starts at the
  first line, so everything up to the last line that reads \<open>Members:\<close> and ends in a newline goes.
\<close>

definition afterMembers :: "string list \<Rightarrow> string list" where
  "afterMembers ls =
     (if ''Members:'' \<in> set (butlast ls)
      then rev (takeWhile (\<lambda>l. l \<noteq> ''Members:'') (rev (butlast ls))) @ [last ls]
      else ls)"

definition runner_ListEntries :: "'w exec \<Rightarrow> string \<Rightarrow> ('w, string list) act" where
  "runner_ListEntries exec st =
     (if st = [] then aerr ''set name can't be nil''
      else abind (runCmd exec [''list'', st] (\<lambda>e _. ''error listing set: '' @ st @ '', error: '' @ e))
        (\<lambda>out. aret (filter (\<lambda>s. s \<noteq> [])
           (split newline (join [newline] (afterMembers (split newline out)))))))"

definition runner_SaveAllSets :: "'w exec \<Rightarrow> ('w, string) act" where
  "runner_SaveAllSets exec = runCmd exec [''list''] (\<lambda>e _. ''error saving all sets, error: '' @ e)"

text \<open>The leftmost match of \<open>v[0-9]+\.[0-9]+\<close>.\<close>

definition versionAt :: "string \<Rightarrow> string option" where
  "versionAt s =
     (if s \<noteq> [] \<and> hd s = CHR ''v'' then
        (let a = takeWhile isDigit (tl s); r = dropWhile isDigit (tl s) in
         if a \<noteq> [] \<and> r \<noteq> [] \<and> hd r = CHR ''.'' \<and> takeWhile isDigit (tl r) \<noteq> []
         then Some (''v'' @ a @ ''.'' @ takeWhile isDigit (tl r)) else None)
      else None)"

fun findVersion :: "string \<Rightarrow> string option" where
  "findVersion [] = None"
| "findVersion (c # cs) = (case versionAt (c # cs) of Some v \<Rightarrow> Some v | None \<Rightarrow> findVersion cs)"

definition getIPSetVersionString :: "'w exec \<Rightarrow> ('w, string) act" where
  "getIPSetVersionString exec =
     abind (runCmd exec [''--version''] (\<lambda>e _. e))
       (\<lambda>out. case findVersion out of
          None \<Rightarrow> aerr (''no ipset version found in string: '' @ out)
        | Some v \<Rightarrow> aret v)"

section \<open>The interface\<close>

record 'w ipset_iface =
  ips_FlushSet :: "string \<Rightarrow> ('w, unit) act"
  ips_DestroySet :: "string \<Rightarrow> ('w, unit) act"
  ips_DestroyAllSets :: "('w, unit) act"
  ips_CreateSet :: "IPSet \<Rightarrow> bool \<Rightarrow> ('w, unit) act"
  ips_AddEntry :: "string \<Rightarrow> IPSet \<Rightarrow> bool \<Rightarrow> ('w, unit) act"
  ips_DelEntry :: "string \<Rightarrow> string \<Rightarrow> ('w, unit) act"
  ips_TestEntry :: "string \<Rightarrow> string \<Rightarrow> ('w, bool) act"
  ips_ListEntries :: "string \<Rightarrow> ('w, string list) act"
  ips_ListSets :: "('w, string list) act"
  ips_GetVersion :: "('w, string) act"
  ips_AddEntryWithOptions :: "Entry \<Rightarrow> IPSet \<Rightarrow> bool \<Rightarrow> ('w, unit) act"
  ips_DelEntryWithOptions :: "string \<Rightarrow> string \<Rightarrow> string list \<Rightarrow> ('w, unit) act"
  ips_SaveAllSets :: "('w, string) act"

text \<open>\<^verbatim>\<open>New\<close>: the interface over the command.\<close>

definition ipset_New :: "'w exec \<Rightarrow> 'w ipset_iface" where
  "ipset_New exec = \<lparr>
     ips_FlushSet = runner_FlushSet exec,
     ips_DestroySet = runner_DestroySet exec,
     ips_DestroyAllSets = runner_DestroyAllSets exec,
     ips_CreateSet = runner_CreateSet exec,
     ips_AddEntry = runner_AddEntry exec,
     ips_DelEntry = runner_DelEntry exec,
     ips_TestEntry = runner_TestEntry exec,
     ips_ListEntries = runner_ListEntries exec,
     ips_ListSets = runner_ListSets exec,
     ips_GetVersion = getIPSetVersionString exec,
     ips_AddEntryWithOptions = runner_AddEntryWithOptions exec,
     ips_DelEntryWithOptions = runner_DelEntryWithOptions exec,
     ips_SaveAllSets = runner_SaveAllSets exec\<rparr>"

text \<open>The line under which an entry is listed: its text followed by its options.\<close>

definition entryLine :: "Entry \<Rightarrow> string" where
  "entryLine e = join '' '' (Entry_String e # entry_Options e)"

text \<open>
  The contract of a healthy handle: \<open>members w n\<close> are the listed entries of the set \<open>n\<close> in the
  world \<open>w\<close>, \<open>None\<close> when there is no such set.
\<close>

locale ipset_handle =
  fixes H :: "'w ipset_iface"
    and inv :: "'w \<Rightarrow> bool"
    and members :: "'w \<Rightarrow> string \<Rightarrow> string set option"
  assumes create_law: "inv w \<Longrightarrow> \<exists>w'. ips_CreateSet H st True w = (Ok (), w') \<and> inv w' \<and>
      members w' = (members w)(set_Name st := Some (case members w (set_Name st) of None \<Rightarrow> {} | Some S \<Rightarrow> S))"
    and list_law: "inv w \<Longrightarrow> members w n = Some S \<Longrightarrow> \<exists>l. ips_ListEntries H n w = (Ok l, w) \<and> set l = S"
    and add_law: "inv w \<Longrightarrow> members w (set_Name st) = Some S \<Longrightarrow>
      \<exists>w'. ips_AddEntryWithOptions H e st True w = (Ok (), w') \<and> inv w' \<and>
        members w' = (members w)(set_Name st := Some (insert (entryLine e) S))"
    and del_law: "inv w \<Longrightarrow> members w n = Some S \<Longrightarrow>
      \<exists>w'. ips_DelEntryWithOptions H n l opts w = (Ok (), w') \<and> inv w' \<and>
        members w' = (members w)(n := Some (S - {join '' '' (l # opts)}))"
    and sets_law: "inv w \<Longrightarrow> \<exists>l. ips_ListSets H w = (Ok l, w) \<and> set l = dom (members w)"
    and destroy_law: "inv w \<Longrightarrow> \<exists>w'. ips_DestroySet H n w = (Ok (), w') \<and> inv w' \<and>
        members w' = (members w)(n := None)"
begin

text \<open>Adding and then deleting the same line leaves every set as it was, but for that line.\<close>

lemma add_then_del:
  assumes "inv w" "members w (set_Name st) = Some S" "entry_Options e = []"
  shows "\<exists>w' w''. ips_AddEntryWithOptions H e st True w = (Ok (), w') \<and>
    ips_DelEntryWithOptions H (set_Name st) (Entry_String e) [] w' = (Ok (), w'') \<and>
    members w'' = (members w)(set_Name st := Some (S - {entryLine e}))"
proof -
  obtain w' where w': "ips_AddEntryWithOptions H e st True w = (Ok (), w')" "inv w'"
    "members w' = (members w)(set_Name st := Some (insert (entryLine e) S))"
    using add_law[OF assms(1,2)] by blast
  then obtain w'' where "ips_DelEntryWithOptions H (set_Name st) (Entry_String e) [] w' = (Ok (), w'')"
    "members w'' = (members w')(set_Name st := Some (insert (entryLine e) S - {join '' '' [Entry_String e]}))"
    using del_law[OF w'(2), of "set_Name st" "insert (entryLine e) S" "Entry_String e" "[]"] by auto
  moreover have "join '' '' [Entry_String e] = entryLine e" using assms(3) by (simp add: entryLine_def)
  ultimately show ?thesis using w' by auto
qed

end

section \<open>Facts\<close>

lemma parsePort_Ok: "parsePort s = Ok n \<longleftrightarrow> atoi s = Some n \<and> 0 \<le> n"
  by (auto simp: parsePort_def split: option.splits)

lemma validatePortRange_parse:
  "portRange \<noteq> [] \<Longrightarrow> validatePortRange portRange \<longleftrightarrow> is_Ok (parsePortRange portRange)"
proof -
  assume n: "portRange \<noteq> []"
  show ?thesis
  proof (cases "length (split (CHR ''-'') portRange) = 2")
    case False
    then show ?thesis using n by (simp add: validatePortRange_def parsePortRange_def Let_def)
  next
    case True
    then obtain a b where "split (CHR ''-'') portRange = [a, b]"
      by (auto simp: length_Suc_conv numeral_eq_Suc)
    then show ?thesis using n
      by (cases "atoi a"; cases "atoi b")
        (auto simp: validatePortRange_def parsePortRange_def parsePort_def Let_def)
  qed
qed

lemma parsePortRange_ordered:
  assumes "parsePortRange s = Ok (b, e)"
  shows "0 \<le> b \<and> b \<le> e"
  using assms by (auto simp: parsePortRange_def Let_def rbind_eq_Ok parsePort_Ok split: if_splits)

lemma split_dash_pair:
  "0 \<le> a \<Longrightarrow> 0 \<le> b \<Longrightarrow> split (CHR ''-'') (itoa a @ ''-'' @ itoa b) = [itoa a, itoa b]"
  using showNat_no_punct[of "CHR ''-''"] by (simp add: itoa_def split_append_sep split_no_sep)

lemma parsePortRange_print:
  assumes "0 \<le> a" "a < 2 ^ 63" "0 \<le> b" "b < 2 ^ 63"
  shows "parsePortRange (itoa a @ ''-'' @ itoa b) = Ok (min a b, max a b)"
  using assms by (simp add: parsePortRange_def Let_def split_dash_pair parsePort_def atoi_itoa del: append_Cons)

lemma afterMembers_app:
  assumes "''Members:'' \<notin> set (butlast es)" and "es \<noteq> []"
  shows "afterMembers (hs @ ''Members:'' # es) = es"
proof -
  have b: "butlast (hs @ ''Members:'' # es) = hs @ ''Members:'' # butlast es"
    using assms(2) by (simp add: butlast_append)
  have "takeWhile (\<lambda>l. l \<noteq> ''Members:'') (rev (butlast es) @ ''Members:'' # rev hs) = rev (butlast es)"
    using assms(1) by (intro takeWhile_tail[THEN trans] takeWhile_append2[THEN trans]) (auto simp: takeWhile_eq_all_conv)
  then show ?thesis using assms(2) by (simp add: afterMembers_def b)
qed

section \<open>Properties\<close>

text \<open>
  Whatever lines the header has, \<^verbatim>\<open>ListEntries\<close> returns exactly the members of a set, in order, from the
  output of \<^verbatim>\<open>ipset list\<close>: a header, the line \<^verbatim>\<open>Members:\<close> and one line per member.
\<close>

theorem ListEntries_reads_members:
  assumes "n \<noteq> []"
    and "exec ''ipset'' [''list'', n] w = ((join [newline] (hs @ [''Members:''] @ es @ [[]]), None), w')"
    and "list_all (\<lambda>l. newline \<notin> set l) hs"
    and "list_all (\<lambda>l. l \<noteq> [] \<and> newline \<notin> set l \<and> l \<noteq> ''Members:'') es"
  shows "runner_ListEntries exec n w = (Ok es, w')"
proof -
  let ?ls = "hs @ ''Members:'' # es @ [[]]"
  have m: "newline \<notin> set ''Members:''" by (simp add: newline_def)
  have "split newline (join [newline] ?ls) = ?ls"
    using assms(3,4) m by (intro split_join) (auto simp: list_all_iff)
  moreover have "afterMembers ?ls = es @ [[]]"
    using assms(4) by (intro afterMembers_app) (auto simp: list_all_iff)
  moreover have "split newline (join [newline] (es @ [[]])) = es @ [[]]"
  proof (rule split_join)
    have "\<forall>x \<in> set es. newline \<notin> set x" using assms(4) unfolding list_all_iff by blast
    then show "newline \<notin> set x" if "x \<in> set (es @ [[]])" for x using that by (cases "x = []") simp_all
  qed simp
  moreover have "filter (\<lambda>s. s \<noteq> []) es = es" using assms(4) by (auto simp: list_all_iff filter_id_conv)
  ultimately show ?thesis using assms(1,2)
    by (simp add: runner_ListEntries_def runCmd_def abind_def aret_def)
qed

definition list_output :: string where
  "list_output = join [newline] ([''Name: foobar'', ''Type: hash:ip'', ''References: 0''] @ [''Members:''] @
     [''192.168.1.2'', ''192.168.1.1''] @ [[]])"

theorem ListEntries_reads_members_witness:
  "runner_ListEntries (\<lambda>_ _ w. ((list_output, None), w)) ''foobar'' () = (Ok [''192.168.1.2'', ''192.168.1.1''], ())"
  by (rule ListEntries_reads_members[where hs = "[''Name: foobar'', ''Type: hash:ip'', ''References: 0'']"])
    (simp_all add: list_output_def newline_def)

text \<open>
  \<^verbatim>\<open>parsePortRange\<close> reads the range that \<^verbatim>\<open>a-b\<close> prints in either order, returns it with the smaller
  port first, and accepts exactly what \<^verbatim>\<open>validatePortRange\<close> accepts.
\<close>

theorem parsePortRange_roundtrip:
  assumes "0 \<le> a" and "a < 2 ^ 63" and "0 \<le> b" and "b < 2 ^ 63"
  shows "parsePortRange (itoa a @ ''-'' @ itoa b) = Ok (min a b, max a b) \<and>
    validatePortRange (itoa a @ ''-'' @ itoa b)"
  using parsePortRange_print[OF assms] validatePortRange_parse[of "itoa a @ ''-'' @ itoa b"] by auto

theorem parsePortRange_roundtrip_witness:
  "parsePortRange (itoa 8080 @ ''-'' @ itoa 80) = Ok (80, 8080) \<and> validatePortRange (itoa 8080 @ ''-'' @ itoa 80)"
  using parsePortRange_roundtrip[of 8080 80] by simp

text \<open>
  \<^verbatim>\<open>validateHashNet\<close> returns false on both of its branches, so no entry of a network set is ever
  valid, not even one with a well-formed network.
\<close>

theorem hash_net_entries_never_valid:
  assumes "entry_SetType e \<in> {HashNet, HashNetPort, HashIPPortNet}"
  shows "fst (Entry_Validate e st) = False"
  using assms
  by (auto simp: Entry_Validate_def validateHashNet_def validateHashNetPort_def validateHashIPPortNet_def set_type_defs
      split: prod.splits)

theorem hash_net_entries_never_valid_witness:
  "is_Ok (ParseCIDR ''10.0.1.0/24'') \<and>
   fst (Entry_Validate (Entry0\<lparr>entry_Net := ''10.0.1.0/24'', entry_SetType := HashNet\<rparr>) None) = False"
proof -
  have "is_Ok (ParseCIDR ''10.0.1.0/24'')" by code_simp
  then show ?thesis
    using hash_net_entries_never_valid[of "Entry0\<lparr>entry_Net := ''10.0.1.0/24'', entry_SetType := HashNet\<rparr>" None] by simp
qed

text \<open>
  A set that \<^verbatim>\<open>CreateSet\<close> passes to the kernel is valid after the defaults are filled in; an invalid one
  is refused without running a command, and a set with only a name and one of the types of the controller gets
  valid defaults.
\<close>

theorem CreateSet_guard:
  "(if IPSet_Validate (setDefaults st)
    then runner_CreateSet exec st ig w =
      (case exec ''ipset'' (createSetArgs (setDefaults st) ig) w of
         ((_, None), w') \<Rightarrow> (Ok (), w')
       | ((_, Some e), w') \<Rightarrow> (Err (''error creating ipset '' @ set_Name st @ '', error: '' @ e), w'))
    else runner_CreateSet exec st ig w = (Err ''error creating ipset since it's invalid'', w)) \<and>
   IPSet_Validate (setDefaults (IPSet0\<lparr>set_Name := n, set_SetType := HashIP\<rparr>)) \<and>
   IPSet_Validate (setDefaults (IPSet0\<lparr>set_Name := n, set_SetType := HashNet\<rparr>))"
proof -
  have "set_Name (setDefaults st) = set_Name st" by (simp add: setDefaults_def Let_def)
  moreover have "IPSet_Validate (setDefaults (IPSet0\<lparr>set_Name := n, set_SetType := HashIP\<rparr>))"
    "IPSet_Validate (setDefaults (IPSet0\<lparr>set_Name := n, set_SetType := HashNet\<rparr>))" by code_simp+
  ultimately show ?thesis
    by (auto simp: runner_CreateSet_def runner_createSet_def runCmd_def act_simps Let_def
        split: prod.splits option.splits)
qed

end
