(* ===== verification/IPTables.thy ===== *)
theory IPTables
  imports Go_Net "HOL-Library.AList"
begin

text \<open>
  \<^verbatim>\<open>pkg/utils/iptables\<close>: the wrapper of the iptables commands (\<^verbatim>\<open>iptables.go\<close>) and the
  reader of \<^verbatim>\<open>iptables-save\<close> output (\<^verbatim>\<open>save_restore.go\<close>). The commands run through the parameter \<open>exec\<close>
  (program, arguments, standard input), which returns the output and the error of the vendored
  package \<^verbatim>\<open>k8s.io/utils/exec\<close>, with the status when the program exited. The mutex of the runner is held
  from the start to the end of every operation, so an operation is one function on the world.
  \<open>iptables_iface\<close> is the Go interface, \<open>iptables_handle\<close> the contract of its clients.
\<close>

section \<open>Versions (k8s.io/apimachinery/pkg/util/version)\<close>

text \<open>The greedy match of \<open>[0-9]+(\.[0-9]+)*\<close> at the start of a string: the groups and the rest.\<close>

function numGroups :: "string \<Rightarrow> (string list \<times> string) option" where
  "numGroups s =
     (let a = takeWhile isDigit s; r = dropWhile isDigit s in
      if a = [] then None
      else if r \<noteq> [] \<and> hd r = CHR ''.'' then
        (case numGroups (tl r) of
           None \<Rightarrow> Some ([a], r)
         | Some (gs, rest) \<Rightarrow> Some (a # gs, rest))
      else Some ([a], r))"
  by auto
termination
  by (relation "measure length") (auto intro: length_tl_dropWhile simp only: in_measure)

declare numGroups.simps [simp del]

definition versionSpace :: "char \<Rightarrow> bool" where
  "versionSpace c \<longleftrightarrow> c \<in> {CHR '' '', CHR 0x09, CHR 0x0A, CHR 0x0C, CHR 0x0D}"

text \<open>
  \<^verbatim>\<open>ParseGeneric\<close>: \<open>None\<close> is its error. \<^verbatim>\<open>ParseUint\<close> fails beyond 64 bits.
\<close>

definition ParseGeneric :: "string \<Rightarrow> nat list option" where
  "ParseGeneric str =
     (let s1 = dropWhile versionSpace str;
          s2 = (if s1 \<noteq> [] \<and> hd s1 = CHR ''v'' then tl s1 else s1)
      in case numGroups s2 of
           None \<Rightarrow> None
         | Some (components, extra) \<Rightarrow>
             if CHR 0x0A \<in> set extra then None
             else if length components < 2 then None
             else if hasPrefix (hd components) ''0'' \<and> hd components \<noteq> ''0'' then None
             else if list_ex (\<lambda>c. readNat c \<ge> 2 ^ 64) components then None
             else Some (map readNat components))"

fun compareVersion :: "nat list \<Rightarrow> nat list \<Rightarrow> int" where
  "compareVersion (v # vs) (x # os) =
     (if x < v then 1 else if x > v then -1 else compareVersion vs os)"
| "compareVersion vs [] = (if vs \<noteq> [] \<and> \<not> list_all (\<lambda>n. n = 0) vs then 1 else 0)"
| "compareVersion [] os = (if \<not> list_all (\<lambda>n. n = 0) os then -1 else 0)"

definition AtLeast :: "nat list \<Rightarrow> nat list \<Rightarrow> bool" where
  "AtLeast v mn = (compareVersion v mn \<noteq> -1)"

definition LessThan :: "nat list \<Rightarrow> nat list \<Rightarrow> bool" where
  "LessThan v x = (compareVersion v x = -1)"

section \<open>The runner\<close>

text \<open>\<open>ce_exit\<close> is the status when the error is an \<^verbatim>\<open>ExitError\<close> whose \<^verbatim>\<open>Exited()\<close> holds.\<close>

record cmd_error =
  ce_text :: string
  ce_exit :: "int option"

type_synonym 'w xexec = "string \<Rightarrow> string list \<Rightarrow> string \<Rightarrow> 'w \<Rightarrow> (string \<times> cmd_error option) \<times> 'w"

datatype Protocol = ProtocolIpv4 | ProtocolIpv6

record iptables_runner =
  rn_protocol :: Protocol
  rn_hasCheck :: bool
  rn_waitFlag :: "string list"
  rn_restoreWaitFlag :: "string list"
  rn_lockfilePath :: string

definition iptablesSaveCommand :: "Protocol \<Rightarrow> string" where
  "iptablesSaveCommand protocol = (if protocol = ProtocolIpv6 then ''ip6tables-save'' else ''iptables-save'')"

definition iptablesRestoreCommand :: "Protocol \<Rightarrow> string" where
  "iptablesRestoreCommand protocol = (if protocol = ProtocolIpv6 then ''ip6tables-restore'' else ''iptables-restore'')"

definition iptablesCommand :: "Protocol \<Rightarrow> string" where
  "iptablesCommand protocol = (if protocol = ProtocolIpv6 then ''ip6tables'' else ''iptables'')"

definition makeFullArgs :: "string \<Rightarrow> string \<Rightarrow> string list \<Rightarrow> string list" where
  "makeFullArgs table chain args = [chain, ''-t'', table] @ args"

definition getIPTablesHasCheckCommand :: "string \<Rightarrow> bool" where
  "getIPTablesHasCheckCommand vstring =
     (case ParseGeneric ''1.4.11'' of
        None \<Rightarrow> True
      | Some minVersion \<Rightarrow>
          (case ParseGeneric vstring of None \<Rightarrow> True | Some version \<Rightarrow> AtLeast version minVersion))"

definition getIPTablesWaitFlag :: "string \<Rightarrow> string list" where
  "getIPTablesWaitFlag vstring =
     (case ParseGeneric vstring of
        None \<Rightarrow> []
      | Some version \<Rightarrow>
          (case ParseGeneric ''1.4.20'' of
             None \<Rightarrow> []
           | Some minVersion \<Rightarrow>
               if LessThan version minVersion then []
               else (case ParseGeneric ''1.4.22'' of
                   None \<Rightarrow> []
                 | Some minVersion \<Rightarrow>
                     if LessThan version minVersion then [''-w''] else [''-w'', ''5''])))"

text \<open>The leftmost match of \<open>v([0-9]+(\.[0-9]+)+)\<close>, its first group.\<close>

fun findDotted :: "string \<Rightarrow> string option" where
  "findDotted [] = None"
| "findDotted (c # cs) =
     (if c = CHR ''v'' then
        (case numGroups cs of
           Some (gs, _) \<Rightarrow> if length gs \<ge> 2 then Some (join ''.'' gs) else findDotted cs
         | None \<Rightarrow> findDotted cs)
      else findDotted cs)"

definition versionOf :: "string \<Rightarrow> 'w xexec \<Rightarrow> ('w, string) act" where
  "versionOf cmd exec = (\<lambda>w. case exec cmd [''--version''] [] w of
      ((_, Some e), w') \<Rightarrow> (Err (ce_text e), w')
    | ((out, None), w') \<Rightarrow> (case findDotted out of
          None \<Rightarrow> (Err (''no iptables version found in string: '' @ out), w')
        | Some v \<Rightarrow> (Ok v, w')))"

definition getIPTablesVersionString :: "'w xexec \<Rightarrow> Protocol \<Rightarrow> ('w, string) act" where
  "getIPTablesVersionString exec protocol = versionOf (iptablesCommand protocol) exec"

definition getIPTablesRestoreVersionString :: "'w xexec \<Rightarrow> Protocol \<Rightarrow> ('w, string) act" where
  "getIPTablesRestoreVersionString exec protocol = versionOf (iptablesRestoreCommand protocol) exec"

definition getIPTablesRestoreWaitFlag :: "'w xexec \<Rightarrow> Protocol \<Rightarrow> ('w, string list) act" where
  "getIPTablesRestoreWaitFlag exec protocol =
     acase (getIPTablesRestoreVersionString exec protocol)
       (\<lambda>vstring. if vstring = [] \<or> ParseGeneric vstring = None then aret [] else aret [''-w'', ''5''])
       (\<lambda>_. aret [])"

text \<open>\<^verbatim>\<open>newInternal\<close> without the connection to FirewallD, which \<open>iptables_NewRunner\<close> of \<open>FirewallD\<close> adds.\<close>

definition newInternal :: "'w xexec \<Rightarrow> Protocol \<Rightarrow> string \<Rightarrow> ('w, iptables_runner) act" where
  "newInternal exec protocol lockfilePath =
     abind (acase (getIPTablesVersionString exec protocol) aret (\<lambda>_. aret ''1.4.11'')) (\<lambda>vstring.
     abind (getIPTablesRestoreWaitFlag exec protocol) (\<lambda>rw.
     aret \<lparr>rn_protocol = protocol,
           rn_hasCheck = getIPTablesHasCheckCommand vstring,
           rn_waitFlag = getIPTablesWaitFlag vstring,
           rn_restoreWaitFlag = rw,
           rn_lockfilePath = (if lockfilePath = [] then ''/run/xtables.lock'' else lockfilePath)\<rparr>))"

definition ipt_run :: "'w xexec \<Rightarrow> iptables_runner \<Rightarrow> string \<Rightarrow> string list \<Rightarrow> 'w \<Rightarrow> (string \<times> cmd_error option) \<times> 'w" where
  "ipt_run exec rn operation args = exec (iptablesCommand (rn_protocol rn)) (rn_waitFlag rn @ [operation] @ args) []"

definition quoted :: "string \<Rightarrow> string" where
  "quoted s = [CHR 0x22] @ s @ [CHR 0x22]"

definition ipt_EnsureChain :: "'w xexec \<Rightarrow> iptables_runner \<Rightarrow> string \<Rightarrow> string \<Rightarrow> ('w, bool) act" where
  "ipt_EnsureChain exec rn table chain = (\<lambda>w.
     case ipt_run exec rn ''-N'' (makeFullArgs table chain []) w of
       ((_, None), w') \<Rightarrow> (Ok False, w')
     | ((out, Some e), w') \<Rightarrow>
         if ce_exit e = Some 1 then (Ok True, w')
         else (Err (''error creating chain '' @ quoted chain @ '': '' @ ce_text e @ '': '' @ out), w'))"

definition ipt_FlushChain :: "'w xexec \<Rightarrow> iptables_runner \<Rightarrow> string \<Rightarrow> string \<Rightarrow> ('w, unit) act" where
  "ipt_FlushChain exec rn table chain = (\<lambda>w.
     case ipt_run exec rn ''-F'' (makeFullArgs table chain []) w of
       ((_, None), w') \<Rightarrow> (Ok (), w')
     | ((out, Some e), w') \<Rightarrow>
         (Err (''error flushing chain '' @ quoted chain @ '': '' @ ce_text e @ '': '' @ out), w'))"

definition ipt_DeleteChain :: "'w xexec \<Rightarrow> iptables_runner \<Rightarrow> string \<Rightarrow> string \<Rightarrow> ('w, unit) act" where
  "ipt_DeleteChain exec rn table chain = (\<lambda>w.
     case ipt_run exec rn ''-X'' (makeFullArgs table chain []) w of
       ((_, None), w') \<Rightarrow> (Ok (), w')
     | ((out, Some e), w') \<Rightarrow>
         (Err (''error deleting chain '' @ quoted chain @ '': '' @ ce_text e @ '': '' @ out), w'))"

definition checkRuleUsingCheck :: "'w xexec \<Rightarrow> iptables_runner \<Rightarrow> string list \<Rightarrow> ('w, bool) act" where
  "checkRuleUsingCheck exec rn args = (\<lambda>w.
     case ipt_run exec rn ''-C'' args w of
       ((_, None), w') \<Rightarrow> (Ok True, w')
     | ((out, Some e), w') \<Rightarrow>
         if ce_exit e = Some 1 then (Ok False, w')
         else (Err (''error checking rule: '' @ ce_text e @ '': '' @ out), w'))"

text \<open>
  \<^verbatim>\<open>trimhex\<close> replaces every match of \<open>0x0+([0-9])\<close> by \<open>0x$1\<close>: all zeros are taken when a digit
  follows them, otherwise the last of at least two zeros is the digit.
\<close>

function trimhex :: "string \<Rightarrow> string" where
  "trimhex s =
     (if s = [] then []
      else if hasPrefix s ''0x'' then
        (let r = drop 2 s; z = takeWhile (\<lambda>c. c = CHR ''0'') r; t = dropWhile (\<lambda>c. c = CHR ''0'') r in
         if z \<noteq> [] \<and> t \<noteq> [] \<and> isDigit (hd t) then ''0x'' @ [hd t] @ trimhex (tl t)
         else if length z \<ge> 2 then ''0x0'' @ trimhex t
         else hd s # trimhex (tl s))
      else hd s # trimhex (tl s))"
  by auto
termination
proof (relation "measure length", goal_cases)
  case (2 s r z t)
  then have "length (tl t) < length (drop 2 s)" using length_tl_dropWhile by metis
  then show ?case unfolding in_measure by (rule less_le_trans) simp
next
  case (3 s r z t)
  have "length t \<le> length (drop 2 s)" unfolding 3 by (rule length_dropWhile_le)
  then have "length t < length s" using 3(1) by (cases s) auto
  then show ?case unfolding in_measure .
qed auto

declare trimhex.simps [simp del]

definition ruleFields :: "string \<Rightarrow> string list" where
  "ruleFields line = map (\<lambda>f. trimhex (trimQuotes f)) (strFields line)"

definition checkRuleWithoutCheck :: "'w xexec \<Rightarrow> iptables_runner \<Rightarrow> string \<Rightarrow> string \<Rightarrow> string list \<Rightarrow> ('w, bool) act" where
  "checkRuleWithoutCheck exec rn table chain args = (\<lambda>w.
     case exec (iptablesSaveCommand (rn_protocol rn)) [''-t'', table] [] w of
       ((_, Some e), w') \<Rightarrow> (Err (''error checking rule: '' @ ce_text e), w')
     | ((out, None), w') \<Rightarrow>
         (let argsCopy = concat (map (\<lambda>a. strFields (trimhex (trimQuotes a))) args) in
          (Ok (list_ex (\<lambda>line. hasPrefix line (''-A '' @ chain) \<and> length (strFields line) = length argsCopy + 2 \<and>
                 set argsCopy \<subseteq> set (ruleFields line))
               (split (CHR 0x0A) out)), w')))"

definition checkRule :: "'w xexec \<Rightarrow> iptables_runner \<Rightarrow> string \<Rightarrow> string \<Rightarrow> string list \<Rightarrow> ('w, bool) act" where
  "checkRule exec rn table chain args =
     (if rn_hasCheck rn then checkRuleUsingCheck exec rn (makeFullArgs table chain args)
      else checkRuleWithoutCheck exec rn table chain args)"

text \<open>\<open>position\<close> is the operation itself: \<^verbatim>\<open>-I\<close> (Prepend) or \<^verbatim>\<open>-A\<close> (Append).\<close>

definition ipt_EnsureRule :: "'w xexec \<Rightarrow> iptables_runner \<Rightarrow> string \<Rightarrow> string \<Rightarrow> string \<Rightarrow> string list \<Rightarrow> ('w, bool) act" where
  "ipt_EnsureRule exec rn position table chain args =
     abind (checkRule exec rn table chain args) (\<lambda>exists.
       if exists then aret True
       else (\<lambda>w. case ipt_run exec rn position (makeFullArgs table chain args) w of
           ((_, None), w') \<Rightarrow> (Ok False, w')
         | ((out, Some e), w') \<Rightarrow> (Err (''error appending rule: '' @ ce_text e @ '': '' @ out), w')))"

definition ipt_DeleteRule :: "'w xexec \<Rightarrow> iptables_runner \<Rightarrow> string \<Rightarrow> string \<Rightarrow> string list \<Rightarrow> ('w, unit) act" where
  "ipt_DeleteRule exec rn table chain args =
     abind (checkRule exec rn table chain args) (\<lambda>exists.
       if \<not> exists then aret ()
       else (\<lambda>w. case ipt_run exec rn ''-D'' (makeFullArgs table chain args) w of
           ((_, None), w') \<Rightarrow> (Ok (), w')
         | ((out, Some e), w') \<Rightarrow> (Err (''error deleting rule: '' @ ce_text e @ '': '' @ out), w')))"

definition ipt_ListRule :: "'w xexec \<Rightarrow> iptables_runner \<Rightarrow> string \<Rightarrow> string \<Rightarrow> string list \<Rightarrow> ('w, string list) act" where
  "ipt_ListRule exec rn table chain args = (\<lambda>w.
     case ipt_run exec rn ''-S'' (makeFullArgs table chain args) w of
       ((out, None), w') \<Rightarrow> (Ok (split (CHR 0x0A) out), w')
     | ((out, Some e), w') \<Rightarrow> (Err (''error listing rule: '' @ ce_text e @ '': '' @ out), w'))"

definition ipt_SaveInto :: "'w xexec \<Rightarrow> iptables_runner \<Rightarrow> string \<Rightarrow> ('w, string) act" where
  "ipt_SaveInto exec rn table = (\<lambda>w.
     case exec (iptablesSaveCommand (rn_protocol rn)) [''-t'', table] [] w of
       ((out, None), w') \<Rightarrow> (Ok out, w')
     | ((_, Some e), w') \<Rightarrow> (Err (ce_text e), w'))"

definition ipt_EnsurePolicy :: "'w xexec \<Rightarrow> iptables_runner \<Rightarrow> string \<Rightarrow> string \<Rightarrow> string \<Rightarrow> ('w, unit) act" where
  "ipt_EnsurePolicy exec rn table chain policy = (\<lambda>w.
     case exec (iptablesCommand (rn_protocol rn)) [''-t'', table, ''-P'', chain, policy] [] w of
       ((_, None), w') \<Rightarrow> (Ok (), w')
     | ((out, Some e), w') \<Rightarrow> (Err (ce_text e @ '' ('' @ out @ '')''), w'))"

text \<open>
  \<open>grabLocks\<close> and \<open>closeLocks\<close> stand for the file and socket locks of \<^verbatim>\<open>iptables_linux.go\<close> (theory \<open>IPTables_Locks\<close>); they are taken
  only when iptables-restore has no \<^verbatim>\<open>--wait\<close>, and released on every ending.
\<close>

definition restoreInternal :: "'w xexec \<Rightarrow> (string \<Rightarrow> ('w, 'l) act) \<Rightarrow> ('l \<Rightarrow> ('w, unit) act) \<Rightarrow> iptables_runner \<Rightarrow>
    string list \<Rightarrow> string \<Rightarrow> bool \<Rightarrow> bool \<Rightarrow> ('w, unit) act" where
  "restoreInternal exec grabLocks closeLocks rn args0 data flush counters =
     (let args = args0 @ (if \<not> flush then [''--noflush''] else []) @ (if counters then [''--counters''] else []);
          restore = (\<lambda>w. case exec (iptablesRestoreCommand (rn_protocol rn)) (rn_restoreWaitFlag rn @ args) data w of
              ((_, None), w') \<Rightarrow> (Ok (), w')
            | ((out, Some e), w') \<Rightarrow> (Err (ce_text e @ '' ('' @ out @ '')''), w'))
      in if rn_restoreWaitFlag rn = []
         then abind (grabLocks (rn_lockfilePath rn)) (\<lambda>locker. adefer (closeLocks locker) restore)
         else restore)"

definition ipt_Restore :: "'w xexec \<Rightarrow> (string \<Rightarrow> ('w, 'l) act) \<Rightarrow> ('l \<Rightarrow> ('w, unit) act) \<Rightarrow> iptables_runner \<Rightarrow>
    string \<Rightarrow> string \<Rightarrow> bool \<Rightarrow> bool \<Rightarrow> ('w, unit) act" where
  "ipt_Restore exec grabLocks closeLocks rn table data flush counters =
     restoreInternal exec grabLocks closeLocks rn [''-T'', table] data flush counters"

definition ipt_RestoreAll :: "'w xexec \<Rightarrow> (string \<Rightarrow> ('w, 'l) act) \<Rightarrow> ('l \<Rightarrow> ('w, unit) act) \<Rightarrow> iptables_runner \<Rightarrow>
    string \<Rightarrow> bool \<Rightarrow> bool \<Rightarrow> ('w, unit) act" where
  "ipt_RestoreAll exec grabLocks closeLocks rn data flush counters =
     restoreInternal exec grabLocks closeLocks rn [] data flush counters"

definition ipt_IsNotFoundError :: "string \<Rightarrow> bool" where
  "ipt_IsNotFoundError es = (contains es ''No such file or directory'' \<or> contains es ''No chain/target/match by that name'')"

section \<open>Reading the output of iptables-save\<close>

definition nl :: char where "nl = CHR 0x0A"

definition MakeChainLine :: "string \<Rightarrow> string" where
  "MakeChainLine chain = '':'' @ chain @ '' - [0:0]''"

text \<open>
  \<^verbatim>\<open>ReadLine\<close> on the rest of the buffer from its read index: the line without the blanks around it, and the rest
  after it. \<open>acc\<close> holds the characters since the left-trimmed start, in reverse; \<open>rt\<close> is the line up to
  \<^verbatim>\<open>rightTrimIndex\<close>, \<open>None\<close> for -1.
\<close>

fun readLine_loop :: "string \<Rightarrow> string option \<Rightarrow> string \<Rightarrow> string \<times> string" where
  "readLine_loop acc rt [] = ([], [])"
| "readLine_loop acc rt (c # cs) =
     (if c = CHR '' '' then readLine_loop (c # acc) (if rt = None then Some (rev acc) else rt) cs
      else if c = nl \<or> cs = [] then
        (if acc = [] then ([], cs)
         else case rt of
             Some l \<Rightarrow> (l, cs)
           | None \<Rightarrow> if cs = [] \<and> c \<noteq> nl then (rev (c # acc), cs) else (rev acc, cs))
      else readLine_loop (c # acc) None cs)"

definition ReadLine :: "string \<Rightarrow> string \<times> string" where
  "ReadLine rest = readLine_loop [] None (dropWhile (\<lambda>c. c = CHR '' '') rest)"

lemma readLine_loop_shorter: "s \<noteq> [] \<Longrightarrow> length (snd (readLine_loop acc rt s)) < length s"
proof (induction acc rt s rule: readLine_loop.induct)
  case (2 acc rt c cs)
  then show ?case by (cases "cs = []") (auto split: option.splits intro: less_SucI)
qed simp

lemma ReadLine_shorter: "s \<noteq> [] \<Longrightarrow> length (snd (ReadLine s)) < length s"
proof -
  let ?d = "dropWhile (\<lambda>c. c = CHR '' '') s"
  assume s: "s \<noteq> []"
  have l: "length ?d \<le> length s" by (rule length_dropWhile_le)
  show ?thesis
  proof (cases "?d = []")
    case True
    then have "length (snd (ReadLine s)) = 0" by (simp only: ReadLine_def readLine_loop.simps) simp
    then show ?thesis using s by simp
  next
    case False
    then show ?thesis using readLine_loop_shorter[OF False] l unfolding ReadLine_def by (meson less_le_trans)
  qed
qed

lemma ReadLine_rest: "(x, y) = ReadLine s \<Longrightarrow> s \<noteq> [] \<Longrightarrow> length y < length s"
  using ReadLine_shorter[of s] by (metis snd_conv)

text \<open>The first loop of \<^verbatim>\<open>GetChainLines\<close>: skip to the table.\<close>

function skipToTable :: "string \<Rightarrow> string \<Rightarrow> string" where
  "skipToTable pre rest =
     (if rest = [] then []
      else case ReadLine rest of (line, r) \<Rightarrow> if hasPrefix line pre then r else skipToTable pre r)"
  by auto
termination
  by (relation "measure (length \<circ> snd)") (auto dest: ReadLine_rest)

text \<open>The second loop: collect the chain lines; a chain line without a blank panics.\<close>

function parseTable :: "(string \<times> string) list \<Rightarrow> string \<Rightarrow> (string \<times> string) list result" where
  "parseTable chainsMap rest =
     (if rest = [] then Ok chainsMap
      else case ReadLine rest of (line, r) \<Rightarrow>
        if line = [] then parseTable chainsMap r
        else if hasPrefix line ''COMMIT'' \<or> hasPrefix line ''*'' then Ok chainsMap
        else if hasPrefix line ''#'' then parseTable chainsMap r
        else if hasPrefix line '':'' \<and> length line > 1 then
          (case index line '' '' of
             None \<Rightarrow> Panic
           | Some i \<Rightarrow> parseTable (AList.update (drop 1 (take i line)) line chainsMap) r)
        else parseTable chainsMap r)"
  by auto
termination
  by (relation "measure (length \<circ> snd)") (auto dest: ReadLine_rest)

declare skipToTable.simps [simp del] parseTable.simps [simp del]

definition GetChainLines :: "string \<Rightarrow> string \<Rightarrow> (string \<times> string) list result" where
  "GetChainLines table save = parseTable [] (skipToTable (''*'' @ table) save)"

section \<open>Lines of a save file\<close>

text \<open>A line as iptables-save writes it: not empty, no newline, no blank at either end.\<close>

definition plain_line :: "string \<Rightarrow> bool" where
  "plain_line l \<longleftrightarrow> l \<noteq> [] \<and> nl \<notin> set l \<and> hd l \<noteq> CHR '' '' \<and> last l \<noteq> CHR '' ''"

lemma readLine_loop_line:
  assumes "nl \<notin> set l" and "l = [] \<longrightarrow> rt = None \<and> acc \<noteq> []" and "l \<noteq> [] \<longrightarrow> last l \<noteq> CHR '' ''"
  shows "readLine_loop acc rt (l @ nl # r) = (rev acc @ l, r)"
  using assms
proof (induction l arbitrary: acc rt)
  case Nil
  then show ?case by (simp add: nl_def)
next
  case (Cons c l)
  show ?case
  proof (cases "c = CHR '' ''")
    case True
    then have "l \<noteq> []" using Cons.prems by auto
    then show ?thesis using True Cons.IH[of "if rt = None then Some (rev acc) else rt" "c # acc"] Cons.prems
      by auto
  next
    case False
    then have "readLine_loop (c # acc) None (l @ nl # r) = (rev (c # acc) @ l, r)"
      using Cons.prems by (intro Cons.IH) auto
    then show ?thesis using False Cons.prems by auto
  qed
qed

lemma ReadLine_plain: "plain_line l \<Longrightarrow> ReadLine (l @ nl # r) = (l, r)"
proof -
  assume p: "plain_line l"
  then have "dropWhile (\<lambda>c. c = CHR '' '') (l @ nl # r) = l @ nl # r"
    by (cases l) (auto simp: plain_line_def)
  then show ?thesis using p readLine_loop_line[of l None "[]" r] by (simp add: ReadLine_def plain_line_def)
qed

definition saveLines :: "string list \<Rightarrow> string" where
  "saveLines ls = concat (map (\<lambda>l. l @ [nl]) ls)"

lemma saveLines_simps [simp]: "saveLines [] = []" "saveLines (l # ls) = l @ nl # saveLines ls"
  "saveLines (ls @ ls') = saveLines ls @ saveLines ls'"
  by (simp_all add: saveLines_def)

lemma chain_line_plain: "nl \<notin> set c \<Longrightarrow> plain_line (MakeChainLine c)"
  by (auto simp: plain_line_def MakeChainLine_def nl_def)

lemma parseTable_chains:
  assumes "list_all (\<lambda>c. nl \<notin> set c \<and> CHR '' '' \<notin> set c) cs"
  shows "parseTable m (saveLines (map MakeChainLine cs) @ r) =
    parseTable (foldl (\<lambda>m c. AList.update c (MakeChainLine c) m) m cs) r"
  using assms
proof (induction cs arbitrary: m)
  case (Cons c cs)
  have pl: "plain_line (MakeChainLine c)" using Cons.prems by (intro chain_line_plain) simp
  have "index ('':'' @ c @ CHR '' '' # ''- [0:0]'') '' '' = Some (length ('':'' @ c))"
    using index_skip[of "CHR '' ''" "'':'' @ c" "''- [0:0]''"] Cons.prems by simp
  then have i: "index (MakeChainLine c) '' '' = Some (Suc (length c))" by (simp add: MakeChainLine_def)
  have h: "hasPrefix (MakeChainLine c) '':''" "\<not> hasPrefix (MakeChainLine c) ''COMMIT''"
    "\<not> hasPrefix (MakeChainLine c) ''*''" "\<not> hasPrefix (MakeChainLine c) ''#''" "MakeChainLine c \<noteq> []"
    "length (MakeChainLine c) > 1" "drop 1 (take (Suc (length c)) (MakeChainLine c)) = c"
    by (simp_all add: MakeChainLine_def)
  show ?case
    using Cons h i ReadLine_plain[OF pl] by (simp add: parseTable.simps[of m])
qed simp

lemma parseTable_rules:
  assumes "list_all (\<lambda>l. plain_line l \<and> hasPrefix l ''-'') ls"
  shows "parseTable m (saveLines ls @ r) = parseTable m r"
  using assms
proof (induction ls)
  case (Cons l ls)
  obtain x where x: "l = CHR ''-'' # x" using Cons.prems by (auto simp: hasPrefix_iff)
  show ?case using Cons ReadLine_plain[of l] x by (simp add: parseTable.simps[of m])
qed simp

lemma skipToTable_first:
  "plain_line t \<Longrightarrow> hasPrefix t pre \<Longrightarrow> skipToTable pre (t @ nl # r) = r"
  by (simp add: skipToTable.simps ReadLine_plain)

lemma GetChainLines_save:
  assumes "list_all (\<lambda>c. nl \<notin> set c \<and> CHR '' '' \<notin> set c) cs"
    and "list_all (\<lambda>l. plain_line l \<and> hasPrefix l ''-'') ls"
    and "nl \<notin> set table" and "table = [] \<or> last table \<noteq> CHR '' ''"
  shows "GetChainLines table (saveLines ([''*'' @ table] @ map MakeChainLine cs @ ls @ [''COMMIT''])) =
    Ok (foldl (\<lambda>m c. AList.update c (MakeChainLine c) m) [] cs)"
proof -
  have p: "plain_line (''*'' @ table)" using assms(3,4) by (auto simp: plain_line_def nl_def)
  have k: "plain_line ''COMMIT''" by (simp add: plain_line_def nl_def)
  have "parseTable m (saveLines [''COMMIT'']) = Ok m" for m
    using ReadLine_plain[OF k, of "[]"] by (simp add: parseTable.simps)
  moreover have "skipToTable (''*'' @ table) (saveLines ([''*'' @ table] @ map MakeChainLine cs @ ls @ [''COMMIT''])) =
      saveLines (map MakeChainLine cs) @ saveLines ls @ saveLines [''COMMIT'']"
    using skipToTable_first[OF p hasPrefix_refl] by simp
  ultimately show ?thesis
    unfolding GetChainLines_def by (simp only: parseTable_chains[OF assms(1)] parseTable_rules[OF assms(2)])
qed

lemma map_of_foldl_update:
  "map_of (foldl (\<lambda>m c. AList.update c (f c) m) m cs) k = (if k \<in> set cs then Some (f k) else map_of m k)"
  by (induction cs arbitrary: m) (auto simp: update_conv')

section \<open>The interface\<close>

record 'w iptables_iface =
  ipti_EnsureChain :: "string \<Rightarrow> string \<Rightarrow> ('w, bool) act"
  ipti_FlushChain :: "string \<Rightarrow> string \<Rightarrow> ('w, unit) act"
  ipti_DeleteChain :: "string \<Rightarrow> string \<Rightarrow> ('w, unit) act"
  ipti_EnsureRule :: "string \<Rightarrow> string \<Rightarrow> string \<Rightarrow> string list \<Rightarrow> ('w, bool) act"
  ipti_DeleteRule :: "string \<Rightarrow> string \<Rightarrow> string list \<Rightarrow> ('w, unit) act"
  ipti_ListRule :: "string \<Rightarrow> string \<Rightarrow> string list \<Rightarrow> ('w, string list) act"
  ipti_IsIpv6 :: bool
  ipti_SaveInto :: "string \<Rightarrow> ('w, string) act"
  ipti_EnsurePolicy :: "string \<Rightarrow> string \<Rightarrow> string \<Rightarrow> ('w, unit) act"
  ipti_Restore :: "string \<Rightarrow> string \<Rightarrow> bool \<Rightarrow> bool \<Rightarrow> ('w, unit) act"
  ipti_RestoreAll :: "string \<Rightarrow> bool \<Rightarrow> bool \<Rightarrow> ('w, unit) act"

definition iptables_New :: "'w xexec \<Rightarrow> (string \<Rightarrow> ('w, 'l) act) \<Rightarrow> ('l \<Rightarrow> ('w, unit) act) \<Rightarrow> iptables_runner \<Rightarrow> 'w iptables_iface" where
  "iptables_New exec grabLocks closeLocks rn = \<lparr>
     ipti_EnsureChain = ipt_EnsureChain exec rn,
     ipti_FlushChain = ipt_FlushChain exec rn,
     ipti_DeleteChain = ipt_DeleteChain exec rn,
     ipti_EnsureRule = ipt_EnsureRule exec rn,
     ipti_DeleteRule = ipt_DeleteRule exec rn,
     ipti_ListRule = ipt_ListRule exec rn,
     ipti_IsIpv6 = (rn_protocol rn = ProtocolIpv6),
     ipti_SaveInto = ipt_SaveInto exec rn,
     ipti_EnsurePolicy = ipt_EnsurePolicy exec rn,
     ipti_Restore = ipt_Restore exec grabLocks closeLocks rn,
     ipti_RestoreAll = ipt_RestoreAll exec grabLocks closeLocks rn\<rparr>"

text \<open>
  The contract of a healthy handle. \<open>rules w t c\<close> are the rules of the chain \<open>c\<close> of the table \<open>t\<close>, \<open>None\<close>
  when there is no such chain; \<open>norm args\<close> is the text under which the arguments of a rule are kept and
  \<open>ok args\<close> says that they form a rule. \<open>addRule\<close> puts a rule at the position asked for.
\<close>

definition addRule :: "string \<Rightarrow> string \<Rightarrow> string list \<Rightarrow> string list" where
  "addRule position r rs = (if position = ''-I'' then r # rs else rs @ [r])"

locale iptables_handle =
  fixes T :: "'w iptables_iface"
    and tinv :: "'w \<Rightarrow> bool"
    and rules :: "'w \<Rightarrow> string \<Rightarrow> string \<Rightarrow> string list option"
    and norm :: "string list \<Rightarrow> string"
    and ok :: "string list \<Rightarrow> bool"
  assumes chain_law: "tinv w \<Longrightarrow> \<exists>b w'. ipti_EnsureChain T t c w = (Ok b, w') \<and> tinv w' \<and>
      rules w' = (rules w)(t := (rules w t)(c := Some (case rules w t c of None \<Rightarrow> [] | Some rs \<Rightarrow> rs)))"
    and chain_exists_law: "tinv w \<Longrightarrow> rules w t c \<noteq> None \<Longrightarrow> ipti_EnsureChain T t c w = (Ok True, w)"
    and rule_exists_law: "tinv w \<Longrightarrow> ok args \<Longrightarrow> rules w t c = Some rs \<Longrightarrow> norm args \<in> set rs \<Longrightarrow>
      ipti_EnsureRule T pos t c args w = (Ok True, w)"
    and rule_new_law: "tinv w \<Longrightarrow> ok args \<Longrightarrow> pos \<in> {''-I'', ''-A''} \<Longrightarrow> rules w t c = Some rs \<Longrightarrow>
      norm args \<notin> set rs \<Longrightarrow> \<exists>w'. ipti_EnsureRule T pos t c args w = (Ok False, w') \<and> tinv w' \<and>
      rules w' = (rules w)(t := (rules w t)(c := Some (addRule pos (norm args) rs)))"
    and delete_law: "tinv w \<Longrightarrow> ok args \<Longrightarrow> rules w t c = Some rs \<Longrightarrow>
      \<exists>w'. ipti_DeleteRule T t c args w = (Ok (), w') \<and> tinv w' \<and>
      rules w' = (rules w)(t := (rules w t)(c := Some (remove1 (norm args) rs)))"
begin

text \<open>
  Ensuring a rule of an existing chain succeeds, keeps every rule there was, leaves all other chains
  alone, and ensuring it again changes nothing.
\<close>

lemma ensure_rule:
  assumes "tinv w" "ok args" "pos \<in> {''-I'', ''-A''}" "rules w t c = Some rs"
  obtains b w' rs' where "ipti_EnsureRule T pos t c args w = (Ok b, w')" "tinv w'"
    "rules w' = (rules w)(t := (rules w t)(c := Some rs'))" "set rs' = insert (norm args) (set rs)"
    "ipti_EnsureRule T pos t c args w' = (Ok True, w')" "rs' = (if norm args \<in> set rs then rs else addRule pos (norm args) rs)"
proof (cases "norm args \<in> set rs")
  case True
  have "rules w = (rules w)(t := (rules w t)(c := Some rs))" using assms(4) by (auto simp: fun_eq_iff)
  then show ?thesis
    using that[of True w rs] rule_exists_law[OF assms(1,2,4) True, of pos] True assms(1) by (auto simp: insert_absorb)
next
  case False
  let ?rs = "addRule pos (norm args) rs"
  obtain w' where w': "ipti_EnsureRule T pos t c args w = (Ok False, w')" "tinv w'"
      "rules w' = (rules w)(t := (rules w t)(c := Some ?rs))"
    using rule_new_law[OF assms(1-4) False] by blast
  have s: "set ?rs = insert (norm args) (set rs)" by (auto simp: addRule_def)
  have "ipti_EnsureRule T pos t c args w' = (Ok True, w')"
    using rule_exists_law[OF w'(2) assms(2), of t c ?rs pos] w'(3) s by simp
  then show ?thesis using that[OF w'(1,2,3) s] False by auto
qed

end

section \<open>Properties\<close>

text \<open>
  \<^verbatim>\<open>GetChainLines\<close> reads back exactly the chains of a table from its save file: every chain is mapped to its
  chain line, and nothing else is in the map.
\<close>

theorem GetChainLines_reads_chains:
  assumes "list_all (\<lambda>c. nl \<notin> set c \<and> CHR '' '' \<notin> set c) cs"
    and "list_all (\<lambda>l. plain_line l \<and> hasPrefix l ''-'') ls"
    and "nl \<notin> set table" and "table = [] \<or> last table \<noteq> CHR '' ''"
  shows "\<exists>m. GetChainLines table (saveLines ([''*'' @ table] @ map MakeChainLine cs @ ls @ [''COMMIT''])) = Ok m \<and>
    (\<forall>k. map_of m k = (if k \<in> set cs then Some (MakeChainLine k) else None))"
  using GetChainLines_save[OF assms] map_of_foldl_update[of MakeChainLine "[]" cs] by simp

theorem GetChainLines_reads_chains_witness:
  "\<exists>m. GetChainLines ''filter'' (saveLines ([''*'' @ ''filter''] @ map MakeChainLine [''INPUT'', ''GLX-INGRESS''] @
      [''-A INPUT -j GLX-INGRESS''] @ [''COMMIT''])) = Ok m \<and>
    (\<forall>k. map_of m k = (if k \<in> set [''INPUT'', ''GLX-INGRESS''] then Some (MakeChainLine k) else None))"
  by (rule GetChainLines_reads_chains) (simp_all add: plain_line_def nl_def)

text \<open>
  \<^verbatim>\<open>ReadLine\<close> returns every line that ends in a newline without the blanks before it, and the rest of the buffer;
  but the last word of a buffer that does not end in a newline is dropped when it is a single character after a blank.
\<close>

theorem ReadLine_lines:
  assumes "plain_line l" and "list_all (\<lambda>c. c = CHR '' '') sp"
  shows "ReadLine (sp @ l @ nl # r) = (l, r) \<and> ReadLine ''-P a'' = (''-P'', [])"
proof -
  have "dropWhile (\<lambda>c. c = CHR '' '') (sp @ l @ nl # r) = dropWhile (\<lambda>c. c = CHR '' '') (l @ nl # r)"
    using assms(2) by (induction sp) auto
  then have "ReadLine (sp @ l @ nl # r) = ReadLine (l @ nl # r)" by (simp only: ReadLine_def)
  moreover have "ReadLine ''-P a'' = (''-P'', [])" by code_simp
  ultimately show ?thesis using ReadLine_plain[OF assms(1)] by simp
qed

theorem ReadLine_lines_witness:
  "ReadLine (''  '' @ ''-A X'' @ nl # ''COMMIT'') = (''-A X'', ''COMMIT'') \<and> ReadLine ''-P a'' = (''-P'', [])"
  by (rule ReadLine_lines) (simp_all add: plain_line_def nl_def)

text \<open>
  With \<^verbatim>\<open>-C\<close> available, \<^verbatim>\<open>EnsureRule\<close> adds a rule only when the check says it is absent: it runs at most one
  changing command, and a failing check runs none.
\<close>

theorem EnsureRule_checks_first:
  assumes "rn_hasCheck rn"
  shows "ipt_EnsureRule exec rn pos t c args w =
    (case ipt_run exec rn ''-C'' (makeFullArgs t c args) w of
       ((_, None), w') \<Rightarrow> (Ok True, w')
     | ((out, Some e), w') \<Rightarrow>
         if ce_exit e \<noteq> Some 1 then (Err (''error checking rule: '' @ ce_text e @ '': '' @ out), w')
         else (case ipt_run exec rn pos (makeFullArgs t c args) w' of
             ((_, None), w'') \<Rightarrow> (Ok False, w'')
           | ((out, Some e), w'') \<Rightarrow> (Err (''error appending rule: '' @ ce_text e @ '': '' @ out), w'')))"
  using assms
  by (auto simp: ipt_EnsureRule_def checkRule_def checkRuleUsingCheck_def act_simps split: prod.splits option.splits)

definition demo_runner :: iptables_runner where
  "demo_runner = \<lparr>rn_protocol = ProtocolIpv4, rn_hasCheck = True, rn_waitFlag = [''-w''], rn_restoreWaitFlag = [],
     rn_lockfilePath = ''/run/xtables.lock''\<rparr>"

definition demo_exec :: "string list list xexec" where
  "demo_exec cmd args stdin w =
     (([], if ''-C'' \<in> set args then Some \<lparr>ce_text = ''exit status 1'', ce_exit = Some 1\<rparr> else None), w @ [cmd # args])"

theorem EnsureRule_checks_first_witness:
  "ipt_EnsureRule demo_exec demo_runner ''-A'' ''filter'' ''INPUT'' [''-j'', ''X''] [] =
     (Ok False, [[''iptables'', ''-w'', ''-C'', ''INPUT'', ''-t'', ''filter'', ''-j'', ''X''],
       [''iptables'', ''-w'', ''-A'', ''INPUT'', ''-t'', ''filter'', ''-j'', ''X'']])"
  by (subst EnsureRule_checks_first)
    (simp_all add: demo_runner_def demo_exec_def ipt_run_def iptablesCommand_def makeFullArgs_def)

text \<open>The flags follow the version: \<^verbatim>\<open>-C\<close> from 1.4.11 on, \<^verbatim>\<open>-w\<close> from 1.4.20 on, \<^verbatim>\<open>-w 5\<close> from 1.4.22 on.\<close>

theorem version_flags:
  assumes "ParseGeneric v = Some [a, b, c]"
  shows "(getIPTablesHasCheckCommand v \<longleftrightarrow> a > 1 \<or> (a = 1 \<and> (b > 4 \<or> (b = 4 \<and> c \<ge> 11)))) \<and>
    getIPTablesWaitFlag v =
      (if a > 1 \<or> (a = 1 \<and> (b > 4 \<or> (b = 4 \<and> c \<ge> 22))) then [''-w'', ''5'']
       else if a = 1 \<and> b = 4 \<and> c \<ge> 20 then [''-w''] else [])"
proof -
  have v: "ParseGeneric ''1.4.11'' = Some [1, 4, 11]" "ParseGeneric ''1.4.20'' = Some [1, 4, 20]"
    "ParseGeneric ''1.4.22'' = Some [1, 4, 22]" by code_simp+
  have "getIPTablesHasCheckCommand v \<longleftrightarrow> a > 1 \<or> (a = 1 \<and> (b > 4 \<or> (b = 4 \<and> c \<ge> 11)))"
    using assms by (auto simp: getIPTablesHasCheckCommand_def v AtLeast_def)
  moreover have "getIPTablesWaitFlag v =
      (if a > 1 \<or> (a = 1 \<and> (b > 4 \<or> (b = 4 \<and> c \<ge> 22))) then [''-w'', ''5'']
       else if a = 1 \<and> b = 4 \<and> c \<ge> 20 then [''-w''] else [])"
    using assms by (auto simp: getIPTablesWaitFlag_def v LessThan_def)
  ultimately show ?thesis by blast
qed

theorem version_flags_witness:
  "getIPTablesHasCheckCommand ''1.8.4'' \<and> getIPTablesWaitFlag ''1.4.21'' = [''-w'']"
proof -
  have "ParseGeneric ''1.8.4'' = Some [1, 8, 4]" "ParseGeneric ''1.4.21'' = Some [1, 4, 21]" by code_simp+
  then show ?thesis using version_flags[of "''1.8.4''" 1 8 4] version_flags[of "''1.4.21''" 1 4 21] by simp
qed

end
