(* ===== verification/Policy.thy ===== *)
theory Policy
  imports IPSet IPTables
begin

text \<open>
  \<^verbatim>\<open>pkg/policy/policy.go\<close>: the network policy controller translates Kubernetes network policies to ipsets
  and iptables chains. The manager with its informers and events is in \<open>PolicyEvents\<close>.
  The Kubernetes client (listers, label selectors) is the record \<open>kube\<close>: \<open>kb_AsSelector\<close> is
  \<^verbatim>\<open>LabelSelectorAsSelector\<close> on the type \<open>'ls\<close> of label selectors, \<open>kb_ListPods\<close> and the others the
  listers. \<open>sha\<close> is \<^verbatim>\<open>sha256.Sum256\<close>. The ipset and iptables handles are the interfaces of
  \<^verbatim>\<open>IPSet\<close> and \<^verbatim>\<open>IPTables\<close>, over a common world. The order in which a range statement visits a
  map is given by \<open>ordS\<close> and \<open>ordC\<close>. Log statements are left out; an error that is only
  logged is dropped with \<open>aignore\<close>.
\<close>

section \<open>Kubernetes objects\<close>

type_synonym labels = "(string \<times> string) list"

record Pod =
  pod_Name :: string
  pod_Namespace :: string
  pod_Labels :: labels
  pod_NodeName :: string
  pod_PodIP :: string

record Namespace =
  ns_Name :: string

datatype IntOrString = IntVal int | StrVal string

fun IntOrString_String :: "IntOrString \<Rightarrow> string" where
  "IntOrString_String (IntVal i) = itoa i"
| "IntOrString_String (StrVal s) = s"

record NetworkPolicyPort =
  npp_Protocol :: "string option"
  npp_Port :: "IntOrString option"

record 'ls NetworkPolicyPeer =
  peer_PodSelector :: "'ls option"
  peer_NamespaceSelector :: "'ls option"
  peer_IPBlock :: "(string \<times> string list) option"

text \<open>An ingress or egress rule: its ports and its peers (\<^verbatim>\<open>From\<close> or \<^verbatim>\<open>To\<close>).\<close>

record 'ls NetworkPolicyRule =
  npr_Ports :: "NetworkPolicyPort list"
  npr_Peers :: "'ls NetworkPolicyPeer list"

record 'ls NetworkPolicy =
  np_Name :: string
  np_Namespace :: string
  np_PodSelector :: 'ls
  np_Ingress :: "'ls NetworkPolicyRule list"
  np_Egress :: "'ls NetworkPolicyRule list"
  np_PolicyTypes :: "string list"

record selector =
  sel_Matches :: "labels \<Rightarrow> bool"
  sel_String :: string

definition Everything :: selector where
  "Everything = \<lparr>sel_Matches = (\<lambda>_. True), sel_String = []\<rparr>"

record 'ls kube =
  kb_AsSelector :: "'ls \<Rightarrow> selector result"
  kb_lsString :: "'ls \<Rightarrow> string"
  kb_ListPods :: "string \<Rightarrow> selector \<Rightarrow> Pod list result"
  kb_ListNamespaces :: "selector \<Rightarrow> Namespace list result"
  kb_ListPolicies :: "'ls NetworkPolicy list result"
  kb_PodsSynced :: bool
  kb_NodePods :: "Pod list result"
  kb_Hostname :: string

section \<open>Names\<close>

definition NamePrefix :: string where "NamePrefix = ''GLX''"
definition policyChainPrefix :: string where "policyChainPrefix = NamePrefix @ ''-PLCY''"
definition podChainPrefix :: string where "podChainPrefix = NamePrefix @ ''-POD''"
definition ingressChain :: string where "ingressChain = NamePrefix @ ''-INGRESS''"
definition egressChain :: string where "egressChain = NamePrefix @ ''-EGRESS''"
definition chainNotExistErr :: string where "chainNotExistErr = ''No chain/target/match by that name''"

lemmas name_defs = NamePrefix_def policyChainPrefix_def podChainPrefix_def ingressChain_def egressChain_def

text \<open>\<^verbatim>\<open>base32.StdEncoding\<close>: five bits a character, the last group filled with zero bits, padded to eight characters.\<close>

definition b32alphabet :: string where "b32alphabet = ''ABCDEFGHIJKLMNOPQRSTUVWXYZ234567''"

definition byteBits :: "8 word \<Rightarrow> bool list" where
  "byteBits b = map (bit b) [7, 6, 5, 4, 3, 2, 1, 0]"

fun b32groups :: "bool list \<Rightarrow> nat list" where
  "b32groups (a # b # c # d # e # bs) =
     (16 * of_bool a + 8 * of_bool b + 4 * of_bool c + 2 * of_bool d + of_bool e) # b32groups bs"
| "b32groups [] = []"
| "b32groups bs = (case bs @ replicate (5 - length bs) False of
     a # b # c # d # e # _ \<Rightarrow> [16 * of_bool a + 8 * of_bool b + 4 * of_bool c + 2 * of_bool d + of_bool e] | _ \<Rightarrow> [])"

definition base32 :: "8 word list \<Rightarrow> string" where
  "base32 bs =
     (let s = map (\<lambda>n. b32alphabet ! n) (b32groups (concat (map byteBits bs)))
      in s @ replicate ((8 - length s mod 8) mod 8) (CHR ''=''))"

type_synonym sha = "string \<Rightarrow> 8 word list"

definition nameHash :: "sha \<Rightarrow> string \<Rightarrow> string" where
  "nameHash sha data = take 16 (base32 (sha data))"

definition tableNameHash :: "sha \<Rightarrow> string \<Rightarrow> string" where
  "tableNameHash sha data = take 16 (base32 (sha data))"

definition policyChainName :: "sha \<Rightarrow> 'ls NetworkPolicy \<Rightarrow> string" where
  "policyChainName sha np = policyChainPrefix @ ''-'' @ nameHash sha (np_Name np @ ''_'' @ np_Namespace np)"

definition podChainName :: "sha \<Rightarrow> Pod \<Rightarrow> string" where
  "podChainName sha pod = podChainPrefix @ ''-'' @ nameHash sha (pod_Name pod @ ''_'' @ pod_Namespace pod)"

section \<open>Rules of a policy\<close>

record ipsetTable =
  tbl_IPSet :: IPSet
  tbl_entries :: "Entry list"

record rule =
  rule_ipTable :: "ipsetTable option"
  rule_netTable :: "ipsetTable option"
  rule_tcpPorts :: "string list"
  rule_udpPorts :: "string list"

record ingressRule =
  ing_srcRules :: "rule list"
  ing_dstIPTable :: ipsetTable

record egressRule =
  eg_dstRules :: "rule list"
  eg_srcIPTable :: ipsetTable

record 'ls policy =
  pol_ingressRule :: "ingressRule option"
  pol_egressRule :: "egressRule option"
  pol_np :: "'ls NetworkPolicy"

definition tbl_Name :: "ipsetTable \<Rightarrow> string" where
  "tbl_Name t = set_Name (tbl_IPSet t)"

definition setTblName :: "string \<Rightarrow> ipsetTable \<Rightarrow> ipsetTable" where
  "setTblName n t = t\<lparr>tbl_IPSet := (tbl_IPSet t)\<lparr>set_Name := n\<rparr>\<rparr>"

definition ingressOrEgress :: "'ls NetworkPolicy \<Rightarrow> bool \<times> bool" where
  "ingressOrEgress np =
     (let ingress = ''Ingress'' \<in> set (np_PolicyTypes np);
          egress = ''Egress'' \<in> set (np_PolicyTypes np)
      in if \<not> ingress \<and> \<not> egress then (True, length (np_Egress np) > 0) else (ingress, egress))"

definition entriesOf :: "Pod list \<Rightarrow> string \<Rightarrow> Entry list" where
  "entriesOf pods setType =
     map (\<lambda>p. Entry0\<lparr>entry_IP := pod_PodIP p, entry_SetType := setType\<rparr>) (filter (\<lambda>p. pod_PodIP p \<noteq> []) pods)"

definition formatCidr :: "string \<Rightarrow> string result" where
  "formatCidr cidr = (case ParseCIDR cidr of
      Ok (_, ipnet) \<Rightarrow> Ok (trimSuffix (netString ipnet) ''/32'')
    | Err e \<Rightarrow> Err (''failed to parse cidr '' @ cidr @ '': '' @ e)
    | Panic \<Rightarrow> Panic)"

definition ipBlockToTable :: "string \<Rightarrow> string list \<Rightarrow> ipsetTable result" where
  "ipBlockToTable cidr except =
     rbind (formatCidr cidr) (\<lambda>formatedCidr.
     rbind (rmap formatCidr except) (\<lambda>fs.
       Ok \<lparr>tbl_IPSet = IPSet0\<lparr>set_SetType := HashNet\<rparr>,
           tbl_entries = Entry0\<lparr>entry_Net := formatedCidr, entry_SetType := HashNet\<rparr> #
             map (\<lambda>f. Entry0\<lparr>entry_Net := f, entry_SetType := HashNet, entry_Options := [''nomatch'']\<rparr>) fs\<rparr>))"

definition podSelectorToTable :: "'ls kube \<Rightarrow> 'ls \<Rightarrow> string \<Rightarrow> ipsetTable result" where
  "podSelectorToTable k podSelector namespace =
     (case kb_AsSelector k podSelector of
        Err e \<Rightarrow> Err (''failed to convert pod labelSelector '' @ kb_lsString k podSelector @ '' to selector: '' @ e)
      | Panic \<Rightarrow> Panic
      | Ok s \<Rightarrow> (case kb_ListPods k namespace s of
            Err e \<Rightarrow> Err (''failed to list pods by selector '' @ sel_String s @ '': '' @ e)
          | Panic \<Rightarrow> Panic
          | Ok pods \<Rightarrow> Ok \<lparr>tbl_IPSet = IPSet0\<lparr>set_SetType := HashIP\<rparr>, tbl_entries = entriesOf pods HashIP\<rparr>))"

text \<open>On a conversion error \<^verbatim>\<open>getNamespaces\<close> formats the nil selector it got, which panics.\<close>

definition getNamespaces :: "'ls kube \<Rightarrow> 'ls \<Rightarrow> Namespace list result" where
  "getNamespaces k namespaceSelector =
     (case kb_AsSelector k namespaceSelector of
        Err e \<Rightarrow> Panic
      | Panic \<Rightarrow> Panic
      | Ok s \<Rightarrow> (case kb_ListNamespaces k s of
            Err e \<Rightarrow> Err (''failed to list namespaces by selector '' @ sel_String s @ '': '' @ e)
          | Panic \<Rightarrow> Panic
          | Ok nss \<Rightarrow> Ok nss))"

definition namespaceSelectorToTable :: "'ls kube \<Rightarrow> 'ls \<Rightarrow> ipsetTable result" where
  "namespaceSelectorToTable k namespaceSelector =
     rbind (getNamespaces k namespaceSelector) (\<lambda>nss.
     rbind (rmap (\<lambda>ns. case kb_ListPods k (ns_Name ns) Everything of
              Err e \<Rightarrow> Err (''failed to list pods in namespace '' @ ns_Name ns @ '': '' @ e)
            | r \<Rightarrow> r) nss) (\<lambda>lists.
       Ok \<lparr>tbl_IPSet = IPSet0\<lparr>set_SetType := HashIP\<rparr>, tbl_entries = entriesOf (concat lists) HashIP\<rparr>))"

definition peerTable :: "'ls kube \<Rightarrow> 'ls NetworkPolicyPeer \<Rightarrow> ipsetTable result" where
  "peerTable k peer =
     (case peer_PodSelector peer of
        Some s \<Rightarrow> podSelectorToTable k s []
      | None \<Rightarrow>
          (case peer_NamespaceSelector peer of
             Some s \<Rightarrow> namespaceSelectorToTable k s
           | None \<Rightarrow>
               (case peer_IPBlock peer of
                  Some (cidr, except) \<Rightarrow> ipBlockToTable cidr except
                | None \<Rightarrow> Err ''invalid peer'')))"

definition rulePorts :: "NetworkPolicyPort list \<Rightarrow> string list \<times> string list" where
  "rulePorts npp =
     foldl (\<lambda>(tcpPorts, udpPorts) p.
       let protocol = (case npp_Protocol p of None \<Rightarrow> ''tcp'' | Some pr \<Rightarrow> toLower pr)
       in case npp_Port p of
            None \<Rightarrow> (tcpPorts, udpPorts)
          | Some port \<Rightarrow>
              if protocol = ''tcp'' then (tcpPorts @ [IntOrString_String port], udpPorts)
              else (tcpPorts, udpPorts @ [IntOrString_String port])) ([], []) npp"

text \<open>Adding the table of a peer to the rule: the first of its kind is taken, the entries of later ones are appended.\<close>

definition mergeTable :: "ipsetTable option \<Rightarrow> ipsetTable \<Rightarrow> ipsetTable option" where
  "mergeTable old tbl = (case old of
      None \<Rightarrow> Some tbl
    | Some t \<Rightarrow> Some (t\<lparr>tbl_entries := tbl_entries t @ tbl_entries tbl\<rparr>))"

definition addPeerTable :: "rule \<Rightarrow> ipsetTable \<Rightarrow> rule" where
  "addPeerTable r tbl =
     (if set_SetType (tbl_IPSet tbl) = HashIP then r\<lparr>rule_ipTable := mergeTable (rule_ipTable r) tbl\<rparr>
      else if set_SetType (tbl_IPSet tbl) = HashNet then r\<lparr>rule_netTable := mergeTable (rule_netTable r) tbl\<rparr>
      else r)"

fun peerLoop :: "'ls kube \<Rightarrow> rule \<Rightarrow> 'ls NetworkPolicyPeer list \<Rightarrow> rule result" where
  "peerLoop k r [] = Ok r"
| "peerLoop k r (p # ps) =
     (case peerTable k p of
        Ok tbl \<Rightarrow> peerLoop k (addPeerTable r tbl) ps
      | Err e \<Rightarrow> peerLoop k r ps
      | Panic \<Rightarrow> Panic)"

definition peerRule :: "'ls kube \<Rightarrow> NetworkPolicyPort list \<Rightarrow> 'ls NetworkPolicyPeer list \<Rightarrow> rule result" where
  "peerRule k ports peers =
     (case rulePorts ports of (tcpPorts, udpPorts) \<Rightarrow>
      peerLoop k \<lparr>rule_ipTable = None, rule_netTable = None, rule_tcpPorts = tcpPorts, rule_udpPorts = udpPorts\<rparr> peers)"

text \<open>The rules of one direction, with their tables named \<^verbatim>\<open>GLX-<dir>ip-<i>-<hash>\<close> and \<^verbatim>\<open>GLX-<dir>net-<i>-<hash>\<close>.\<close>

definition nameRule :: "string \<Rightarrow> string \<Rightarrow> nat \<Rightarrow> rule \<Rightarrow> rule" where
  "nameRule dir npNameHash i r =
     r\<lparr>rule_ipTable := map_option (setTblName (NamePrefix @ ''-'' @ dir @ ''ip-'' @ showNat i @ ''-'' @ npNameHash)) (rule_ipTable r),
       rule_netTable := map_option (setTblName (NamePrefix @ ''-'' @ dir @ ''net-'' @ showNat i @ ''-'' @ npNameHash)) (rule_netTable r)\<rparr>"

definition directionRules :: "'ls kube \<Rightarrow> string \<Rightarrow> string \<Rightarrow> 'ls NetworkPolicyRule list \<Rightarrow> rule list result" where
  "directionRules k dir npNameHash rs =
     rmap (\<lambda>(i, ir). rbind (peerRule k (npr_Ports ir) (npr_Peers ir)) (\<lambda>r. Ok (nameRule dir npNameHash i r)))
       (enumerate 0 rs)"

definition policyResult :: "sha \<Rightarrow> 'ls kube \<Rightarrow> 'ls NetworkPolicy \<Rightarrow> (ingressRule option \<times> egressRule option) result" where
  "policyResult sha k np =
     rbind (podSelectorToTable k (np_PodSelector np) (np_Namespace np)) (\<lambda>tbl0.
       let npNameHash = tableNameHash sha (np_Name np @ ''_'' @ np_Namespace np);
           tbl = setTblName (NamePrefix @ ''-ip-'' @ npNameHash) tbl0
       in case ingressOrEgress np of (ingress, egress) \<Rightarrow>
          rbind (if ingress
                 then rbind (directionRules k ''s'' npNameHash (np_Ingress np)) (\<lambda>rs.
                        Ok (Some \<lparr>ing_srcRules = rs, ing_dstIPTable = tbl\<rparr>))
                 else Ok None) (\<lambda>inRules.
          rbind (if egress
                 then rbind (directionRules k ''d'' npNameHash (np_Egress np)) (\<lambda>rs.
                        Ok (Some \<lparr>eg_dstRules = rs, eg_srcIPTable = tbl\<rparr>))
                 else Ok None) (\<lambda>eRules. Ok (inRules, eRules))))"

fun syncPoliciesLoop :: "sha \<Rightarrow> 'ls kube \<Rightarrow> 'ls NetworkPolicy list \<Rightarrow> 'ls policy list result" where
  "syncPoliciesLoop sha k [] = Ok []"
| "syncPoliciesLoop sha k (np # nps) =
     (case policyResult sha k np of
        Ok (ingress, egress) \<Rightarrow>
          rbind (syncPoliciesLoop sha k nps) (\<lambda>ps.
            Ok (\<lparr>pol_ingressRule = ingress, pol_egressRule = egress, pol_np = np\<rparr> # ps))
      | Err e \<Rightarrow> syncPoliciesLoop sha k nps
      | Panic \<Rightarrow> Panic)"

section \<open>Synchronizing ipsets\<close>

definition putTable :: "ipsetTable option \<Rightarrow> (string \<times> ipsetTable) list \<Rightarrow> (string \<times> ipsetTable) list" where
  "putTable t m = (case t of None \<Rightarrow> m | Some tbl \<Rightarrow> AList.update (tbl_Name tbl) tbl m)"

definition putRule :: "(string \<times> ipsetTable) list \<Rightarrow> rule \<Rightarrow> (string \<times> ipsetTable) list" where
  "putRule m r = putTable (rule_netTable r) (putTable (rule_ipTable r) m)"

definition putPolicy :: "(string \<times> ipsetTable) list \<Rightarrow> 'ls policy \<Rightarrow> (string \<times> ipsetTable) list" where
  "putPolicy m p =
     (let m = (case pol_ingressRule p of
            None \<Rightarrow> m
          | Some i \<Rightarrow> foldl putRule (putTable (Some (ing_dstIPTable i)) m) (ing_srcRules i))
      in case pol_egressRule p of
           None \<Rightarrow> m
         | Some e \<Rightarrow> foldl putRule (putTable (Some (eg_srcIPTable e)) m) (eg_dstRules e))"

definition initIPSetMap :: "'ls policy list \<Rightarrow> (string \<times> ipsetTable) list" where
  "initIPSetMap polices = foldl putPolicy [] polices"

text \<open>One iteration of \<^verbatim>\<open>createIPSet\<close>: create the set, add what is missing, delete what is stale.\<close>

definition createOne :: "'w ipset_iface \<Rightarrow> string \<times> ipsetTable \<Rightarrow> ('w, unit) act" where
  "createOne H nt = (case nt of (name, tbl) \<Rightarrow>
     abind (awrap (\<lambda>e. ''failed to create ipset '' @ tbl_Name tbl @ '' '' @ set_SetType (tbl_IPSet tbl) @ '': '' @ e)
              (ips_CreateSet H (tbl_IPSet tbl) True)) (\<lambda>_.
     acase (ips_ListEntries H name)
       (\<lambda>oldEntries.
          abind (afor (tbl_entries tbl) (\<lambda>entry.
                   if entryLine entry \<in> set oldEntries then aret ()
                   else aignore (ips_AddEntryWithOptions H entry (tbl_IPSet tbl) True))) (\<lambda>_.
          afor oldEntries (\<lambda>old.
                   if old \<in> set (map entryLine (tbl_entries tbl)) then aret ()
                   else (let parts = split (CHR '' '') old in
                         aignore (ips_DelEntryWithOptions H name (hd parts) (tl parts))))))
       (\<lambda>_. aret ())))"

definition createIPSet :: "'w ipset_iface \<Rightarrow> (string \<times> ipsetTable) list \<Rightarrow> ('w, unit) act" where
  "createIPSet H newIPSetMap = afor newIPSetMap (createOne H)"

section \<open>Synchronizing policy chains\<close>

text \<open>A line of a buffer; \<^verbatim>\<open>writeLine\<close> joins its words with blanks. A buffer is the list of its lines.\<close>

definition writeLine :: "string list \<Rightarrow> string list \<Rightarrow> string list" where
  "writeLine buf ws = buf @ [join '' '' ws]"

definition setRules :: "string \<Rightarrow> string \<Rightarrow> string list" where
  "setRules srcTableName dstTableName =
     [''-m'', ''set'', ''--match-set'', srcTableName, ''src'', ''-m'', ''set'', ''--match-set'', dstTableName, ''dst'']"

definition portRule :: "string \<Rightarrow> string \<Rightarrow> string \<Rightarrow> string list \<Rightarrow> string list \<Rightarrow> string list" where
  "portRule chain comment proto sets ports =
     [''-A'', chain, ''-m'', ''comment'', ''--comment'', comment, ''-p'', proto] @ sets @
     (if ports = [] then [] else [''-m'', ''multiport'', ''--dports'', join '','' ports]) @ [''-j'', ''ACCEPT'']"

definition pairRules :: "string \<Rightarrow> string \<Rightarrow> string list \<Rightarrow> string list \<Rightarrow> string list \<Rightarrow> string \<times> string \<Rightarrow> string list" where
  "pairRules chain comment tcpPorts udpPorts buf sd = (case sd of (src, dst) \<Rightarrow>
     let buf = (if length tcpPorts > 0 then writeLine buf (portRule chain comment ''tcp'' (setRules src dst) tcpPorts) else buf);
         buf = (if length udpPorts > 0 then writeLine buf (portRule chain comment ''udp'' (setRules src dst) udpPorts) else buf)
     in if length tcpPorts = 0 \<and> length udpPorts = 0 then writeLine buf (portRule chain comment ''all'' (setRules src dst) []) else buf)"

definition writePolicyChainRules ::
    "string list \<Rightarrow> string \<Rightarrow> string \<Rightarrow> string list \<Rightarrow> string list \<Rightarrow> string list \<Rightarrow> string list \<Rightarrow> string list" where
  "writePolicyChainRules filterRules chain comment srcTableNames dstTableNames tcpPorts udpPorts =
     foldl (pairRules chain comment tcpPorts udpPorts) filterRules
       (concat (map (\<lambda>s. map (\<lambda>d. (s, d)) dstTableNames) srcTableNames))"

definition tableNames :: "rule \<Rightarrow> string list" where
  "tableNames r =
     (case rule_ipTable r of None \<Rightarrow> [] | Some t \<Rightarrow> [tbl_Name t]) @
     (case rule_netTable r of None \<Rightarrow> [] | Some t \<Rightarrow> [tbl_Name t])"

text \<open>The buffers and the map of active chains that \<^verbatim>\<open>writeRules\<close> fills.\<close>

record sync_buf =
  sb_chains :: "string list"
  sb_rules :: "string list"
  sb_active :: "string list"

definition policyComment :: "'ls policy \<Rightarrow> string" where
  "policyComment p = np_Name (pol_np p) @ ''_'' @ np_Namespace (pol_np p)"

definition ingressRules :: "string \<Rightarrow> 'ls policy \<Rightarrow> string list \<Rightarrow> string list" where
  "ingressRules chain p buf = (case pol_ingressRule p of
      None \<Rightarrow> buf
    | Some i \<Rightarrow> foldl (\<lambda>buf r. writePolicyChainRules buf chain (policyComment p) (tableNames r)
          [tbl_Name (ing_dstIPTable i)] (rule_tcpPorts r) (rule_udpPorts r)) buf (ing_srcRules i))"

definition egressRules :: "string \<Rightarrow> 'ls policy \<Rightarrow> string list \<Rightarrow> string list" where
  "egressRules chain p buf = (case pol_egressRule p of
      None \<Rightarrow> buf
    | Some e \<Rightarrow> foldl (\<lambda>buf r. writePolicyChainRules buf chain (policyComment p)
          [tbl_Name (eg_srcIPTable e)] (tableNames r) (rule_tcpPorts r) (rule_udpPorts r)) buf (eg_dstRules e))"

definition writePolicy :: "sha \<Rightarrow> (string \<times> string) list \<Rightarrow> sync_buf \<Rightarrow> 'ls policy \<Rightarrow> sync_buf" where
  "writePolicy sha existingChains b p =
     (let chain = policyChainName sha (pol_np p)
      in \<lparr>sb_chains = writeLine (sb_chains b)
             [case map_of existingChains chain of Some l \<Rightarrow> l | None \<Rightarrow> MakeChainLine chain],
          sb_rules = egressRules chain p (ingressRules chain p (sb_rules b)),
          sb_active = sb_active b @ [chain]\<rparr>)"

definition writeRules :: "sha \<Rightarrow> (string \<times> string) list \<Rightarrow> sync_buf \<Rightarrow> 'ls policy list \<Rightarrow> sync_buf" where
  "writeRules sha existingChains b polices = foldl (writePolicy sha existingChains) b polices"

text \<open>\<^verbatim>\<open>writeChains\<close> over the existing chains in the order of the range statement: flush and delete the policy chains no longer in use.\<close>

definition writeChains :: "(string \<times> string) list \<Rightarrow> sync_buf \<Rightarrow> sync_buf" where
  "writeChains existingChains b =
     foldl (\<lambda>b (chain, line).
        if chain \<in> set (sb_active b) then b
        else if \<not> hasPrefix chain policyChainPrefix then b
        else b\<lparr>sb_chains := writeLine (sb_chains b) [line], sb_rules := writeLine (sb_rules b) [''-X'', chain]\<rparr>)
       b existingChains"

definition policyScript :: "sha \<Rightarrow> ((string \<times> string) list \<Rightarrow> (string \<times> string) list) \<Rightarrow> (string \<times> string) list \<Rightarrow>
    'ls policy list \<Rightarrow> string" where
  "policyScript sha ordC existingChains polices =
     (let b = writeChains (ordC existingChains)
            (writeRules sha existingChains \<lparr>sb_chains = [''*filter''], sb_rules = [], sb_active = []\<rparr> polices)
      in saveLines (sb_chains b) @ saveLines (writeLine (sb_rules b) [''COMMIT'']))"

definition syncIptables :: "'w iptables_iface \<Rightarrow> sha \<Rightarrow> ((string \<times> string) list \<Rightarrow> (string \<times> string) list) \<Rightarrow>
    'ls policy list \<Rightarrow> ('w, unit) act" where
  "syncIptables T sha ordC polices =
     abind (awrap (\<lambda>e. ''failed to execute iptables-save, syncing all rules: '' @ e) (ipti_SaveInto T ''filter'')) (\<lambda>raw.
       case GetChainLines ''filter'' raw of
         Ok existingChains \<Rightarrow>
           (let lines = policyScript sha ordC existingChains polices in
            awrap (\<lambda>e. ''failed to execute iptables-restore for ruls '' @ lines @ '': '' @ e)
              (ipti_RestoreAll T lines False True))
       | Err e \<Rightarrow> aerr e
       | Panic \<Rightarrow> apanic)"

text \<open>The deferred clean-up of \<^verbatim>\<open>syncRules\<close>: destroy our sets that no policy uses any more.\<close>

definition destroyStale :: "'w ipset_iface \<Rightarrow> (string \<times> ipsetTable) list \<Rightarrow> string list \<Rightarrow> ('w, unit) act" where
  "destroyStale H newIPSetMap ipsets =
     afor ipsets (\<lambda>name.
       if \<not> hasPrefix name NamePrefix then aret ()
       else if map_of newIPSetMap name = None then aignore (ips_DestroySet H name)
       else aret ())"

definition syncRules :: "'w ipset_iface \<Rightarrow> 'w iptables_iface \<Rightarrow> sha \<Rightarrow>
    ((string \<times> ipsetTable) list \<Rightarrow> (string \<times> ipsetTable) list) \<Rightarrow>
    ((string \<times> string) list \<Rightarrow> (string \<times> string) list) \<Rightarrow> 'ls policy list \<Rightarrow> ('w, unit) act" where
  "syncRules H T sha ordS ordC polices =
     abind (awrap (\<lambda>e. ''failed to list ipsets: '' @ e) (ips_ListSets H)) (\<lambda>ipsets.
       let newIPSetMap = initIPSetMap polices in
       abind (createIPSet H (ordS newIPSetMap)) (\<lambda>_.
       adefer (destroyStale H newIPSetMap ipsets) (syncIptables T sha ordC polices)))"

section \<open>Pod chains\<close>

definition filterMatchingPolicies :: "'ls kube \<Rightarrow> Pod \<Rightarrow> 'ls policy list \<Rightarrow> nat list \<times> nat list" where
  "filterMatchingPolicies k pod policies =
     foldl (\<lambda>(ing, eg) (i, p).
       if np_Namespace (pol_np p) \<noteq> pod_Namespace pod then (ing, eg)
       else (case kb_AsSelector k (np_PodSelector (pol_np p)) of
           Ok s \<Rightarrow>
             (if pol_ingressRule p \<noteq> None \<and> sel_Matches s (pod_Labels pod) then ing @ [i] else ing,
              if pol_egressRule p \<noteq> None \<and> sel_Matches s (pod_Labels pod) then eg @ [i] else eg)
         | _ \<Rightarrow> (ing, eg))) ([], []) (enumerate 0 policies)"

definition ensureJump :: "'w iptables_iface \<Rightarrow> string \<Rightarrow> string \<Rightarrow> ('w, bool) act" where
  "ensureJump T from target =
     awrap (\<lambda>e. ''failed to add '' @ from @ '' jump policy chain rule: '' @ e)
       (ipti_EnsureRule T ''-I'' ''filter'' from [''-j'', target])"

definition ensureBasicChain :: "'w iptables_iface \<Rightarrow> ('w, unit) act" where
  "ensureBasicChain T =
     abind (awrap (\<lambda>e. ''failed to ensure policy chain '' @ ingressChain @ '': '' @ e)
              (ipti_EnsureChain T ''filter'' ingressChain)) (\<lambda>_.
     abind (awrap (\<lambda>e. ''failed to ensure policy chain '' @ egressChain @ '': '' @ e)
              (ipti_EnsureChain T ''filter'' egressChain)) (\<lambda>_.
     abind (ensureJump T ''FORWARD'' ingressChain) (\<lambda>_.
     abind (ensureJump T ''FORWARD'' egressChain) (\<lambda>_.
     abind (ensureJump T ''OUTPUT'' ingressChain) (\<lambda>_.
     abind (ensureJump T ''INPUT'' egressChain) (\<lambda>_.
     aret ()))))))"

text \<open>The rule line that mentions the keyword, as the words of its arguments; its first two words are the append option and the chain.\<close>

definition deletePodRuleByKeyword :: "'w iptables_iface \<Rightarrow> string \<Rightarrow> string \<Rightarrow> ('w, unit) act" where
  "deletePodRuleByKeyword T chain keyword =
     acase (ipti_ListRule T ''filter'' chain [])
       (\<lambda>lines.
          let podLine = (case List.find (\<lambda>l. contains l keyword) lines of None \<Rightarrow> [] | Some l \<Rightarrow> l) in
          if podLine = [] then aret ()
          else (let parts = split (CHR '' '') podLine in
                if length parts < 3 then aret ()
                else aignore (ipti_DeleteRule T ''filter'' chain (drop 2 (map trimQuotes parts)))))
       (\<lambda>e. if \<not> contains e chainNotExistErr then aerr (''failed to list rule in chain '' @ chain @ '': '' @ e)
            else aret ())"

definition deletePodChains :: "'w iptables_iface \<Rightarrow> sha \<Rightarrow> Pod \<Rightarrow> ('w, unit) act" where
  "deletePodChains T sha pod =
     (let podChain = podChainName sha pod in
      abind (aignore (deletePodRuleByKeyword T ingressChain podChain)) (\<lambda>_.
      abind (aignore (deletePodRuleByKeyword T egressChain podChain)) (\<lambda>_.
      acase (ipti_FlushChain T ''filter'' podChain)
        (\<lambda>_. aignore (ipti_DeleteChain T ''filter'' podChain))
        (\<lambda>e. if contains e chainNotExistErr then aret ()
             else aignore (ipti_DeleteChain T ''filter'' podChain)))))"

definition podComment :: "Pod \<Rightarrow> string" where
  "podComment pod = pod_Name pod @ ''_'' @ pod_Namespace pod"

text \<open>The script that \<^verbatim>\<open>SyncPodChains\<close> restores: accept established connections, jump to every matching policy, drop the rest.\<close>

definition podScript :: "sha \<Rightarrow> Pod \<Rightarrow> nat list \<Rightarrow> nat list \<Rightarrow> 'ls policy list \<Rightarrow> string" where
  "podScript sha pod ing eg policies =
     (let podChain = podChainName sha pod;
          c = [''-A'', podChain, ''-m'', ''comment'', ''--comment'', podComment pod];
          filterChains = writeLine (writeLine [] [''*filter'']) [MakeChainLine podChain];
          filterRules = writeLine [] (c @ [''-m'', ''conntrack'', ''--ctstate'', ''RELATED,ESTABLISHED'', ''-j'', ''ACCEPT'']);
          filterRules = foldl (\<lambda>buf (i, p).
            if i \<in> set ing \<or> i \<in> set eg
            then writeLine buf (c @ [''-j'', policyChainName sha (pol_np p)]) else buf) filterRules (enumerate 0 policies);
          filterRules = writeLine filterRules (c @ [''-j'', ''DROP'']);
          filterRules = writeLine filterRules [''COMMIT'']
      in saveLines filterChains @ saveLines filterRules)"

definition podArgs :: "string \<Rightarrow> sha \<Rightarrow> Pod \<Rightarrow> string list" where
  "podArgs flag sha pod = [flag, pod_PodIP pod, ''-m'', ''comment'', ''--comment'', podComment pod, ''-j'', podChainName sha pod]"

text \<open>Ensure or delete the jump from GLX-INGRESS or GLX-EGRESS to the pod chain.\<close>

definition syncPodRule :: "'w iptables_iface \<Rightarrow> string \<Rightarrow> string list \<Rightarrow> bool \<Rightarrow> ('w, unit) act" where
  "syncPodRule T chain args wanted =
     (if wanted
      then abind (awrap (\<lambda>e. ''failed to add pod policy rule '' @ join '' '' args @ '': '' @ e)
                    (ipti_EnsureRule T ''-A'' ''filter'' chain args)) (\<lambda>_. aret ())
      else awrap (\<lambda>e. ''failed to delete pod policy rule '' @ join '' '' args @ '': '' @ e)
             (ipti_DeleteRule T ''filter'' chain args))"

definition SyncPodChains :: "'w iptables_iface \<Rightarrow> sha \<Rightarrow> 'ls kube \<Rightarrow> 'ls policy list \<Rightarrow> Pod \<Rightarrow> ('w, unit) act" where
  "SyncPodChains T sha k policies pod =
     (case filterMatchingPolicies k pod policies of (ing, eg) \<Rightarrow>
      if length ing = 0 \<and> length eg = 0 then deletePodChains T sha pod
      else if pod_PodIP pod = [] then aret ()
      else abind (ensureBasicChain T) (\<lambda>_.
        let lines = podScript sha pod ing eg policies in
        abind (awrap (\<lambda>e. ''failed to execute iptables-restore for ruls '' @ lines @ '': '' @ e)
                 (ipti_RestoreAll T lines False True)) (\<lambda>_.
        abind (syncPodRule T ingressChain (podArgs ''-d'' sha pod) (length ing > 0)) (\<lambda>_.
        syncPodRule T egressChain (podArgs ''-s'' sha pod) (length eg > 0)))))"

section \<open>Pod addresses in ipsets\<close>

definition addOrDelIPSetEntry :: "'w ipset_iface \<Rightarrow> bool \<Rightarrow> IPSet \<Rightarrow> string \<Rightarrow> ('w, unit) act" where
  "addOrDelIPSetEntry H add st podIP =
     (let e = Entry0\<lparr>entry_IP := podIP, entry_SetType := set_SetType st\<rparr> in
      if add then aignore (ips_AddEntryWithOptions H e st True)
      else aignore (ips_DelEntryWithOptions H (set_Name st) (Entry_String e) []))"

text \<open>The ipset of the \<open>i\<close>-th rule; reading it through a nil rule or a nil table panics.\<close>

definition ruleSet :: "rule list option \<Rightarrow> nat \<Rightarrow> IPSet result" where
  "ruleSet rs i = (case rs of
      None \<Rightarrow> Panic
    | Some l \<Rightarrow> if i < length l then (case rule_ipTable (l ! i) of None \<Rightarrow> Panic | Some t \<Rightarrow> Ok (tbl_IPSet t)) else Panic)"

definition syncPeer :: "'w ipset_iface \<Rightarrow> 'ls kube \<Rightarrow> rule list option \<Rightarrow> nat \<Rightarrow> Pod \<Rightarrow> bool \<Rightarrow> 'ls NetworkPolicyPeer \<Rightarrow> ('w, unit) act" where
  "syncPeer H k rs i pod add peer =
     (let put = (case ruleSet rs i of Ok st \<Rightarrow> addOrDelIPSetEntry H add st (pod_PodIP pod) | _ \<Rightarrow> apanic) in
      case peer_PodSelector peer of
        Some ls \<Rightarrow>
          (case kb_AsSelector k ls of
             Ok s \<Rightarrow> if sel_Matches s (pod_Labels pod) then put else aret ()
           | Err _ \<Rightarrow> aret ()
           | Panic \<Rightarrow> apanic)
      | None \<Rightarrow>
          (case peer_NamespaceSelector peer of
             None \<Rightarrow> aret ()
           | Some ls \<Rightarrow>
               (case getNamespaces k ls of
                  Ok nss \<Rightarrow> if list_ex (\<lambda>ns. ns_Name ns = pod_Namespace pod) nss then put else aret ()
                | Err _ \<Rightarrow> aret ()
                | Panic \<Rightarrow> apanic)))"

definition syncIngressInIPSet :: "'w ipset_iface \<Rightarrow> 'ls kube \<Rightarrow> 'ls policy \<Rightarrow> Pod \<Rightarrow> bool \<Rightarrow> ('w, unit) act" where
  "syncIngressInIPSet H k p pod add =
     afor (enumerate 0 (np_Ingress (pol_np p))) (\<lambda>(i, ir).
       afor (npr_Peers ir) (syncPeer H k (map_option ing_srcRules (pol_ingressRule p)) i pod add))"

definition syncEgressInIPSet :: "'w ipset_iface \<Rightarrow> 'ls kube \<Rightarrow> 'ls policy \<Rightarrow> Pod \<Rightarrow> bool \<Rightarrow> ('w, unit) act" where
  "syncEgressInIPSet H k p pod add =
     afor (enumerate 0 (np_Egress (pol_np p))) (\<lambda>(i, ir).
       afor (npr_Peers ir) (syncPeer H k (map_option eg_dstRules (pol_egressRule p)) i pod add))"

definition syncTarget :: "'w ipset_iface \<Rightarrow> 'ls policy \<Rightarrow> Pod \<Rightarrow> bool \<Rightarrow> ('w, unit) act" where
  "syncTarget H p pod add = (case pol_ingressRule p of
      Some i \<Rightarrow> addOrDelIPSetEntry H add (tbl_IPSet (ing_dstIPTable i)) (pod_PodIP pod)
    | None \<Rightarrow> (case pol_egressRule p of
          Some e \<Rightarrow> addOrDelIPSetEntry H add (tbl_IPSet (eg_srcIPTable e)) (pod_PodIP pod)
        | None \<Rightarrow> apanic))"

definition SyncPodIPInIPSet :: "'w ipset_iface \<Rightarrow> 'ls kube \<Rightarrow> 'ls policy list \<Rightarrow> Pod \<Rightarrow> bool \<Rightarrow> ('w, unit) act" where
  "SyncPodIPInIPSet H k polices pod add =
     afor polices (\<lambda>p.
       case kb_AsSelector k (np_PodSelector (pol_np p)) of
         Err _ \<Rightarrow> aret ()
       | Panic \<Rightarrow> apanic
       | Ok s \<Rightarrow>
           abind (if np_Namespace (pol_np p) = pod_Namespace pod \<and> sel_Matches s (pod_Labels pod)
                  then syncTarget H p pod add else aret ()) (\<lambda>_.
           abind (syncIngressInIPSet H k p pod add) (\<lambda>_.
           syncEgressInIPSet H k p pod add)))"

end
