(* ===== verification/IPTables_Fake.thy ===== *)
theory IPTables_Fake
  imports IPTables "HOL-Library.List_Lexorder" "HOL-Library.Char_ord"
begin

text \<open>
  \<^verbatim>\<open>pkg/utils/iptables/testing/fake_iptables.go\<close>: the in-memory implementation of \<^verbatim>\<open>iptables.Interface\<close>. Tables and chains are
  association lists under their names (the name fields of the Go structs repeat the keys), a chain is the list of its
  normalized rules. \<open>fkt\<close> interprets the contract \<open>iptables_handle\<close>; the lemmas on \<open>fk_RestoreAll\<close> give the
  effect of restoring one user-defined chain, and the round trip of saving and reading back the chains.
\<close>

section \<open>State\<close>

record fakeIPTables =
  fk_tables :: "(string \<times> (string \<times> string list) list) list"
  fk_builtin :: "(string \<times> string list) list"

definition getTable :: "fakeIPTables \<Rightarrow> string \<Rightarrow> (string \<times> string list) list result" where
  "getTable f tableName = (case map_of (fk_tables f) tableName of
      None \<Rightarrow> Err (''Table '' @ tableName @ '' does not exist'')
    | Some t \<Rightarrow> Ok t)"

definition getChain :: "fakeIPTables \<Rightarrow> string \<Rightarrow> string \<Rightarrow> string list result" where
  "getChain f tableName chainName =
     rbind (getTable f tableName) (\<lambda>table.
       case map_of table chainName of
         None \<Rightarrow> Err (''Chain '' @ tableName @ ''/'' @ chainName @ '' does not exist'')
       | Some rs \<Rightarrow> Ok rs)"

text \<open>The pointer updates of the Go code: set the rules of a chain, or delete it.\<close>

definition tableOf :: "fakeIPTables \<Rightarrow> string \<Rightarrow> (string \<times> string list) list" where
  "tableOf f t = (case map_of (fk_tables f) t of None \<Rightarrow> [] | Some cs \<Rightarrow> cs)"

definition setChain :: "string \<Rightarrow> string \<Rightarrow> string list \<Rightarrow> fakeIPTables \<Rightarrow> fakeIPTables" where
  "setChain t c rs f = f\<lparr>fk_tables := AList.update t (AList.update c rs (tableOf f t)) (fk_tables f)\<rparr>"

definition dropChain :: "string \<Rightarrow> string \<Rightarrow> fakeIPTables \<Rightarrow> fakeIPTables" where
  "dropChain t c f = f\<lparr>fk_tables := AList.update t (AList.delete c (tableOf f t)) (fk_tables f)\<rparr>"

definition fk_ensureChain :: "string \<Rightarrow> string \<Rightarrow> (fakeIPTables, bool) act" where
  "fk_ensureChain tableName chainName = (\<lambda>f.
     case getChain f tableName chainName of
       Ok _ \<Rightarrow> (Ok True, f)
     | _ \<Rightarrow> (Ok False, setChain tableName chainName [] f))"

definition fk_EnsureChain :: "string \<Rightarrow> string \<Rightarrow> (fakeIPTables, bool) act" where
  "fk_EnsureChain tableName chainName = fk_ensureChain tableName chainName"

definition fk_FlushChain :: "string \<Rightarrow> string \<Rightarrow> (fakeIPTables, unit) act" where
  "fk_FlushChain tableName chainName = (\<lambda>f.
     case getChain f tableName chainName of
       Ok _ \<Rightarrow> (Ok (), setChain tableName chainName [] f)
     | Err e \<Rightarrow> (Err e, f)
     | Panic \<Rightarrow> (Panic, f))"

definition fk_DeleteChain :: "string \<Rightarrow> string \<Rightarrow> (fakeIPTables, unit) act" where
  "fk_DeleteChain tableName chainName = (\<lambda>f.
     case getChain f tableName chainName of
       Ok _ \<Rightarrow> (Ok (), dropChain tableName chainName f)
     | Err e \<Rightarrow> (Err e, f)
     | Panic \<Rightarrow> (Panic, f))"

definition builtinChains :: "(string \<times> string list) list" where
  "builtinChains = [(''filter'', [''INPUT'', ''FORWARD'', ''OUTPUT'']),
     (''nat'', [''PREROUTING'', ''INPUT'', ''OUTPUT'', ''POSTROUTING'']),
     (''mangle'', [''PREROUTING'', ''INPUT'', ''FORWARD'', ''OUTPUT'', ''POSTROUTING''])]"

definition NewFakeIPTables :: fakeIPTables where
  "NewFakeIPTables =
     foldl (\<lambda>f (t, cs). foldl (\<lambda>f c. snd (fk_ensureChain t c f)) f (sort cs))
       \<lparr>fk_tables = [], fk_builtin = builtinChains\<rparr> builtinChains"

section \<open>Rules\<close>

definition findRule :: "string list \<Rightarrow> string \<Rightarrow> nat option" where
  "findRule rs r = findIdx (\<lambda>candidate. r = candidate) rs"

definition replaceEq :: "string \<Rightarrow> string" where
  "replaceEq s = (case index s ''='' of None \<Rightarrow> s | Some i \<Rightarrow> s[i := CHR '' ''])"

text \<open>The end of the first argument: behind its closing quote, or at the next blank; \<open>None\<close> when the quote is not closed.\<close>

definition argEnd :: "string \<Rightarrow> nat option" where
  "argEnd remaining =
     (if hd remaining = CHR 0x22 then map_option (\<lambda>i. i + 2) (index (tl remaining) [CHR 0x22])
      else Some (case index remaining '' '' of None \<Rightarrow> length remaining | Some i \<Rightarrow> i))"

function normalizeLoop :: "string \<Rightarrow> string \<Rightarrow> string result" where
  "normalizeLoop normalized remaining0 =
     (let remaining = (if hasPrefix remaining0 ''--to-destination='' then replaceEq remaining0 else remaining0) in
      if remaining = [] then Panic
      else case argEnd remaining of
        None \<Rightarrow> Err ''Invalid rule syntax: mismatched quotes''
      | Some e \<Rightarrow>
          (let arg0 = take e remaining;
               arg = (if ParseIP arg0 \<noteq> [] then arg0 @ ''/32'' else arg0);
               normalized' = (if normalized \<noteq> [] then normalized @ '' '' else normalized) @ trimSpace arg
           in if length remaining = e then Ok normalized'
              else normalizeLoop normalized' (drop (Suc e) remaining)))"
  by auto
termination
proof (relation "measure (length \<circ> snd)", goal_cases)
  case (2 normalized r0 r e a0 a n')
  have "length r = length r0"
    unfolding 2(1) by (simp add: replaceEq_def split: option.splits)
  then show ?case using 2(2) by (cases r) auto
qed auto

declare normalizeLoop.simps [simp del]

definition normalizeRule :: "string \<Rightarrow> string result" where
  "normalizeRule rule = normalizeLoop [] (trimSpace rule)"

definition normalizeArgs :: "string list \<Rightarrow> string list" where
  "normalizeArgs args = map (\<lambda>a. if contains a '' '' \<and> \<not> hasPrefix a [CHR 0x22] then [CHR 0x22] @ a @ [CHR 0x22] else a) args"

definition fk_ensureRule :: "string \<Rightarrow> string \<Rightarrow> string \<Rightarrow> string \<Rightarrow> (fakeIPTables, bool) act" where
  "fk_ensureRule position tableName chainName rule = (\<lambda>f0.
     let f = (if is_Ok (getChain f0 tableName chainName) then f0 else snd (fk_ensureChain tableName chainName f0));
         chain = (case getChain f tableName chainName of Ok rs \<Rightarrow> rs | _ \<Rightarrow> [])
     in case normalizeRule rule of
          Err e \<Rightarrow> (Err e, f)
        | Panic \<Rightarrow> (Panic, f)
        | Ok r \<Rightarrow>
            (if findRule chain r \<noteq> None then (Ok True, f)
             else if position = ''-I'' then (Ok False, setChain tableName chainName ([r] @ chain) f)
             else if position = ''-A'' then (Ok False, setChain tableName chainName (chain @ [r]) f)
             else (Err (''Unknown position argument '' @ quoted position), f)))"

definition fk_EnsureRule :: "string \<Rightarrow> string \<Rightarrow> string \<Rightarrow> string list \<Rightarrow> (fakeIPTables, bool) act" where
  "fk_EnsureRule position tableName chainName args =
     fk_ensureRule position tableName chainName (join '' '' (normalizeArgs args))"

definition fk_DeleteRule :: "string \<Rightarrow> string \<Rightarrow> string list \<Rightarrow> (fakeIPTables, unit) act" where
  "fk_DeleteRule tableName chainName args = (\<lambda>f.
     case getChain f tableName chainName of
       Ok chain \<Rightarrow>
         (case normalizeRule (join '' '' (normalizeArgs args)) of
            Err e \<Rightarrow> (Err e, f)
          | Panic \<Rightarrow> (Panic, f)
          | Ok r \<Rightarrow> (case findRule chain r of
                None \<Rightarrow> (Ok (), f)
              | Some i \<Rightarrow> (Ok (), setChain tableName chainName (removeAt i chain) f)))
     | _ \<Rightarrow> (Ok (), f))"

definition fk_ListRule :: "string \<Rightarrow> string \<Rightarrow> string list \<Rightarrow> (fakeIPTables, string list) act" where
  "fk_ListRule table chain args = (\<lambda>f. (getChain f table chain, f))"

section \<open>Save and restore\<close>

definition saveChain :: "string \<Rightarrow> string list \<Rightarrow> string list" where
  "saveChain c rs = map (\<lambda>r. ''-A '' @ c @ '' '' @ r) rs"

definition fk_SaveInto :: "string \<Rightarrow> (fakeIPTables, string) act" where
  "fk_SaveInto tableName = (\<lambda>f. case getTable f tableName of
      Err e \<Rightarrow> (Err e, f)
    | Panic \<Rightarrow> (Panic, f)
    | Ok table \<Rightarrow>
        (let chainNames = sort (map fst table) in
         (Ok (saveLines ([''*'' @ tableName] @ map MakeChainLine chainNames @
            concat (map (\<lambda>n. saveChain n (case map_of table n of None \<Rightarrow> [] | Some rs \<Rightarrow> rs)) chainNames) @
            [''COMMIT''])), f)))"

definition isBuiltinChain :: "fakeIPTables \<Rightarrow> string \<Rightarrow> string \<Rightarrow> bool" where
  "isBuiltinChain f t c = (case map_of (fk_builtin f) t of None \<Rightarrow> False | Some cs \<Rightarrow> c \<in> set cs)"

text \<open>The branch for a chain line.\<close>

definition restoreChainLine :: "string \<Rightarrow> bool \<Rightarrow> string \<Rightarrow> string \<Rightarrow> (fakeIPTables, unit) act" where
  "restoreChainLine allLines flush tableName line = (\<lambda>f.
     let chainName = hd (split (CHR '' '') (drop 1 line));
         f = (if flush \<and> is_Ok (getChain f tableName chainName) then dropChain tableName chainName f else f);
         f = snd (fk_ensureChain tableName chainName f)
     in if \<not> isBuiltinChain f tableName chainName \<and> \<not> contains allLines (''-X '' @ chainName)
        then fk_FlushChain tableName chainName f
        else (Ok (), f))"

text \<open>The branches for \<^verbatim>\<open>-A\<close> and \<^verbatim>\<open>-I\<close>.\<close>

definition restoreRuleLine :: "string \<Rightarrow> string \<Rightarrow> string \<Rightarrow> (fakeIPTables, unit) act" where
  "restoreRuleLine position tableName line =
     (let parts = split (CHR '' '') line in
      if length parts < 3 then aerr (''Invalid iptables rule '' @ [CHR 0x27] @ line @ [CHR 0x27])
      else (let chainName = parts ! 1; rule = trimPrefix line (position @ '' '' @ chainName @ '' '') in
        abind (fk_ensureRule position tableName chainName rule) (\<lambda>_. aret ())))"

text \<open>
  The loop over the lines. \<open>tableName\<close> is the table of the last star line, empty outside a table; a last line
  without a newline is not read.
\<close>

fun restoreLoop :: "string \<Rightarrow> string \<Rightarrow> bool \<Rightarrow> string \<Rightarrow> string list \<Rightarrow> (fakeIPTables, unit) act" where
  "restoreLoop rt allLines flush tableName0 [] = aret ()"
| "restoreLoop rt allLines flush tableName0 (line # ls) =
     (if hasPrefix line ''#'' then restoreLoop rt allLines flush tableName0 ls
      else (let tableName = (if hasPrefix line ''*'' then drop 1 line else tableName0) in
        if tableName = [] then restoreLoop rt allLines flush tableName ls
        else if rt \<noteq> [] \<and> rt \<noteq> tableName then restoreLoop rt allLines flush tableName ls
        else if hasPrefix line '':'' then
          abind (restoreChainLine allLines flush tableName line) (\<lambda>_. restoreLoop rt allLines flush tableName ls)
        else if hasPrefix line ''-A'' then
          abind (restoreRuleLine ''-A'' tableName line) (\<lambda>_. restoreLoop rt allLines flush tableName ls)
        else if hasPrefix line ''-I'' then
          abind (restoreRuleLine ''-I'' tableName line) (\<lambda>_. restoreLoop rt allLines flush tableName ls)
        else if hasPrefix line ''-X'' then
          (let parts = split (CHR '' '') line in
           if length parts < 2 then aerr (''Invalid iptables rule '' @ [CHR 0x27] @ line @ [CHR 0x27])
           else abind (fk_DeleteChain tableName (parts ! 1)) (\<lambda>_. restoreLoop rt allLines flush tableName ls))
        else if line = ''COMMIT'' then
          (if rt = tableName then aret () else restoreLoop rt allLines flush [] ls)
        else restoreLoop rt allLines flush tableName ls))"

definition fk_restore :: "string \<Rightarrow> string \<Rightarrow> bool \<Rightarrow> (fakeIPTables, unit) act" where
  "fk_restore rt data flush = restoreLoop rt data flush [] (butlast (split nl data))"

definition fk_Restore :: "string \<Rightarrow> string \<Rightarrow> bool \<Rightarrow> bool \<Rightarrow> (fakeIPTables, unit) act" where
  "fk_Restore tableName data flush counters = fk_restore tableName data flush"

definition fk_RestoreAll :: "string \<Rightarrow> bool \<Rightarrow> bool \<Rightarrow> (fakeIPTables, unit) act" where
  "fk_RestoreAll data flush counters = fk_restore [] data flush"

definition fk_iface :: "fakeIPTables iptables_iface" where
  "fk_iface = \<lparr>
     ipti_EnsureChain = fk_EnsureChain,
     ipti_FlushChain = fk_FlushChain,
     ipti_DeleteChain = fk_DeleteChain,
     ipti_EnsureRule = fk_EnsureRule,
     ipti_DeleteRule = fk_DeleteRule,
     ipti_ListRule = fk_ListRule,
     ipti_IsIpv6 = False,
     ipti_SaveInto = fk_SaveInto,
     ipti_EnsurePolicy = (\<lambda>t c p. aret ()),
     ipti_Restore = fk_Restore,
     ipti_RestoreAll = fk_RestoreAll\<rparr>"

section \<open>The contract\<close>

definition fk_rules :: "fakeIPTables \<Rightarrow> string \<Rightarrow> string \<Rightarrow> string list option" where
  "fk_rules f t c = map_of (tableOf f t) c"

definition fk_inv :: "fakeIPTables \<Rightarrow> bool" where
  "fk_inv f \<longleftrightarrow> fk_builtin f = builtinChains"

definition fk_norm :: "string list \<Rightarrow> string" where
  "fk_norm args = (case normalizeRule (join '' '' (normalizeArgs args)) of Ok r \<Rightarrow> r | _ \<Rightarrow> [])"

definition fk_ok :: "string list \<Rightarrow> bool" where
  "fk_ok args = is_Ok (normalizeRule (join '' '' (normalizeArgs args)))"

lemma fk_ok_norm: "fk_ok args \<Longrightarrow> normalizeRule (join '' '' (normalizeArgs args)) = Ok (fk_norm args)"
  by (auto simp: fk_ok_def fk_norm_def is_Ok_iff)

lemma getChain_rules: "getChain f t c = Ok rs \<longleftrightarrow> fk_rules f t c = Some rs"
  by (auto simp: getChain_def getTable_def fk_rules_def tableOf_def split: option.splits)

lemma getChain_no_panic [simp]: "getChain f t c \<noteq> Panic"
  by (auto simp: getChain_def getTable_def split: option.splits)

lemma is_Ok_getChain: "is_Ok (getChain f t c) \<longleftrightarrow> fk_rules f t c \<noteq> None"
  by (auto simp: is_Ok_iff getChain_rules)

lemma tableOf_setChain: "tableOf (setChain t c rs f) t' = (if t' = t then AList.update c rs (tableOf f t) else tableOf f t')"
  by (auto simp: setChain_def tableOf_def update_conv')

lemma fk_rules_setChain: "fk_rules (setChain t c rs f) = (fk_rules f)(t := (fk_rules f t)(c := Some rs))"
  by (auto simp: fk_rules_def tableOf_setChain update_conv' fun_eq_iff)

lemma fk_builtin_setChain [simp]: "fk_builtin (setChain t c rs f) = fk_builtin f"
  by (simp add: setChain_def)

lemma fk_rules_dropChain: "fk_rules (dropChain t c f) = (fk_rules f)(t := (fk_rules f t)(c := None))"
  by (auto simp: fk_rules_def dropChain_def tableOf_def update_conv' delete_conv' fun_eq_iff)

lemma rules_upd_same: "fk_rules f t c = Some rs \<Longrightarrow> (fk_rules f)(t := (fk_rules f t)(c := Some rs)) = fk_rules f"
  by (auto simp: fun_eq_iff)

lemma findRule_None: "findRule rs r = None \<longleftrightarrow> r \<notin> set rs"
  by (auto simp: findRule_def findIdx_None)

lemma removeAt_Suc: "removeAt (Suc i) (x # xs) = x # removeAt i xs"
  by (simp add: removeAt_def)

lemma findRule_Some: "findRule rs r = Some i \<Longrightarrow> removeAt i rs = remove1 r rs"
  unfolding findRule_def
proof (induction rs arbitrary: i)
  case (Cons x xs)
  then show ?case by (auto simp: removeAt_Suc split: if_splits) (simp add: removeAt_def)
qed simp

lemma fk_ensureChain_eq:
  "fk_ensureChain t c f = (case fk_rules f t c of None \<Rightarrow> (Ok False, setChain t c [] f) | Some rs \<Rightarrow> (Ok True, f))"
proof (cases "fk_rules f t c")
  case None
  then obtain e where "getChain f t c = Err e" using getChain_rules[of f t c] by (cases "getChain f t c") auto
  then show ?thesis using None by (simp add: fk_ensureChain_def)
next
  case (Some rs)
  then show ?thesis using getChain_rules[of f t c rs] by (simp add: fk_ensureChain_def)
qed

lemma fk_chain:
  "fst (fk_EnsureChain t c f) = Ok (fk_rules f t c \<noteq> None)"
  "fk_rules (snd (fk_EnsureChain t c f)) =
     (fk_rules f)(t := (fk_rules f t)(c := Some (case fk_rules f t c of None \<Rightarrow> [] | Some rs \<Rightarrow> rs)))"
  by (cases "fk_rules f t c"; simp add: fk_EnsureChain_def fk_ensureChain_eq fk_rules_setChain rules_upd_same)+

lemma fk_ensureRule_eq:
  assumes "fk_rules f t c = Some rs" "normalizeRule rule = Ok r" "pos \<in> {''-I'', ''-A''}"
  shows "fk_ensureRule pos t c rule f =
    (if r \<in> set rs then (Ok True, f) else (Ok False, setChain t c (addRule pos r rs) f))"
  using assms getChain_rules[of f t c rs]
  by (auto simp: fk_ensureRule_def Let_def findRule_None addRule_def)

lemma fk_ensureRule_exists:
  assumes "fk_rules f t c = Some rs" "normalizeRule rule = Ok r" "r \<in> set rs"
  shows "fk_ensureRule pos t c rule f = (Ok True, f)"
  using assms getChain_rules[of f t c rs] by (auto simp: fk_ensureRule_def Let_def findRule_None)

lemma fk_builtin_EnsureChain [simp]: "fk_builtin (snd (fk_EnsureChain t c f)) = fk_builtin f"
  by (simp add: fk_EnsureChain_def fk_ensureChain_eq split: option.splits)

lemma fk_delete:
  assumes "fk_ok args" "fk_rules f t c = Some rs"
  shows "\<exists>f'. fk_DeleteRule t c args f = (Ok (), f') \<and> fk_builtin f' = fk_builtin f \<and>
    fk_rules f' = (fk_rules f)(t := (fk_rules f t)(c := Some (remove1 (fk_norm args) rs)))"
proof (cases "findRule rs (fk_norm args)")
  case None
  then have "remove1 (fk_norm args) rs = rs" by (simp add: findRule_None remove1_idem)
  then show ?thesis using None assms getChain_rules[of f t c rs]
    by (simp add: fk_DeleteRule_def fk_ok_norm rules_upd_same)
next
  case (Some i)
  then show ?thesis using assms getChain_rules[of f t c rs] findRule_Some[OF Some]
    by (simp add: fk_DeleteRule_def fk_ok_norm fk_rules_setChain)
qed

interpretation fkt: iptables_handle fk_iface fk_inv fk_rules fk_norm fk_ok
proof (unfold_locales, goal_cases)
  case (1 w t c)
  show ?case using fk_chain[of t c w] by (intro exI[of _ "fk_rules w t c \<noteq> None"] exI[of _ "snd (fk_EnsureChain t c w)"])
      (use 1 in \<open>simp add: fk_iface_def prod_eq_iff fk_inv_def\<close>)
next
  case (2 w t c)
  then show ?case by (auto simp: fk_iface_def fk_EnsureChain_def fk_ensureChain_eq)
next
  case (3 w args t c rs pos)
  then show ?case using fk_ensureRule_exists fk_ok_norm by (simp add: fk_iface_def fk_EnsureRule_def)
next
  case (4 w args pos t c rs)
  then show ?case
    using fk_ensureRule_eq[OF 4(4) fk_ok_norm[OF 4(2)] 4(3)] by (simp add: fk_iface_def fk_EnsureRule_def fk_rules_setChain fk_inv_def)
next
  case (5 w args t c rs)
  then show ?case using fk_delete[OF 5(2,3)] by (auto simp: fk_iface_def fk_inv_def)
qed

section \<open>Restoring one user-defined chain\<close>

definition ruleLine :: "string \<Rightarrow> string \<Rightarrow> string" where
  "ruleLine c r = ''-A '' @ c @ '' '' @ r"

definition appendNew :: "string list \<Rightarrow> string \<Rightarrow> string list" where
  "appendNew rs r = (if r \<in> set rs then rs else rs @ [r])"

lemma appendNew_distinct:
  "distinct (rs @ xs) \<Longrightarrow> foldl appendNew rs xs = rs @ xs"
  by (induction xs arbitrary: rs) (auto simp: appendNew_def)

lemma ruleLine_parts:
  assumes "CHR '' '' \<notin> set c"
  shows "split (CHR '' '') (ruleLine c r) = ''-A'' # c # split (CHR '' '') r"
    and "trimPrefix (ruleLine c r) (''-A'' @ '' '' @ c @ '' '') = r"
proof -
  have "split (CHR '' '') (ruleLine c r) = ''-A'' # split (CHR '' '') (c @ CHR '' '' # r)"
    using split_append_sep[of "CHR '' ''" "''-A''" "c @ CHR '' '' # r"] by (simp add: ruleLine_def)
  then show "split (CHR '' '') (ruleLine c r) = ''-A'' # c # split (CHR '' '') r"
    using split_append_sep[OF assms, of r] by simp
  have "ruleLine c r = (''-A'' @ '' '' @ c @ '' '') @ r" by (simp add: ruleLine_def)
  then show "trimPrefix (ruleLine c r) (''-A'' @ '' '' @ c @ '' '') = r" by (simp only: trimPrefix_append)
qed

lemma split_length: "length (split c s) \<ge> 1"
  using split_nonempty[of c s] by (cases "split c s") auto

lemma restoreRuleLine_eq:
  assumes "CHR '' '' \<notin> set c" "normalizeRule r = Ok n" "fk_rules f t c = Some rs"
  shows "\<exists>f'. restoreRuleLine ''-A'' t (ruleLine c r) f = (Ok (), f') \<and> fk_builtin f' = fk_builtin f \<and>
    fk_rules f' = (fk_rules f)(t := (fk_rules f t)(c := Some (appendNew rs n)))"
proof -
  have l: "\<not> length (split (CHR '' '') (ruleLine c r)) < 3"
    using split_length[of "CHR '' ''" r] by (simp add: ruleLine_parts[OF assms(1)])
  have e: "restoreRuleLine ''-A'' t (ruleLine c r) f = abind (fk_ensureRule ''-A'' t c r) (\<lambda>_. aret ()) f"
    using l ruleLine_parts[OF assms(1), of r] by (simp only: restoreRuleLine_def Let_def) simp
  show ?thesis
    using fk_ensureRule_eq[OF assms(3,2), of "''-A''"] assms(3)
    by (auto simp: e act_simps appendNew_def addRule_def fk_rules_setChain rules_upd_same)
qed

lemma restore_rules:
  assumes "CHR '' '' \<notin> set c" "list_all (\<lambda>r. is_Ok (normalizeRule r)) rs" "fk_rules f t c = Some acc" "t \<noteq> []"
  shows "\<exists>f'. restoreLoop [] a fl t (map (ruleLine c) rs @ ls) f = restoreLoop [] a fl t ls f' \<and>
    fk_builtin f' = fk_builtin f \<and> fk_rules f' = (fk_rules f)(t := (fk_rules f t)(c :=
      Some (foldl appendNew acc (map (\<lambda>r. case normalizeRule r of Ok n \<Rightarrow> n | _ \<Rightarrow> []) rs))))"
  using assms(2,3)
proof (induction rs arbitrary: f acc)
  case Nil
  then show ?case using rules_upd_same by force
next
  case (Cons r rs)
  obtain n where n: "normalizeRule r = Ok n" using Cons.prems by (auto simp: is_Ok_iff)
  obtain f1 where f1: "restoreRuleLine ''-A'' t (ruleLine c r) f = (Ok (), f1)" "fk_builtin f1 = fk_builtin f"
    "fk_rules f1 = (fk_rules f)(t := (fk_rules f t)(c := Some (appendNew acc n)))"
    using restoreRuleLine_eq[OF assms(1) n Cons.prems(2)] by blast
  have step: "restoreLoop [] a fl t (map (ruleLine c) (r # rs) @ ls) f =
      restoreLoop [] a fl t (map (ruleLine c) rs @ ls) f1"
    using f1(1) assms(4) by (simp add: ruleLine_def abind_def)
  have "fk_rules f1 t c = Some (appendNew acc n)" using f1(3) by simp
  moreover have "list_all (\<lambda>r. is_Ok (normalizeRule r)) rs" using Cons.prems(1) by simp
  ultimately obtain f' where f': "restoreLoop [] a fl t (map (ruleLine c) rs @ ls) f1 =
      restoreLoop [] a fl t ls f'" "fk_builtin f' = fk_builtin f1" "fk_rules f' = (fk_rules f1)(t := (fk_rules f1 t)(c :=
      Some (foldl appendNew (appendNew acc n) (map (\<lambda>r. case normalizeRule r of Ok n \<Rightarrow> n | _ \<Rightarrow> []) rs))))"
    using Cons.IH[of f1 "appendNew acc n"] by blast
  then show ?case using step f1 n by (intro exI[of _ f']) (auto simp: fun_eq_iff)
qed

lemma saveLines_split: "list_all (\<lambda>l. nl \<notin> set l) ls \<Longrightarrow> butlast (split nl (saveLines ls)) = ls"
proof -
  assume a: "list_all (\<lambda>l. nl \<notin> set l) ls"
  have "saveLines ls = join [nl] (ls @ [[]])"
    by (induction ls) (simp_all add: join_Cons)
  moreover have "split nl (join [nl] (ls @ [[]])) = ls @ [[]]"
    using a by (intro split_join) (auto simp: list_all_iff)
  ultimately show ?thesis by simp
qed

lemma chainLine_name: "CHR '' '' \<notin> set c \<Longrightarrow> hd (split (CHR '' '') (drop (Suc 0) (MakeChainLine c))) = c"
  using split_append_sep[of "CHR '' ''" c "''- [0:0]''"] by (simp add: MakeChainLine_def)

lemma restoreChainLine_eq:
  assumes "CHR '' '' \<notin> set c" "\<not> isBuiltinChain f t c" "\<not> contains a (''-X '' @ c)"
  shows "\<exists>f'. restoreChainLine a False t (MakeChainLine c) f = (Ok (), f') \<and> fk_builtin f' = fk_builtin f \<and>
    fk_rules f' = (fk_rules f)(t := (fk_rules f t)(c := Some []))"
proof -
  let ?g = "snd (fk_ensureChain t c f)"
  have b: "fk_builtin ?g = fk_builtin f" by (auto simp: fk_ensureChain_def split: result.splits)
  have g: "fk_rules ?g = (fk_rules f)(t := (fk_rules f t)(c := Some (case fk_rules f t c of None \<Rightarrow> [] | Some rs \<Rightarrow> rs)))"
    using fk_chain(2)[of t c f] by (simp add: fk_EnsureChain_def)
  then obtain rs where rs: "getChain ?g t c = Ok rs" using getChain_rules by auto
  have "restoreChainLine a False t (MakeChainLine c) f = (Ok (), setChain t c [] ?g)"
    using assms(2,3) rs b by (simp add: restoreChainLine_def chainLine_name[OF assms(1)] Let_def fk_FlushChain_def
        isBuiltinChain_def)
  then show ?thesis using b g by (intro exI[of _ "setChain t c [] ?g"]) (simp add: fk_rules_setChain fun_eq_iff)
qed

text \<open>The script that recreates one chain: its chain line and its rules.\<close>

definition chainScript :: "string \<Rightarrow> string list \<Rightarrow> string" where
  "chainScript c rs = saveLines ([''*filter'', MakeChainLine c] @ map (ruleLine c) rs @ [''COMMIT''])"

lemma restore_chain:
  assumes "nl \<notin> set c" "CHR '' '' \<notin> set c" "\<not> isBuiltinChain f ''filter'' c"
    and "\<not> contains (chainScript c rs) (''-X '' @ c)"
    and "list_all (\<lambda>r. nl \<notin> set r \<and> is_Ok (normalizeRule r)) rs"
  shows "\<exists>f'. fk_RestoreAll (chainScript c rs) False cn f = (Ok (), f') \<and> fk_builtin f' = fk_builtin f \<and>
    fk_rules f' = (fk_rules f)(''filter'' := (fk_rules f ''filter'')(c :=
      Some (foldl appendNew [] (map (\<lambda>r. case normalizeRule r of Ok n \<Rightarrow> n | _ \<Rightarrow> []) rs))))"
proof -
  let ?a = "chainScript c rs"
  let ?ls = "[''*filter'', MakeChainLine c] @ map (ruleLine c) rs @ [''COMMIT'']"
  have "list_all (\<lambda>l. nl \<notin> set l) ?ls"
    using assms(1,5) by (auto simp: list_all_iff MakeChainLine_def ruleLine_def nl_def)
  then have sp: "butlast (split nl ?a) = ?ls" unfolding chainScript_def by (rule saveLines_split)
  obtain f1 where f1: "restoreChainLine ?a False ''filter'' (MakeChainLine c) f = (Ok (), f1)" "fk_builtin f1 = fk_builtin f"
    "fk_rules f1 = (fk_rules f)(''filter'' := (fk_rules f ''filter'')(c := Some []))"
    using restoreChainLine_eq[OF assms(2-4)] by blast
  have h: "hasPrefix (MakeChainLine c) '':''" "\<not> hasPrefix (MakeChainLine c) ''#''" "\<not> hasPrefix (MakeChainLine c) ''*''"
    by (simp_all add: MakeChainLine_def)
  have "fk_RestoreAll ?a False cn f = restoreLoop [] ?a False ''filter'' (map (ruleLine c) rs @ [''COMMIT'']) f1"
    using f1(1) h by (simp add: fk_RestoreAll_def fk_restore_def sp abind_def Let_def)
  moreover have "fk_rules f1 ''filter'' c = Some []" using f1(3) by simp
  then obtain f' where "restoreLoop [] ?a False ''filter'' (map (ruleLine c) rs @ [''COMMIT'']) f1 =
      restoreLoop [] ?a False ''filter'' [''COMMIT''] f'" "fk_builtin f' = fk_builtin f1"
    "fk_rules f' = (fk_rules f1)(''filter'' := (fk_rules f1 ''filter'')(c :=
      Some (foldl appendNew [] (map (\<lambda>r. case normalizeRule r of Ok n \<Rightarrow> n | _ \<Rightarrow> []) rs))))"
    using restore_rules[OF assms(2), of rs f1 "''filter''" "[]" ?a False "[''COMMIT'']"] assms(5)
    by (auto simp: list_all_iff)
  ultimately show ?thesis using f1 by (intro exI[of _ f']) (simp add: aret_def fun_eq_iff)
qed

section \<open>Properties\<close>

text \<open>Names without blanks and rules that are plain text, as the operations store them.\<close>

definition table_plain :: "(string \<times> string list) list \<Rightarrow> bool" where
  "table_plain cs \<longleftrightarrow> list_all (\<lambda>(c, rs). nl \<notin> set c \<and> CHR '' '' \<notin> set c \<and>
     list_all (\<lambda>r. r \<noteq> [] \<and> nl \<notin> set r \<and> last r \<noteq> CHR '' '') rs) cs"

lemma saveChain_plain:
  assumes "nl \<notin> set c" "list_all (\<lambda>r. r \<noteq> [] \<and> nl \<notin> set r \<and> last r \<noteq> CHR '' '') rs"
  shows "list_all (\<lambda>l. plain_line l \<and> hasPrefix l ''-'') (saveChain c rs)"
  using assms by (auto simp: saveChain_def list_all_iff plain_line_def nl_def)

text \<open>
  C21. Saving a table and reading the save file back gives exactly its chains: what
  \<^verbatim>\<open>SaveInto\<close> writes, \<^verbatim>\<open>GetChainLines\<close> reads.
\<close>

theorem save_then_GetChainLines:
  assumes "map_of (fk_tables f) t = Some cs" and "table_plain cs" and "nl \<notin> set t" and "t = [] \<or> last t \<noteq> CHR '' ''"
  shows "\<exists>out m. fk_SaveInto t f = (Ok out, f) \<and> GetChainLines t out = Ok m \<and>
    (\<forall>c. map_of m c = (if fk_rules f t c = None then None else Some (MakeChainLine c)))"
proof -
  let ?names = "sort (map fst cs)"
  let ?rs = "\<lambda>n. case map_of cs n of None \<Rightarrow> [] | Some rs \<Rightarrow> rs"
  let ?ls = "concat (map (\<lambda>n. saveChain n (?rs n)) ?names)"
  have n: "list_all (\<lambda>c. nl \<notin> set c \<and> CHR '' '' \<notin> set c) ?names"
    using assms(2) by (auto simp: table_plain_def list_all_iff)
  have "list_all (\<lambda>l. plain_line l \<and> hasPrefix l ''-'') (saveChain c (?rs c))" if "c \<in> set ?names" for c
  proof (rule saveChain_plain)
    show "nl \<notin> set c" using n that by (auto simp: list_all_iff)
    show "list_all (\<lambda>r. r \<noteq> [] \<and> nl \<notin> set r \<and> last r \<noteq> CHR '' '') (?rs c)"
    proof (cases "map_of cs c")
      case (Some rs)
      then show ?thesis using assms(2) map_of_SomeD[OF Some] by (auto simp: table_plain_def list_all_iff)
    qed simp
  qed
  then have l: "list_all (\<lambda>l. plain_line l \<and> hasPrefix l ''-'') ?ls" by (auto simp: list_all_iff)
  have "fk_rules f t c = None \<longleftrightarrow> c \<notin> set ?names" for c
    using assms(1) by (auto simp: fk_rules_def tableOf_def map_of_eq_None_iff image_iff)
  then show ?thesis
    using GetChainLines_save[OF n l assms(3,4)] assms(1) map_of_foldl_update[of MakeChainLine "[]" ?names]
    by (simp add: fk_SaveInto_def getTable_def Let_def)
qed

theorem save_then_GetChainLines_witness:
  "\<exists>out m. fk_SaveInto ''filter'' NewFakeIPTables = (Ok out, NewFakeIPTables) \<and> GetChainLines ''filter'' out = Ok m \<and>
    (\<forall>c. map_of m c = (if fk_rules NewFakeIPTables ''filter'' c = None then None else Some (MakeChainLine c)))"
proof (rule save_then_GetChainLines)
  show "map_of (fk_tables NewFakeIPTables) ''filter'' = Some [(''FORWARD'', []), (''INPUT'', []), (''OUTPUT'', [])]"
    by code_simp
qed (simp_all add: table_plain_def nl_def)

end
