(* ===== verification/PodChains.thy ===== *)
theory PodChains
  imports Policy IPTables_Fake
begin

text \<open>
  The pod chains of the policy controller: in the contract \<open>iptables_handle\<close>, \<^verbatim>\<open>ensureBasicChain\<close> installs the
  jumps to our chains and is idempotent; on the in-memory tables, \<^verbatim>\<open>SyncPodChains\<close> leaves the pod chain with the rule for
  established connections first, a jump for every matching policy, and the drop rule last.
\<close>

section \<open>The basic chains\<close>

definition basicChains :: "string set" where
  "basicChains = {ingressChain, egressChain, ''FORWARD'', ''OUTPUT'', ''INPUT''}"

context iptables_handle
begin

definition hasRule :: "'w \<Rightarrow> string \<Rightarrow> string \<Rightarrow> bool" where
  "hasRule w c r \<longleftrightarrow> (\<exists>rs. rules w ''filter'' c = Some rs \<and> r \<in> set rs)"

text \<open>Rules are only added, and only to the basic chains.\<close>

definition grows :: "'w \<Rightarrow> 'w \<Rightarrow> bool" where
  "grows w w' \<longleftrightarrow> tinv w' \<and> (\<forall>c. rules w ''filter'' c \<noteq> None \<longrightarrow> rules w' ''filter'' c \<noteq> None) \<and>
     (\<forall>c r. hasRule w c r \<longrightarrow> hasRule w' c r) \<and>
     (\<forall>t c. t \<noteq> ''filter'' \<or> c \<notin> basicChains \<longrightarrow> rules w' t c = rules w t c)"

lemma grows_trans: "grows a b \<Longrightarrow> grows b c \<Longrightarrow> grows a c"
  by (simp add: grows_def)

lemma grows_chain:
  assumes "tinv w" "c \<in> basicChains"
  shows "\<exists>b w'. ipti_EnsureChain T ''filter'' c w = (Ok b, w') \<and> grows w w' \<and> rules w' ''filter'' c \<noteq> None"
  using chain_law[OF assms(1), of "''filter''" c] assms(2)
  by (auto simp: grows_def hasRule_def split: option.splits)

lemma grows_jump:
  assumes "tinv w" "ok [''-j'', target]" "c \<in> basicChains" "rules w ''filter'' c \<noteq> None"
  shows "\<exists>b w'. ensureJump T c target w = (Ok b, w') \<and> grows w w' \<and> hasRule w' c (norm [''-j'', target])"
proof -
  obtain rs where rs: "rules w ''filter'' c = Some rs" using assms(4) by auto
  have pos: "''-I'' \<in> {''-I'', ''-A''}" by simp
  show ?thesis
  proof (rule ensure_rule[OF assms(1,2) pos rs])
    fix b w' rs'
    assume "ipti_EnsureRule T ''-I'' ''filter'' c [''-j'', target] w = (Ok b, w')" "tinv w'"
      "rules w' = (rules w)(''filter'' := (rules w ''filter'')(c := Some rs'))" "set rs' = insert (norm [''-j'', target]) (set rs)"
    then show ?thesis using rs assms(3) by (auto simp: ensureJump_def act_simps grows_def hasRule_def)
  qed
qed

lemma growsD:
  assumes "grows w w'"
  shows "tinv w'" "rules w ''filter'' c \<noteq> None \<Longrightarrow> rules w' ''filter'' c \<noteq> None" "hasRule w c r \<Longrightarrow> hasRule w' c r"
  using assms unfolding grows_def by blast+

definition basicDone :: "'w \<Rightarrow> bool" where
  "basicDone w \<longleftrightarrow> rules w ''filter'' ingressChain \<noteq> None \<and> rules w ''filter'' egressChain \<noteq> None \<and>
     hasRule w ''FORWARD'' (norm [''-j'', ingressChain]) \<and> hasRule w ''FORWARD'' (norm [''-j'', egressChain]) \<and>
     hasRule w ''OUTPUT'' (norm [''-j'', ingressChain]) \<and> hasRule w ''INPUT'' (norm [''-j'', egressChain])"

lemma ensureJump_done:
  "tinv w \<Longrightarrow> ok [''-j'', target] \<Longrightarrow> hasRule w c (norm [''-j'', target]) \<Longrightarrow> ensureJump T c target w = (Ok True, w)"
  using rule_exists_law by (auto simp: hasRule_def ensureJump_def act_simps)

lemma ensureBasicChain_done:
  assumes "tinv w" "ok [''-j'', ingressChain]" "ok [''-j'', egressChain]" "basicDone w"
  shows "ensureBasicChain T w = (Ok (), w)"
  using assms chain_exists_law[OF assms(1), of "''filter''"] ensureJump_done[OF assms(1)]
  by (simp add: ensureBasicChain_def basicDone_def act_simps)

lemma ensureBasicChain_ok:
  assumes "tinv w" "ok [''-j'', ingressChain]" "ok [''-j'', egressChain]"
    and "rules w ''filter'' ''FORWARD'' \<noteq> None" "rules w ''filter'' ''OUTPUT'' \<noteq> None" "rules w ''filter'' ''INPUT'' \<noteq> None"
  shows "\<exists>w'. ensureBasicChain T w = (Ok (), w') \<and> grows w w' \<and> basicDone w'"
proof -
  have b: "ingressChain \<in> basicChains" "egressChain \<in> basicChains" "''FORWARD'' \<in> basicChains"
    "''OUTPUT'' \<in> basicChains" "''INPUT'' \<in> basicChains" by (auto simp: basicChains_def)
  obtain x1 w1 where w1: "ipti_EnsureChain T ''filter'' ingressChain w = (Ok x1, w1)" "grows w w1"
    "rules w1 ''filter'' ingressChain \<noteq> None" using grows_chain[OF assms(1) b(1)] by blast
  then obtain x2 w2 where w2: "ipti_EnsureChain T ''filter'' egressChain w1 = (Ok x2, w2)" "grows w1 w2"
    "rules w2 ''filter'' egressChain \<noteq> None" using grows_chain[OF growsD(1)[OF w1(2)] b(2)] by blast
  have g2: "grows w w2" by (rule grows_trans[OF w1(2) w2(2)])
  obtain x3 w3 where w3: "ensureJump T ''FORWARD'' ingressChain w2 = (Ok x3, w3)" "grows w2 w3"
    "hasRule w3 ''FORWARD'' (norm [''-j'', ingressChain])"
    using grows_jump[OF growsD(1)[OF g2] assms(2) b(3) growsD(2)[OF g2 assms(4)]] by blast
  have g3: "grows w w3" by (rule grows_trans[OF g2 w3(2)])
  obtain x4 w4 where w4: "ensureJump T ''FORWARD'' egressChain w3 = (Ok x4, w4)" "grows w3 w4"
    "hasRule w4 ''FORWARD'' (norm [''-j'', egressChain])"
    using grows_jump[OF growsD(1)[OF g3] assms(3) b(3) growsD(2)[OF g3 assms(4)]] by blast
  have g4: "grows w w4" by (rule grows_trans[OF g3 w4(2)])
  obtain x5 w5 where w5: "ensureJump T ''OUTPUT'' ingressChain w4 = (Ok x5, w5)" "grows w4 w5"
    "hasRule w5 ''OUTPUT'' (norm [''-j'', ingressChain])"
    using grows_jump[OF growsD(1)[OF g4] assms(2) b(4) growsD(2)[OF g4 assms(5)]] by blast
  have g5: "grows w w5" by (rule grows_trans[OF g4 w5(2)])
  obtain x6 w6 where w6: "ensureJump T ''INPUT'' egressChain w5 = (Ok x6, w6)" "grows w5 w6"
    "hasRule w6 ''INPUT'' (norm [''-j'', egressChain])"
    using grows_jump[OF growsD(1)[OF g5] assms(3) b(5) growsD(2)[OF g5 assms(6)]] by blast
  have g6: "grows w w6" by (rule grows_trans[OF g5 w6(2)])
  note l4 = grows_trans[OF w5(2) w6(2)]
  note l3 = grows_trans[OF w4(2) l4]
  note l2 = grows_trans[OF w3(2) l3]
  note l1 = grows_trans[OF w2(2) l2]
  have "basicDone w6"
    using growsD(2)[OF l1 w1(3)] growsD(2)[OF l2 w2(3)] growsD(3)[OF l3 w3(3)] growsD(3)[OF l4 w4(3)]
      growsD(3)[OF w6(2) w5(3)] w6(3) by (simp add: basicDone_def)
  moreover have "ensureBasicChain T w = (Ok (), w6)"
    using w1(1) w2(1) w3(1) w4(1) w5(1) w6(1) by (simp add: ensureBasicChain_def act_simps)
  ultimately show ?thesis using g6 by blast
qed

end

section \<open>Normalized rules\<close>

definition goodWord :: "string \<Rightarrow> bool" where
  "goodWord w \<longleftrightarrow> w \<noteq> [] \<and> list_all (\<lambda>c. \<not> isSpace c) w \<and> hd w \<noteq> CHR 0x22 \<and> \<not> hasPrefix w ''--to-destination=''"

definition normWord :: "string \<Rightarrow> string" where
  "normWord w = (if ParseIP w \<noteq> [] then w @ ''/32'' else w)"

definition normRule :: "string list \<Rightarrow> string" where
  "normRule ws = join '' '' (map normWord ws)"

lemma hasPrefix_sep: "c \<notin> set p \<Longrightarrow> hasPrefix (w @ c # r) p \<Longrightarrow> hasPrefix w p"
proof (induction w p rule: hasPrefix.induct)
  case (2 p ps)
  then show ?case by auto
qed auto

lemma goodWord_blank: "goodWord w \<Longrightarrow> CHR '' '' \<notin> set w"
  by (auto simp: goodWord_def list_all_iff isSpace_def)

lemma goodWord_trim: "goodWord w \<Longrightarrow> trimSpace (normWord w) = normWord w"
proof -
  assume g: "goodWord w"
  have "w \<noteq> []" "\<not> isSpace (hd w)" "\<not> isSpace (last w)" using g by (auto simp: goodWord_def list_all_iff)
  then show ?thesis unfolding trimSpace_def by (intro trimBy_id) (auto simp: normWord_def isSpace_def)
qed

lemma normalizeLoop_words:
  "list_all goodWord ws \<Longrightarrow> ws \<noteq> [] \<Longrightarrow>
   normalizeLoop nm (join '' '' ws) = Ok ((if nm \<noteq> [] then nm @ '' '' else nm) @ normRule ws)"
proof (induction ws arbitrary: nm)
  case (Cons w ws)
  have g: "goodWord w" and t: "trimSpace (normWord w) = normWord w" "CHR '' '' \<notin> set w"
    using Cons.prems goodWord_trim goodWord_blank by auto
  have w: "w \<noteq> []" "hd w \<noteq> CHR 0x22" "\<not> hasPrefix w ''--to-destination=''" using g by (auto simp: goodWord_def)
  have nn: "normWord w \<noteq> []" using w(1) by (simp add: normWord_def)
  show ?case
  proof (cases "ws = []")
    case True
    have "index w '' '' = None" using t(2) by (auto simp: index_None_iff contains_iff)
    then have "argEnd w = Some (length w)" using w(2) by (simp add: argEnd_def)
    then show ?thesis using w t True
      by (simp add: normalizeLoop.simps[of nm] Let_def normRule_def normWord_def)
  next
    case False
    let ?r = "join '' '' (w # ws)"
    have r: "?r = w @ CHR '' '' # join '' '' ws" using False by (simp add: join_Cons)
    have np: "\<not> hasPrefix ?r ''--to-destination=''"
      using hasPrefix_sep[of "CHR '' ''" "''--to-destination=''" w "join '' '' ws"] w(3) r by auto
    have ae: "argEnd ?r = Some (length w)"
      using index_skip[OF t(2), of "join '' '' ws"] w(1,2) by (simp add: r argEnd_def)
    let ?nm = "(if nm \<noteq> [] then nm @ '' '' else nm) @ normWord w"
    have "normalizeLoop nm ?r = normalizeLoop ?nm (join '' '' ws)"
      using np ae t(1) by (simp add: normalizeLoop.simps[of nm] Let_def r normWord_def)
    also have "\<dots> = Ok (?nm @ '' '' @ normRule ws)"
      using Cons.IH[of ?nm] Cons.prems False nn by simp
    finally show ?thesis using False by (simp add: normRule_def join_Cons)
  qed
qed simp

lemma join_hd: "ws \<noteq> [] \<Longrightarrow> hd ws \<noteq> [] \<Longrightarrow> hd (join sep ws) = hd (hd ws)"
  by (cases ws; cases "tl ws") auto

lemma join_nonempty: "ws \<noteq> [] \<Longrightarrow> last ws \<noteq> [] \<Longrightarrow> join sep ws \<noteq> []"
  by (induction sep ws rule: join.induct) auto

lemma join_last: "ws \<noteq> [] \<Longrightarrow> last ws \<noteq> [] \<Longrightarrow> last (join sep ws) = last (last ws)"
proof (induction sep ws rule: join.induct)
  case (3 sep x y xs)
  then show ?case using join_nonempty[of "y # xs" sep] by simp
qed auto

lemma normalizeRule_words:
  assumes "list_all goodWord ws" "ws \<noteq> []"
  shows "normalizeRule (join '' '' ws) = Ok (normRule ws)"
proof -
  have g: "goodWord (hd ws)" "goodWord (last ws)" using assms by (auto simp: list_all_iff)
  have "hd (join '' '' ws) = hd (hd ws)" "last (join '' '' ws) = last (last ws)"
    using join_hd[OF assms(2)] join_last[OF assms(2)] g by (auto simp: goodWord_def)
  moreover have "\<not> isSpace (hd (hd ws))" "\<not> isSpace (last (last ws))"
    using g by (auto simp: goodWord_def list_all_iff)
  ultimately have "trimSpace (join '' '' ws) = join '' '' ws"
    unfolding trimSpace_def by (intro trimBy_id) auto
  then show ?thesis using normalizeLoop_words[OF assms, of "[]"] by (simp add: normalizeRule_def)
qed

section \<open>Names\<close>

lemma b32groups_less: "n \<in> set (b32groups bs) \<Longrightarrow> n < 32"
proof (induction bs rule: b32groups.induct)
  case (1 a b c d e bs)
  then show ?case by (cases a; cases b; cases c; cases d; cases e) auto
qed (auto split: if_splits simp: of_bool_def numeral_eq_Suc)

lemma length_b32groups: "length bs = 5 * q + 1 \<Longrightarrow> length (b32groups bs) = q + 1"
proof (induction q arbitrary: bs)
  case 0
  then obtain a where "bs = [a]" by (auto simp: length_Suc_conv)
  then show ?case by (simp add: numeral_eq_Suc)
next
  case (Suc q)
  then have "length bs = Suc (Suc (Suc (Suc (Suc (5 * q + 1)))))" by simp
  then obtain a b c d e r where "bs = a # b # c # d # e # r" "length r = 5 * q + 1" by (auto simp only: length_Suc_conv)
  then show ?case using Suc.IH[of r] by simp
qed

lemma length_bits: "length (concat (map byteBits bs)) = 8 * length bs"
  by (induction bs) (simp_all add: byteBits_def)

lemma base32_chars: "set (base32 bs) \<subseteq> insert (CHR ''='') (set b32alphabet)"
proof -
  have l: "length b32alphabet = 32" by code_simp
  then have "b32alphabet ! n \<in> set b32alphabet" if "n < 32" for n using that nth_mem by metis
  then show ?thesis using b32groups_less by (auto simp: base32_def Let_def)
qed

lemma nameHash_chars: "set (nameHash sha x) \<subseteq> insert (CHR ''='') (set b32alphabet)"
  using base32_chars[of "sha x"] by (auto simp: nameHash_def dest: in_set_takeD)

lemma length_nameHash: "length (sha x) = 32 \<Longrightarrow> length (nameHash sha x) = 16"
proof -
  assume l: "length (sha x) = 32"
  have "length (b32groups (concat (map byteBits (sha x)))) = 52" using length_b32groups[of _ 51] by (simp add: length_bits l)
  then show ?thesis by (simp add: nameHash_def base32_def Let_def)
qed

lemma b32_good: "c \<in> insert (CHR ''='') (set b32alphabet) \<Longrightarrow> \<not> isSpace c \<and> c \<noteq> nl"
proof -
  have "list_all (\<lambda>c. \<not> isSpace c \<and> c \<noteq> nl) (CHR ''='' # b32alphabet)" by code_simp
  then show "c \<in> insert (CHR ''='') (set b32alphabet) \<Longrightarrow> ?thesis" by (auto simp: list_all_iff)
qed

lemma nameHash_good: "c \<in> set (nameHash sha x) \<Longrightarrow> \<not> isSpace c \<and> c \<noteq> nl"
  using nameHash_chars b32_good by blast

lemma chainName_good:
  "goodWord (policyChainName sha np)" "goodWord (podChainName sha pod)"
proof -
  have c: "list_all (\<lambda>c. \<not> isSpace c) ''GLX-PLCY-''" "list_all (\<lambda>c. \<not> isSpace c) ''GLX-POD-''" by code_simp+
  have h: "list_all (\<lambda>c. \<not> isSpace c) (nameHash sha x)" for x using nameHash_good by (auto simp: list_all_iff)
  have n: "policyChainName sha np = ''GLX-PLCY-'' @ nameHash sha (np_Name np @ ''_'' @ np_Namespace np)"
    "podChainName sha pod = ''GLX-POD-'' @ nameHash sha (pod_Name pod @ ''_'' @ pod_Namespace pod)"
    by (simp_all add: policyChainName_def podChainName_def name_defs)
  have g: "goodWord (p @ y)" if "list_all (\<lambda>c. \<not> isSpace c) p" "list_all (\<lambda>c. \<not> isSpace c) y" "p \<noteq> []" "hd p = CHR ''G''"
    for p y using that by (cases p) (auto simp: goodWord_def)
  show "goodWord (policyChainName sha np)" "goodWord (podChainName sha pod)"
    unfolding n by (rule g; use c h in simp)+
qed

lemma podChainName_plain: "nl \<notin> set (podChainName sha pod)" "CHR '' '' \<notin> set (podChainName sha pod)"
  using nameHash_good[of _ sha "pod_Name pod @ ''_'' @ pod_Namespace pod"] goodWord_blank[OF chainName_good(2)]
  by (auto simp: podChainName_def name_defs nl_def)

section \<open>The script of a pod\<close>

definition podRuleWords :: "sha \<Rightarrow> Pod \<Rightarrow> nat list \<Rightarrow> nat list \<Rightarrow> 'ls policy list \<Rightarrow> string list list" where
  "podRuleWords sha pod ing eg policies =
     (let c = [''-m'', ''comment'', ''--comment'', podComment pod] in
      (c @ [''-m'', ''conntrack'', ''--ctstate'', ''RELATED,ESTABLISHED'', ''-j'', ''ACCEPT'']) #
      map (\<lambda>x. c @ [''-j'', policyChainName sha (pol_np (snd x))])
        (filter (\<lambda>x. fst x \<in> set ing \<or> fst x \<in> set eg) (enumerate 0 policies)) @
      [c @ [''-j'', ''DROP'']])"

lemma foldl_filter:
  "foldl (\<lambda>buf (i, p). if P i then writeLine buf (f p) else buf) b xs =
     b @ map (\<lambda>x. join '' '' (f (snd x))) (filter (\<lambda>x. P (fst x)) xs)"
  by (induction xs arbitrary: b) (auto simp: writeLine_def)

lemma ruleLine_words: "ws \<noteq> [] \<Longrightarrow> ruleLine c (join '' '' ws) = join '' '' (''-A'' # c # ws)"
  by (simp add: ruleLine_def join_Cons)

lemma podRuleWords_nonempty: "ws \<in> set (podRuleWords sha pod ing eg ps) \<Longrightarrow> ws \<noteq> []"
  by (auto simp: podRuleWords_def Let_def)

lemma podScript_chainScript:
  "podScript sha pod ing eg ps = chainScript (podChainName sha pod) (map (join '' '') (podRuleWords sha pod ing eg ps))"
proof -
  let ?c = "podChainName sha pod"
  have eq: "map (ruleLine ?c) (map (join '' '') (podRuleWords sha pod ing eg ps)) =
      map (\<lambda>ws. join '' '' (''-A'' # ?c # ws)) (podRuleWords sha pod ing eg ps)"
    unfolding map_map comp_def by (rule map_cong[OF refl], rule ruleLine_words, rule podRuleWords_nonempty)
  show ?thesis
    unfolding podScript_def chainScript_def eq Let_def foldl_filter
    by (simp add: writeLine_def podRuleWords_def Let_def comp_def case_prod_beta)
qed

lemma podRuleWords_good:
  assumes "goodWord (podComment pod)"
  shows "list_all (\<lambda>ws. list_all goodWord ws \<and> ws \<noteq> []) (podRuleWords sha pod ing eg ps)"
proof -
  have "list_all goodWord [''-m'', ''comment'', ''--comment'', ''conntrack'', ''--ctstate'', ''RELATED,ESTABLISHED'', ''-j'',
      ''ACCEPT'', ''DROP'']" by code_simp
  then show ?thesis using assms chainName_good(1) by (auto simp: podRuleWords_def Let_def list_all_iff)
qed

lemma goodWords_plain: "list_all goodWord ws \<Longrightarrow> nl \<notin> set (join '' '' ws)"
proof (induction ws rule: induct_list012)
  case (3 x y zs)
  then show ?case by (auto simp: goodWord_def list_all_iff isSpace_def nl_def)
qed (auto simp: goodWord_def list_all_iff isSpace_def nl_def)

lemma join_blank_inj:
  assumes "join '' '' xs = join '' '' ys" "xs \<noteq> []" "ys \<noteq> []"
    and "\<forall>x \<in> set xs. CHR '' '' \<notin> set x" "\<forall>y \<in> set ys. CHR '' '' \<notin> set y"
  shows "xs = ys"
  using split_join[of xs "CHR '' ''"] split_join[of ys "CHR '' ''"] assms by metis

lemma normWord_blank: "goodWord w \<Longrightarrow> CHR '' '' \<notin> set (normWord w)"
  using goodWord_blank by (auto simp: normWord_def)

lemma normRule_inj:
  assumes "normRule xs = normRule ys" "list_all goodWord xs" "list_all goodWord ys" "xs \<noteq> []" "ys \<noteq> []"
  shows "map normWord xs = map normWord ys"
  using assms normWord_blank by (intro join_blank_inj) (auto simp: normRule_def list_all_iff)

lemma appendNew_last: "d \<notin> set (rs @ xs) \<Longrightarrow> foldl appendNew rs (xs @ [d]) = foldl appendNew rs xs @ [d]"
proof -
  have "set (foldl appendNew rs xs) = set rs \<union> set xs" by (induction xs arbitrary: rs) (auto simp: appendNew_def)
  then show "d \<notin> set (rs @ xs) \<Longrightarrow> ?thesis" by (simp add: appendNew_def)
qed

lemma set_appendNew: "set (foldl appendNew rs xs) = set rs \<union> set xs"
  by (induction xs arbitrary: rs) (auto simp: appendNew_def)

lemma hd_appendNew: "rs \<noteq> [] \<Longrightarrow> hd (foldl appendNew rs xs) = hd rs \<and> foldl appendNew rs xs \<noteq> []"
  by (induction xs arbitrary: rs) (auto simp: appendNew_def)

section \<open>Which policies select a pod\<close>

definition selects :: "'ls kube \<Rightarrow> Pod \<Rightarrow> 'ls policy \<Rightarrow> bool" where
  "selects k pod p \<longleftrightarrow> np_Namespace (pol_np p) = pod_Namespace pod \<and>
     (case kb_AsSelector k (np_PodSelector (pol_np p)) of Ok s \<Rightarrow> sel_Matches s (pod_Labels pod) | _ \<Rightarrow> False)"

lemma filterMatching_eq:
  "filterMatchingPolicies k pod ps =
    (map fst (filter (\<lambda>x. selects k pod (snd x) \<and> pol_ingressRule (snd x) \<noteq> None) (enumerate 0 ps)),
     map fst (filter (\<lambda>x. selects k pod (snd x) \<and> pol_egressRule (snd x) \<noteq> None) (enumerate 0 ps)))"
proof -
  have "foldl (\<lambda>(ing, eg) (i, p).
       if np_Namespace (pol_np p) \<noteq> pod_Namespace pod then (ing, eg)
       else (case kb_AsSelector k (np_PodSelector (pol_np p)) of
           Ok s \<Rightarrow>
             (if pol_ingressRule p \<noteq> None \<and> sel_Matches s (pod_Labels pod) then ing @ [i] else ing,
              if pol_egressRule p \<noteq> None \<and> sel_Matches s (pod_Labels pod) then eg @ [i] else eg)
         | _ \<Rightarrow> (ing, eg))) (a, b) xs =
    (a @ map fst (filter (\<lambda>x. selects k pod (snd x) \<and> pol_ingressRule (snd x) \<noteq> None) xs),
     b @ map fst (filter (\<lambda>x. selects k pod (snd x) \<and> pol_egressRule (snd x) \<noteq> None) xs))" for a b xs
    by (induction xs arbitrary: a b) (auto simp: selects_def split: result.splits)
  from this[of "[]" "[]"] show ?thesis by (simp add: filterMatchingPolicies_def)
qed

section \<open>SyncPodChains on the in-memory tables\<close>

lemma goodWord_contains: "goodWord w \<Longrightarrow> \<not> contains w '' ''"
  using goodWord_blank[of w] by (auto simp: contains_iff)

lemma podArgs_fk:
  assumes "goodWord (podComment pod)" "goodWord (pod_PodIP pod)" "flag = ''-d'' \<or> flag = ''-s''"
  shows "fk_ok (podArgs flag sha pod)" "fk_norm (podArgs flag sha pod) = normRule (podArgs flag sha pod)"
proof -
  have "list_all goodWord [''-d'', ''-s'', ''-m'', ''comment'', ''--comment'', ''-j'']" by code_simp
  then have g: "list_all goodWord (podArgs flag sha pod)"
    using assms chainName_good(2)[of sha pod] by (auto simp: podArgs_def)
  have "normalizeArgs (podArgs flag sha pod) = podArgs flag sha pod"
    unfolding normalizeArgs_def
    by (rule map_idI) (use g goodWord_contains in \<open>auto simp: list_all_iff\<close>)
  then show "fk_ok (podArgs flag sha pod)" "fk_norm (podArgs flag sha pod) = normRule (podArgs flag sha pod)"
    using normalizeRule_words[OF g] by (simp_all add: fk_ok_def fk_norm_def podArgs_def)
qed

lemma jump_ok: "fk_ok [''-j'', ingressChain]" "fk_ok [''-j'', egressChain]"
  by code_simp+

lemma podChain_not_builtin: "fk_inv f \<Longrightarrow> \<not> isBuiltinChain f ''filter'' (podChainName sha pod)"
  by (auto simp: fk_inv_def isBuiltinChain_def builtinChains_def podChainName_def name_defs)

text \<open>The chain that the pod script leaves: the rules in order, repetitions dropped.\<close>

definition podChainRules :: "sha \<Rightarrow> Pod \<Rightarrow> nat list \<Rightarrow> nat list \<Rightarrow> 'ls policy list \<Rightarrow> string list" where
  "podChainRules sha pod ing eg ps = foldl appendNew [] (map normRule (podRuleWords sha pod ing eg ps))"

lemma restore_pod:
  assumes "fk_inv f" "goodWord (podComment pod)"
    and "\<not> contains (podScript sha pod ing eg ps) (''-X '' @ podChainName sha pod)"
  shows "\<exists>f'. ipti_RestoreAll fk_iface (podScript sha pod ing eg ps) False True f = (Ok (), f') \<and> fk_inv f' \<and>
    fk_rules f' = (fk_rules f)(''filter'' := (fk_rules f ''filter'')(podChainName sha pod := Some (podChainRules sha pod ing eg ps)))"
proof -
  let ?ws = "podRuleWords sha pod ing eg ps" and ?c = "podChainName sha pod"
  have g: "list_all (\<lambda>ws. list_all goodWord ws \<and> ws \<noteq> []) ?ws" by (rule podRuleWords_good[OF assms(2)])
  have r: "list_all (\<lambda>r. nl \<notin> set r \<and> is_Ok (normalizeRule r)) (map (join '' '') ?ws)"
    using g goodWords_plain normalizeRule_words by (force simp: list_all_iff)
  have m: "map (\<lambda>r. case normalizeRule r of Ok n \<Rightarrow> n | _ \<Rightarrow> []) (map (join '' '') ?ws) = map normRule ?ws"
    using g normalizeRule_words by (auto simp: list_all_iff)
  have "\<not> contains (chainScript ?c (map (join '' '') ?ws)) (''-X '' @ ?c)"
    using assms(3) unfolding podScript_chainScript .
  from restore_chain[OF podChainName_plain podChain_not_builtin[OF assms(1)] this r, of True]
  show ?thesis using assms(1) unfolding m podScript_chainScript podChainRules_def
    by (auto simp: fk_iface_def fk_inv_def)
qed

lemma syncPodRule_wanted:
  assumes "fk_inv f" "fk_ok args" "fk_rules f ''filter'' c \<noteq> None"
  shows "\<exists>f'. syncPodRule fk_iface c args b f = (Ok (), f') \<and> fk_inv f' \<and> (b \<longrightarrow> fkt.hasRule f' c (fk_norm args)) \<and>
    (\<forall>c'. fk_rules f' ''filter'' c' = None \<longleftrightarrow> fk_rules f ''filter'' c' = None) \<and>
    (\<forall>t c'. t \<noteq> ''filter'' \<or> c' \<noteq> c \<longrightarrow> fk_rules f' t c' = fk_rules f t c')"
proof -
  obtain rs where rs: "fk_rules f ''filter'' c = Some rs" using assms(3) by auto
  show ?thesis
  proof (cases b)
    case True
    have pos: "''-A'' \<in> {''-I'', ''-A''}" by simp
    show ?thesis
    proof (rule fkt.ensure_rule[OF assms(1,2) pos rs])
      fix x f' rs'
      assume "ipti_EnsureRule fk_iface ''-A'' ''filter'' c args f = (Ok x, f')" "fk_inv f'"
        "fk_rules f' = (fk_rules f)(''filter'' := (fk_rules f ''filter'')(c := Some rs'))" "set rs' = insert (fk_norm args) (set rs)"
      then show ?thesis using True rs by (intro exI[of _ f']) (auto simp: syncPodRule_def act_simps fkt.hasRule_def)
    qed
  next
    case False
    then show ?thesis using fkt.delete_law[OF assms(1,2) rs] rs
      by (auto simp: syncPodRule_def act_simps)
  qed
qed


definition builtin_present :: "fakeIPTables \<Rightarrow> bool" where
  "builtin_present f \<longleftrightarrow> fk_rules f ''filter'' ''FORWARD'' \<noteq> None \<and> fk_rules f ''filter'' ''OUTPUT'' \<noteq> None \<and>
     fk_rules f ''filter'' ''INPUT'' \<noteq> None"

lemma podChain_not_basic: "podChainName sha pod \<notin> basicChains"
  by (auto simp: basicChains_def podChainName_def name_defs)

lemma SyncPodChains_ok:
  assumes "fk_inv f" "builtin_present f" "filterMatchingPolicies k pod ps = (ing, eg)" "ing \<noteq> [] \<or> eg \<noteq> []"
    and "goodWord (podComment pod)" "goodWord (pod_PodIP pod)"
    and "\<not> contains (podScript sha pod ing eg ps) (''-X '' @ podChainName sha pod)"
  shows "\<exists>f'. SyncPodChains fk_iface sha k ps pod f = (Ok (), f') \<and> fk_inv f' \<and>
    fk_rules f' ''filter'' (podChainName sha pod) = Some (podChainRules sha pod ing eg ps) \<and>
    (ing \<noteq> [] \<longrightarrow> fkt.hasRule f' ingressChain (normRule (podArgs ''-d'' sha pod))) \<and>
    (eg \<noteq> [] \<longrightarrow> fkt.hasRule f' egressChain (normRule (podArgs ''-s'' sha pod))) \<and>
    (\<forall>t c. t \<noteq> ''filter'' \<or> c \<notin> insert (podChainName sha pod) basicChains \<longrightarrow> fk_rules f' t c = fk_rules f t c)"
proof -
  let ?c = "podChainName sha pod"
  note a = podArgs_fk[OF assms(5,6), of _ sha]
  note nb = podChain_not_basic[of sha pod]
  have ne: "ingressChain \<noteq> egressChain" "ingressChain \<noteq> ?c" "egressChain \<noteq> ?c"
    using nb by (auto simp: basicChains_def name_defs)
  obtain f1 where f1: "ensureBasicChain fk_iface f = (Ok (), f1)" "fkt.grows f f1" "fkt.basicDone f1"
    using fkt.ensureBasicChain_ok[OF assms(1) jump_ok] assms(2) by (auto simp: builtin_present_def)
  obtain f2 where f2: "ipti_RestoreAll fk_iface (podScript sha pod ing eg ps) False True f1 = (Ok (), f2)" "fk_inv f2"
    "fk_rules f2 = (fk_rules f1)(''filter'' := (fk_rules f1 ''filter'')(?c := Some (podChainRules sha pod ing eg ps)))"
    using restore_pod[OF fkt.growsD(1)[OF f1(2)] assms(5,7)] by blast
  have c2: "fk_rules f2 ''filter'' ingressChain \<noteq> None" "fk_rules f2 ''filter'' egressChain \<noteq> None"
    using f1(3) f2(3) by (auto simp: fkt.basicDone_def)
  obtain f3 where f3: "syncPodRule fk_iface ingressChain (podArgs ''-d'' sha pod) (length ing > 0) f2 = (Ok (), f3)" "fk_inv f3"
    "length ing > 0 \<longrightarrow> fkt.hasRule f3 ingressChain (normRule (podArgs ''-d'' sha pod))"
    "\<forall>c'. fk_rules f3 ''filter'' c' = None \<longleftrightarrow> fk_rules f2 ''filter'' c' = None"
    "\<forall>t c'. t \<noteq> ''filter'' \<or> c' \<noteq> ingressChain \<longrightarrow> fk_rules f3 t c' = fk_rules f2 t c'"
    using syncPodRule_wanted[OF f2(2) a(1) c2(1), of "''-d''" "length ing > 0"] a(2)[of "''-d''"] by auto
  have c3: "fk_rules f3 ''filter'' egressChain \<noteq> None" using f3(4) c2(2) by simp
  obtain f4 where f4: "syncPodRule fk_iface egressChain (podArgs ''-s'' sha pod) (length eg > 0) f3 = (Ok (), f4)" "fk_inv f4"
    "length eg > 0 \<longrightarrow> fkt.hasRule f4 egressChain (normRule (podArgs ''-s'' sha pod))"
    "\<forall>t c'. t \<noteq> ''filter'' \<or> c' \<noteq> egressChain \<longrightarrow> fk_rules f4 t c' = fk_rules f3 t c'"
    using syncPodRule_wanted[OF f3(2) a(1) c3, of "''-s''" "length eg > 0"] a(2)[of "''-s''"] by auto
  have "pod_PodIP pod \<noteq> []" using assms(6) by (simp add: goodWord_def)
  then have "SyncPodChains fk_iface sha k ps pod f = (Ok (), f4)"
    using assms(3,4) f1(1) f2(1) f3(1) f4(1) by (auto simp: SyncPodChains_def act_simps Let_def)
  moreover have "fk_rules f4 ''filter'' ?c = Some (podChainRules sha pod ing eg ps)"
    using f4(4) f3(5) f2(3) ne by simp
  moreover have "ing \<noteq> [] \<longrightarrow> fkt.hasRule f4 ingressChain (normRule (podArgs ''-d'' sha pod))"
    using f3(3) f4(4) ne by (simp add: fkt.hasRule_def)
  moreover have "\<forall>t c. t \<noteq> ''filter'' \<or> c \<notin> insert ?c basicChains \<longrightarrow> fk_rules f4 t c = fk_rules f t c"
    using f4(4) f3(5) f2(3) f1(2) by (auto simp: fkt.grows_def basicChains_def)
  ultimately show ?thesis using f4(2,3) by (intro exI[of _ f4]) simp
qed

lemma policyChain_not_DROP: "normWord (policyChainName sha np) \<noteq> normWord ''DROP''"
proof -
  have "normWord ''DROP'' = ''DROP''" by code_simp
  then show ?thesis by (simp add: normWord_def policyChainName_def name_defs split: if_splits)
qed

lemma podChainRules_shape:
  assumes "goodWord (podComment pod)"
  shows "hd (podChainRules sha pod ing eg ps) =
      normRule [''-m'', ''comment'', ''--comment'', podComment pod, ''-m'', ''conntrack'', ''--ctstate'', ''RELATED,ESTABLISHED'', ''-j'', ''ACCEPT'']"
    and "last (podChainRules sha pod ing eg ps) = normRule [''-m'', ''comment'', ''--comment'', podComment pod, ''-j'', ''DROP'']"
    and "set (podChainRules sha pod ing eg ps) = normRule ` set (podRuleWords sha pod ing eg ps)"
proof -
  let ?c = "[''-m'', ''comment'', ''--comment'', podComment pod]"
  let ?e = "?c @ [''-m'', ''conntrack'', ''--ctstate'', ''RELATED,ESTABLISHED'', ''-j'', ''ACCEPT'']"
  let ?d = "?c @ [''-j'', ''DROP'']"
  let ?js = "map (\<lambda>x. ?c @ [''-j'', policyChainName sha (pol_np (snd x))])
        (filter (\<lambda>x. fst x \<in> set ing \<or> fst x \<in> set eg) (enumerate 0 ps))"
  have w: "podRuleWords sha pod ing eg ps = ?e # ?js @ [?d]" by (simp only: podRuleWords_def Let_def)
  have g: "list_all (\<lambda>ws. list_all goodWord ws \<and> ws \<noteq> []) (?e # ?js @ [?d])"
    using podRuleWords_good[OF assms, of sha ing eg ps] unfolding w .
  have "normRule ?d \<notin> set (map normRule (?e # ?js))"
  proof
    assume "normRule ?d \<in> set (map normRule (?e # ?js))"
    then obtain ws where ws: "ws \<in> set (?e # ?js)" "normRule ?d = normRule ws" by auto
    then have "map normWord ?d = map normWord ws"
      using g chainName_good(1) by (intro normRule_inj) (auto simp: list_all_iff)
    then show False using ws(1) by (auto simp: policyChain_not_DROP policyChain_not_DROP[symmetric])
  qed
  then have d: "podChainRules sha pod ing eg ps = foldl appendNew [] (map normRule (?e # ?js)) @ [normRule ?d]"
    unfolding podChainRules_def w using appendNew_last[of "normRule ?d" "[]" "map normRule (?e # ?js)"] by simp
  show "last (podChainRules sha pod ing eg ps) = normRule [''-m'', ''comment'', ''--comment'', podComment pod, ''-j'', ''DROP'']"
    unfolding d by simp
  have "foldl appendNew [] (map normRule (?e # ?js)) = foldl appendNew [normRule ?e] (map normRule ?js)"
    by (simp add: appendNew_def)
  then show "hd (podChainRules sha pod ing eg ps) =
      normRule [''-m'', ''comment'', ''--comment'', podComment pod, ''-m'', ''conntrack'', ''--ctstate'', ''RELATED,ESTABLISHED'', ''-j'', ''ACCEPT'']"
    unfolding d using hd_appendNew[of "[normRule ?e]" "map normRule ?js"] by simp
  show "set (podChainRules sha pod ing eg ps) = normRule ` set (podRuleWords sha pod ing eg ps)"
    by (simp add: podChainRules_def set_appendNew)
qed


section \<open>Properties\<close>

text \<open>
  \<^verbatim>\<open>ensureBasicChain\<close> on the in-memory tables succeeds when the built-in chains exist: it creates GLX-INGRESS and
  GLX-EGRESS, installs the four jumps to them, changes no other chain, and a second run changes nothing at all.
\<close>

theorem ensureBasicChain_idempotent:
  assumes "fk_inv f" and "builtin_present f"
  shows "\<exists>f'. ensureBasicChain fk_iface f = (Ok (), f') \<and> ensureBasicChain fk_iface f' = (Ok (), f') \<and>
    fkt.hasRule f' ''FORWARD'' (fk_norm [''-j'', ingressChain]) \<and> fkt.hasRule f' ''FORWARD'' (fk_norm [''-j'', egressChain]) \<and>
    fkt.hasRule f' ''OUTPUT'' (fk_norm [''-j'', ingressChain]) \<and> fkt.hasRule f' ''INPUT'' (fk_norm [''-j'', egressChain]) \<and>
    (\<forall>c. c \<notin> basicChains \<longrightarrow> fk_rules f' ''filter'' c = fk_rules f ''filter'' c)"
proof -
  obtain f' where f': "ensureBasicChain fk_iface f = (Ok (), f')" "fkt.grows f f'" "fkt.basicDone f'"
    using fkt.ensureBasicChain_ok[OF assms(1) jump_ok] assms(2) by (auto simp: builtin_present_def)
  moreover have "ensureBasicChain fk_iface f' = (Ok (), f')"
    by (rule fkt.ensureBasicChain_done[OF fkt.growsD(1)[OF f'(2)] jump_ok f'(3)])
  ultimately show ?thesis by (intro exI[of _ f']) (auto simp: fkt.basicDone_def fkt.grows_def)
qed

lemma new_tables_ok: "fk_inv NewFakeIPTables" "builtin_present NewFakeIPTables"
  by code_simp+

theorem ensureBasicChain_idempotent_witness:
  "\<exists>f'. ensureBasicChain fk_iface NewFakeIPTables = (Ok (), f') \<and> ensureBasicChain fk_iface f' = (Ok (), f')"
  using ensureBasicChain_idempotent[OF new_tables_ok] by blast

text \<open>
  C6. When some policy selects a pod that has an address, \<^verbatim>\<open>SyncPodChains\<close> succeeds and leaves the pod chain closed: it
  starts with the rule that accepts established connections, ends with the rule that drops, and holds in between exactly a
  jump to the chain of every policy that selects the pod; the jumps from GLX-INGRESS and GLX-EGRESS to it are there for the
  directions the policies restrict, and no other chain changes.
\<close>

theorem SyncPodChains_closes_pod:
  assumes "fk_inv f" and "builtin_present f" and "filterMatchingPolicies k pod ps = (ing, eg)" and "ing \<noteq> [] \<or> eg \<noteq> []"
    and "goodWord (podComment pod)" and "goodWord (pod_PodIP pod)"
    and "\<not> contains (podScript sha pod ing eg ps) (''-X '' @ podChainName sha pod)"
  shows "\<exists>f' rs. SyncPodChains fk_iface sha k ps pod f = (Ok (), f') \<and>
    fk_rules f' ''filter'' (podChainName sha pod) = Some rs \<and>
    hd rs = normRule [''-m'', ''comment'', ''--comment'', podComment pod, ''-m'', ''conntrack'', ''--ctstate'', ''RELATED,ESTABLISHED'', ''-j'', ''ACCEPT''] \<and>
    last rs = normRule [''-m'', ''comment'', ''--comment'', podComment pod, ''-j'', ''DROP''] \<and>
    set rs = normRule ` set (podRuleWords sha pod ing eg ps) \<and>
    (ing \<noteq> [] \<longrightarrow> fkt.hasRule f' ingressChain (normRule (podArgs ''-d'' sha pod))) \<and>
    (eg \<noteq> [] \<longrightarrow> fkt.hasRule f' egressChain (normRule (podArgs ''-s'' sha pod))) \<and>
    (\<forall>c. c \<notin> insert (podChainName sha pod) basicChains \<longrightarrow> fk_rules f' ''filter'' c = fk_rules f ''filter'' c)"
  using SyncPodChains_ok[OF assms] podChainRules_shape[OF assms(5), of sha ing eg ps] by fastforce

text \<open>A cluster of one policy that selects every pod of the namespace \<^verbatim>\<open>default\<close>, with one ingress rule.\<close>

definition demo_sha :: sha where "demo_sha x = replicate 32 (word_of_nat (length x))"

definition demo_np :: "unit NetworkPolicy" where
  "demo_np = \<lparr>np_Name = ''web'', np_Namespace = ''default'', np_PodSelector = (),
     np_Ingress = [\<lparr>npr_Ports = [\<lparr>npp_Protocol = None, npp_Port = Some (IntVal 80)\<rparr>],
        npr_Peers = [\<lparr>peer_PodSelector = None, peer_NamespaceSelector = None, peer_IPBlock = Some (''10.0.0.7/8'', [])\<rparr>]\<rparr>],
     np_Egress = [], np_PolicyTypes = [''Ingress'']\<rparr>"

definition demo_pod :: Pod where
  "demo_pod = \<lparr>pod_Name = ''p1'', pod_Namespace = ''default'', pod_Labels = [], pod_NodeName = ''n1'', pod_PodIP = ''10.0.0.1''\<rparr>"

definition demo_kube :: "unit kube" where
  "demo_kube = \<lparr>kb_AsSelector = (\<lambda>_. Ok Everything), kb_lsString = (\<lambda>_. []),
     kb_ListPods = (\<lambda>ns s. Ok (filter (\<lambda>p. (ns = [] \<or> pod_Namespace p = ns) \<and> sel_Matches s (pod_Labels p)) [demo_pod])),
     kb_ListNamespaces = (\<lambda>_. Ok [\<lparr>ns_Name = ''default''\<rparr>]), kb_ListPolicies = Ok [demo_np],
     kb_PodsSynced = True, kb_NodePods = Ok [demo_pod], kb_Hostname = ''n1''\<rparr>"

definition demo_policies :: "unit policy list" where
  "demo_policies = (case rbind (kb_ListPolicies demo_kube) (syncPoliciesLoop demo_sha demo_kube) of Ok ps \<Rightarrow> ps | _ \<Rightarrow> [])"

theorem SyncPodChains_closes_pod_witness:
  "\<exists>f' rs. SyncPodChains fk_iface demo_sha demo_kube demo_policies demo_pod NewFakeIPTables = (Ok (), f') \<and>
     fk_rules f' ''filter'' (podChainName demo_sha demo_pod) = Some rs \<and>
     last rs = normRule [''-m'', ''comment'', ''--comment'', podComment demo_pod, ''-j'', ''DROP'']"
proof -
  have "filterMatchingPolicies demo_kube demo_pod demo_policies = ([0], [])"
    "goodWord (podComment demo_pod)" "goodWord (pod_PodIP demo_pod)"
    "\<not> contains (podScript demo_sha demo_pod [0] [] demo_policies) (''-X '' @ podChainName demo_sha demo_pod)"
    by code_simp+
  then show ?thesis using SyncPodChains_closes_pod[OF new_tables_ok, of demo_kube demo_pod demo_policies "[0]" "[]" demo_sha] by blast
qed

text \<open>
  \<^verbatim>\<open>filterMatchingPolicies\<close> returns the positions of exactly those policies of the pod's namespace whose selector matches the
  labels of the pod, for ingress those with an ingress rule and for egress those with an egress rule.
\<close>

theorem filterMatchingPolicies_exact:
  "(case filterMatchingPolicies k pod ps of (ing, eg) \<Rightarrow>
     (\<forall>i. i \<in> set ing \<longleftrightarrow> i < length ps \<and> selects k pod (ps ! i) \<and> pol_ingressRule (ps ! i) \<noteq> None) \<and>
     (\<forall>i. i \<in> set eg \<longleftrightarrow> i < length ps \<and> selects k pod (ps ! i) \<and> pol_egressRule (ps ! i) \<noteq> None))"
  by (auto simp: filterMatching_eq image_iff in_set_enumerate_eq)

text \<open>
  Names stay within the limits of the kernel: with a digest of 32 bytes the name of a pod chain has 24 characters
  and that of a policy chain 25, below the 29 that iptables allows, and the hash in a name has 16 characters without blanks.
\<close>

theorem chain_name_bounds:
  assumes "\<forall>x. length (sha x) = 32"
  shows "length (podChainName sha pod) = 24 \<and> length (policyChainName sha np) = 25 \<and>
    length (nameHash sha d) = 16 \<and> list_all (\<lambda>c. \<not> isSpace c) (nameHash sha d)"
  using assms length_nameHash nameHash_good
  by (auto simp: podChainName_def policyChainName_def name_defs list_all_iff)

theorem chain_name_bounds_witness:
  "length (podChainName demo_sha demo_pod) = 24 \<and> length (policyChainName demo_sha demo_np) = 25"
proof -
  have "\<forall>x. length (demo_sha x) = 32" by (simp add: demo_sha_def)
  then show ?thesis using chain_name_bounds by blast
qed

end
