(* ===== verification/IPSet_Fake.thy ===== *)
theory IPSet_Fake
  imports IPSet "HOL-Library.AList" "HOL-Library.List_Lexorder" "HOL-Library.Char_ord"
begin

text \<open>
  \<^verbatim>\<open>pkg/utils/ipset/testing/fake.go\<close>: the in-memory implementation of \<^verbatim>\<open>ipset.Interface\<close>. A Go map is
  an association list with distinct keys (\<open>None\<close> for the nil map that \<^verbatim>\<open>DestroyAllSets\<close> leaves behind), whose order
  is the order in which a range statement visits it; a \<^verbatim>\<open>sets.String\<close> is a list without duplicates.
  \<open>fake\<close> interprets the contract \<open>ipset_handle\<close> on these operations.
\<close>

section \<open>sets.String\<close>

definition sets_Insert :: "'a \<Rightarrow> 'a list \<Rightarrow> 'a list" where
  "sets_Insert x xs = (if x \<in> set xs then xs else xs @ [x])"

definition sets_Delete :: "'a \<Rightarrow> 'a list \<Rightarrow> 'a list" where
  "sets_Delete x xs = filter (\<lambda>y. y \<noteq> x) xs"

lemma set_sets_Insert [simp]: "set (sets_Insert x xs) = insert x (set xs)"
  by (auto simp: sets_Insert_def)

lemma distinct_sets_Insert [simp]: "distinct xs \<Longrightarrow> distinct (sets_Insert x xs)"
  by (auto simp: sets_Insert_def)

lemma set_sets_Delete [simp]: "set (sets_Delete x xs) = set xs - {x}"
  by (auto simp: sets_Delete_def)

text \<open>\<^verbatim>\<open>NewString(items...)\<close>\<close>

definition sets_New :: "'a list \<Rightarrow> 'a list" where
  "sets_New xs = foldl (\<lambda>s x. sets_Insert x s) [] xs"

lemma set_sets_New [simp]: "set (sets_New xs) = set xs"
proof -
  have "set (foldl (\<lambda>s x. sets_Insert x s) acc xs) = set acc \<union> set xs" for acc
    by (induction xs arbitrary: acc) auto
  then show ?thesis by (simp add: sets_New_def)
qed

section \<open>FakeIPSet\<close>

record FakeIPSet =
  fake_Version :: string
  fake_Sets :: "(string \<times> IPSet) list option"
  fake_Entries :: "(string \<times> string list) list option"

definition NewFake :: "string \<Rightarrow> FakeIPSet" where
  "NewFake version = \<lparr>fake_Version = version, fake_Sets = Some [], fake_Entries = Some []\<rparr>"

text \<open>Reading a map: a missing key, also of a nil map, gives the zero value.\<close>

definition fake_lookup :: "(string \<times> 'v) list option \<Rightarrow> string \<Rightarrow> 'v option" where
  "fake_lookup m k = (case m of None \<Rightarrow> None | Some al \<Rightarrow> map_of al k)"

definition fake_GetVersion :: "(FakeIPSet, string) act" where
  "fake_GetVersion = (\<lambda>f. (Ok (fake_Version f), f))"

text \<open>The loop that pops entries until the set is empty.\<close>

fun popAll :: "string list \<Rightarrow> string list" where
  "popAll [] = []"
| "popAll (x # xs) = popAll xs"

definition fake_FlushSet :: "string \<Rightarrow> (FakeIPSet, unit) act" where
  "fake_FlushSet n = (\<lambda>f. case fake_Entries f of
      None \<Rightarrow> (Err ''entries map can't be nil'', f)
    | Some al \<Rightarrow> (case map_of al n of
          None \<Rightarrow> (Ok (), f)
        | Some xs \<Rightarrow> (Ok (), f\<lparr>fake_Entries := Some (AList.update n (popAll xs) al)\<rparr>)))"

definition fake_DestroySet :: "string \<Rightarrow> (FakeIPSet, unit) act" where
  "fake_DestroySet n = (\<lambda>f. (Ok (), f\<lparr>fake_Sets := map_option (AList.delete n) (fake_Sets f),
     fake_Entries := map_option (AList.delete n) (fake_Entries f)\<rparr>))"

definition fake_DestroyAllSets :: "(FakeIPSet, unit) act" where
  "fake_DestroyAllSets = (\<lambda>f. (Ok (), f\<lparr>fake_Sets := None, fake_Entries := None\<rparr>))"

text \<open>Writing to a nil map panics.\<close>

definition fake_CreateSet :: "IPSet \<Rightarrow> bool \<Rightarrow> (FakeIPSet, unit) act" where
  "fake_CreateSet st ignoreExistErr = (\<lambda>f.
     if fake_lookup (fake_Sets f) (set_Name st) \<noteq> None then
       (if \<not> ignoreExistErr then (Err ''Set cannot be created: set with the same name already exists'', f)
        else (Ok (), f))
     else (case fake_Sets f of
         None \<Rightarrow> (Panic, f)
       | Some al \<Rightarrow>
           (let f = f\<lparr>fake_Sets := Some (AList.update (set_Name st) st al)\<rparr> in
            case fake_Entries f of
              None \<Rightarrow> (Panic, f)
            | Some es \<Rightarrow> (Ok (), f\<lparr>fake_Entries := Some (AList.update (set_Name st) [] es)\<rparr>))))"

definition fake_AddEntry :: "string \<Rightarrow> IPSet \<Rightarrow> bool \<Rightarrow> (FakeIPSet, unit) act" where
  "fake_AddEntry entry st ignoreExistErr = (\<lambda>f.
     case fake_lookup (fake_Entries f) (set_Name st) of
       None \<Rightarrow> (Panic, f)
     | Some xs \<Rightarrow>
         (if entry \<in> set xs then
            (if \<not> ignoreExistErr then (Err ''Element cannot be added to the set: it's already added'', f)
             else (Ok (), f))
          else (Ok (), f\<lparr>fake_Entries := map_option (AList.update (set_Name st) (sets_Insert entry xs)) (fake_Entries f)\<rparr>)))"

definition fake_DelEntry :: "string \<Rightarrow> string \<Rightarrow> (FakeIPSet, unit) act" where
  "fake_DelEntry entry n = (\<lambda>f. case fake_Entries f of
      None \<Rightarrow> (Err ''entries map can't be nil'', f)
    | Some al \<Rightarrow> (case map_of al n of
          None \<Rightarrow> (Ok (), f)
        | Some xs \<Rightarrow> (Ok (), f\<lparr>fake_Entries := Some (AList.update n (sets_Delete entry xs) al)\<rparr>)))"

definition fake_TestEntry :: "string \<Rightarrow> string \<Rightarrow> (FakeIPSet, bool) act" where
  "fake_TestEntry entry n = (\<lambda>f. case fake_Entries f of
      None \<Rightarrow> (Err ''entries map can't be nil'', f)
    | Some al \<Rightarrow> (Ok (case map_of al n of None \<Rightarrow> False | Some xs \<Rightarrow> entry \<in> set xs), f))"

definition fake_ListEntries :: "string \<Rightarrow> (FakeIPSet, string list) act" where
  "fake_ListEntries n = (\<lambda>f. case fake_Entries f of
      None \<Rightarrow> (Err ''entries map can't be nil'', f)
    | Some al \<Rightarrow> (Ok (case map_of al n of None \<Rightarrow> [] | Some xs \<Rightarrow> xs), f))"

definition fake_ListSets :: "(FakeIPSet, string list) act" where
  "fake_ListSets = (\<lambda>f. (Ok (case fake_Sets f of None \<Rightarrow> [] | Some al \<Rightarrow> map fst al), f))"

definition fake_AddEntryWithOptions :: "Entry \<Rightarrow> IPSet \<Rightarrow> bool \<Rightarrow> (FakeIPSet, unit) act" where
  "fake_AddEntryWithOptions entry st ignoreExistErr =
     fake_AddEntry (join '' '' (Entry_String entry # entry_Options entry)) st ignoreExistErr"

definition fake_DelEntryWithOptions :: "string \<Rightarrow> string \<Rightarrow> string list \<Rightarrow> (FakeIPSet, unit) act" where
  "fake_DelEntryWithOptions n entry options = fake_DelEntry (join '' '' (entry # options)) n"

definition saveSet :: "FakeIPSet \<Rightarrow> string \<Rightarrow> string" where
  "saveSet f n =
     (case fake_lookup (fake_Sets f) n of
        None \<Rightarrow> []
      | Some st \<Rightarrow>
          ''Name: '' @ n @ [newline] @ ''Type: '' @ set_SetType st @ [newline] @ ''Members:'' @ [newline] @
          (case fake_lookup (fake_Entries f) n of
             None \<Rightarrow> []
           | Some es \<Rightarrow> concat (map (\<lambda>e. e @ [newline]) (sort es))) @ [newline])"

definition fake_SaveAllSets :: "(FakeIPSet, string) act" where
  "fake_SaveAllSets = (\<lambda>f.
     let setNames = sort (case fake_Sets f of None \<Rightarrow> [] | Some al \<Rightarrow> map fst al);
         buf = concat (map (saveSet f) setNames)
     in (Ok (if buf \<noteq> [] then butlast buf else buf), f))"

definition fake_iface :: "FakeIPSet ipset_iface" where
  "fake_iface = \<lparr>
     ips_FlushSet = fake_FlushSet,
     ips_DestroySet = fake_DestroySet,
     ips_DestroyAllSets = fake_DestroyAllSets,
     ips_CreateSet = fake_CreateSet,
     ips_AddEntry = fake_AddEntry,
     ips_DelEntry = fake_DelEntry,
     ips_TestEntry = fake_TestEntry,
     ips_ListEntries = fake_ListEntries,
     ips_ListSets = fake_ListSets,
     ips_GetVersion = fake_GetVersion,
     ips_AddEntryWithOptions = fake_AddEntryWithOptions,
     ips_DelEntryWithOptions = fake_DelEntryWithOptions,
     ips_SaveAllSets = fake_SaveAllSets\<rparr>"

section \<open>The contract\<close>

text \<open>The two maps are allocated, keyed by the same distinct names, and hold sets.\<close>

definition fake_inv :: "FakeIPSet \<Rightarrow> bool" where
  "fake_inv f = (case (fake_Sets f, fake_Entries f) of
      (Some al, Some es) \<Rightarrow> distinct (map fst al) \<and> distinct (map fst es) \<and>
        set (map fst al) = set (map fst es) \<and> list_all (\<lambda>e. distinct (snd e)) es
    | _ \<Rightarrow> False)"

definition fake_members :: "FakeIPSet \<Rightarrow> string \<Rightarrow> string set option" where
  "fake_members f n = map_option set (fake_lookup (fake_Entries f) n)"

lemma fake_inv_New: "fake_inv (NewFake v)"
  by (simp add: fake_inv_def NewFake_def)

lemma fake_invE:
  assumes "fake_inv f"
  obtains al es where "fake_Sets f = Some al" "fake_Entries f = Some es" "distinct (map fst al)"
    "distinct (map fst es)" "set (map fst al) = set (map fst es)" "list_all (\<lambda>e. distinct (snd e)) es"
  using assms by (auto simp: fake_inv_def split: option.splits)

lemma map_of_None_keys: "map_of al k = None \<longleftrightarrow> k \<notin> set (map fst al)"
  by (auto simp: map_of_eq_None_iff image_def)

lemma alist_update_keys: "set (map fst (AList.update k v al)) = insert k (set (map fst al))"
  by (simp add: dom_update)

lemma alist_update_all:
  "list_all (\<lambda>e. P (snd e)) al \<Longrightarrow> P v \<Longrightarrow> list_all (\<lambda>e. P (snd e)) (AList.update k v al)"
  by (induction al) auto

lemma alist_delete_all: "list_all P al \<Longrightarrow> list_all P (AList.delete k al)"
  by (auto simp: AList.delete_eq list_all_iff)

lemma fake_inv_update:
  assumes "fake_inv f" "fake_lookup (fake_Entries f) n = Some xs" "distinct ys"
  shows "fake_inv (f\<lparr>fake_Entries := map_option (AList.update n ys) (fake_Entries f)\<rparr>)"
    and "fake_members (f\<lparr>fake_Entries := map_option (AList.update n ys) (fake_Entries f)\<rparr>) =
      (fake_members f)(n := Some (set ys))"
proof -
  obtain al es where f: "fake_Sets f = Some al" "fake_Entries f = Some es" "distinct (map fst al)"
    "distinct (map fst es)" "set (map fst al) = set (map fst es)" "list_all (\<lambda>e. distinct (snd e)) es"
    using assms(1) by (rule fake_invE)
  have "n \<in> set (map fst es)" using assms(2) f(2) by (force simp: fake_lookup_def dest: map_of_SomeD)
  then have "set (map fst al) = set (map fst (AList.update n ys es))" using f(5) by (auto simp: dom_update)
  then show "fake_inv (f\<lparr>fake_Entries := map_option (AList.update n ys) (fake_Entries f)\<rparr>)"
    using f assms(3) alist_update_all[of distinct es ys n] by (simp add: fake_inv_def distinct_update)
  show "fake_members (f\<lparr>fake_Entries := map_option (AList.update n ys) (fake_Entries f)\<rparr>) =
      (fake_members f)(n := Some (set ys))"
    using f(2) by (auto simp: fake_members_def fake_lookup_def update_conv')
qed

lemma fake_entries_distinct:
  "fake_inv f \<Longrightarrow> fake_lookup (fake_Entries f) n = Some xs \<Longrightarrow> distinct xs"
  by (erule fake_invE) (force simp: fake_lookup_def list_all_iff dest: map_of_SomeD)

lemma fake_create:
  assumes "fake_inv f"
  shows "\<exists>f'. fake_CreateSet st True f = (Ok (), f') \<and> fake_inv f' \<and> fake_members f' =
    (fake_members f)(set_Name st := Some (case fake_members f (set_Name st) of None \<Rightarrow> {} | Some S \<Rightarrow> S))"
proof -
  obtain al es where f: "fake_Sets f = Some al" "fake_Entries f = Some es" "distinct (map fst al)"
    "distinct (map fst es)" "set (map fst al) = set (map fst es)" "list_all (\<lambda>e. distinct (snd e)) es"
    using assms by (rule fake_invE)
  have keys: "map_of al n = None \<longleftrightarrow> map_of es n = None" for n
    using f(5) by (simp only: map_of_None_keys)
  show ?thesis
  proof (cases "map_of al (set_Name st)")
    case None
    then show ?thesis using f keys[of "set_Name st"]
      by (auto simp: fake_CreateSet_def fake_lookup_def fake_inv_def fake_members_def distinct_update
          dom_update update_conv' fun_eq_iff alist_update_all[of distinct])
  next
    case (Some s)
    then obtain xs where "map_of es (set_Name st) = Some xs" using keys[of "set_Name st"] by auto
    then show ?thesis using Some f assms
      by (auto simp: fake_CreateSet_def fake_lookup_def fake_members_def fun_eq_iff)
  qed
qed

lemma fake_add:
  assumes "fake_inv f" "fake_members f (set_Name st) = Some S"
  shows "\<exists>f'. fake_AddEntryWithOptions e st True f = (Ok (), f') \<and> fake_inv f' \<and>
    fake_members f' = (fake_members f)(set_Name st := Some (insert (entryLine e) S))"
proof -
  obtain xs where xs: "fake_lookup (fake_Entries f) (set_Name st) = Some xs" "S = set xs"
    using assms(2) by (auto simp: fake_members_def)
  note u = fake_inv_update[OF assms(1) xs(1), of "sets_Insert (entryLine e) xs"]
  show ?thesis
  proof (cases "entryLine e \<in> set xs")
    case True
    then show ?thesis using xs assms
      by (auto simp: fake_AddEntryWithOptions_def fake_AddEntry_def entryLine_def insert_absorb fun_eq_iff)
  next
    case False
    then show ?thesis using xs u fake_entries_distinct[OF assms(1) xs(1)]
      by (simp add: fake_AddEntryWithOptions_def fake_AddEntry_def entryLine_def)
  qed
qed

lemma fake_del:
  assumes "fake_inv f" "fake_members f n = Some S"
  shows "\<exists>f'. fake_DelEntryWithOptions n l opts f = (Ok (), f') \<and> fake_inv f' \<and>
    fake_members f' = (fake_members f)(n := Some (S - {join '' '' (l # opts)}))"
proof -
  obtain xs where xs: "fake_lookup (fake_Entries f) n = Some xs" "S = set xs"
    using assms(2) by (auto simp: fake_members_def)
  let ?l = "join '' '' (l # opts)"
  have d: "distinct (sets_Delete ?l xs)"
    using fake_entries_distinct[OF assms(1) xs(1)] by (simp add: sets_Delete_def)
  obtain es where es: "fake_Entries f = Some es" using assms(1) by (rule fake_invE)
  show ?thesis
    using fake_inv_update[OF assms(1) xs(1) d] xs es
    by (simp add: fake_DelEntryWithOptions_def fake_DelEntry_def fake_lookup_def)
qed

lemma fake_destroy:
  assumes "fake_inv f"
  shows "\<exists>f'. fake_DestroySet n f = (Ok (), f') \<and> fake_inv f' \<and> fake_members f' = (fake_members f)(n := None)"
  using assms
  by (elim fake_invE) (auto simp: fake_DestroySet_def fake_inv_def fake_members_def fake_lookup_def
      distinct_delete delete_conv' alist_delete_all delete_keys distinct_removeAll fun_eq_iff simp flip: set_map)

lemma fake_dom:
  assumes "fake_inv f"
  shows "\<exists>l. fake_ListSets f = (Ok l, f) \<and> set l = dom (fake_members f)"
  using assms
  by (elim fake_invE) (auto simp: fake_ListSets_def fake_members_def fake_lookup_def dom_def
      map_of_None_keys not_None_eq[symmetric] simp del: not_None_eq)

lemma fake_list:
  assumes "fake_inv f" "fake_members f n = Some S"
  shows "\<exists>l. fake_ListEntries n f = (Ok l, f) \<and> set l = S"
proof -
  obtain es where es: "fake_Entries f = Some es" using assms(1) by (rule fake_invE)
  obtain xs where "fake_lookup (fake_Entries f) n = Some xs" "S = set xs"
    using assms(2) unfolding fake_members_def by blast
  then show ?thesis using es by (simp add: fake_ListEntries_def fake_lookup_def)
qed

interpretation fake: ipset_handle fake_iface fake_inv fake_members
  by unfold_locales (simp_all add: fake_iface_def fake_create fake_list fake_add fake_del fake_destroy fake_dom)

end
