(* ===== verification/PolicySync.thy ===== *)
theory PolicySync
  imports PodChains IPSet_Fake
begin

text \<open>
  What the policy controller guarantees. The clients' lemmas are proved in the contracts of the two handles
  (\<open>ipset_handle\<close>, \<open>iptables_handle\<close> and their combination \<open>policy_handles\<close>), and hold for the in-memory
  handles of the repository by interpretation: \<open>world\<close> pairs \<^verbatim>\<open>FakeIPSet\<close> and \<^verbatim>\<open>fakeIPTables\<close>.
\<close>

section \<open>ipsets: one set\<close>

definition tableLines :: "ipsetTable \<Rightarrow> string set" where
  "tableLines t = entryLine ` set (tbl_entries t)"

context ipset_handle
begin

lemma add_loop:
  assumes "inv w" "members w (set_Name st) = Some S"
  shows "\<exists>w'. afor es (\<lambda>e. if entryLine e \<in> old then aret () else aignore (ips_AddEntryWithOptions H e st True)) w = (Ok (), w')
    \<and> inv w' \<and> members w' = (members w)(set_Name st := Some (S \<union> (entryLine ` set es - old)))"
  using assms
proof (induction es arbitrary: w S)
  case Nil
  then show ?case by (auto simp: aret_def fun_eq_iff)
next
  case (Cons e es)
  show ?case
  proof (cases "entryLine e \<in> old")
    case True
    then show ?thesis using Cons.IH[OF Cons.prems] by (simp add: abind_def aret_def)
  next
    case False
    obtain w1 where w1: "ips_AddEntryWithOptions H e st True w = (Ok (), w1)" "inv w1"
      "members w1 = (members w)(set_Name st := Some (insert (entryLine e) S))"
      using add_law[OF Cons.prems] by blast
    have "members w1 (set_Name st) = Some (insert (entryLine e) S)" using w1(3) by simp
    then obtain w2 where "afor es (\<lambda>e. if entryLine e \<in> old then aret () else aignore (ips_AddEntryWithOptions H e st True)) w1 = (Ok (), w2)"
      "inv w2" "members w2 = (members w1)(set_Name st := Some (insert (entryLine e) S \<union> (entryLine ` set es - old)))"
      using Cons.IH[OF w1(2)] by blast
    moreover have "insert (entryLine e) S \<union> (entryLine ` set es - old) = S \<union> (entryLine ` set (e # es) - old)"
      using False by auto
    ultimately show ?thesis using False w1 by (auto simp: act_simps fun_eq_iff)
  qed
qed

lemma del_loop:
  assumes "inv w" "members w n = Some S"
  shows "\<exists>w'. afor olds (\<lambda>old. if old \<in> new then aret () else (let parts = split (CHR '' '') old in
      aignore (ips_DelEntryWithOptions H n (hd parts) (tl parts)))) w = (Ok (), w')
    \<and> inv w' \<and> members w' = (members w)(n := Some (S - (set olds - new)))"
  using assms
proof (induction olds arbitrary: w S)
  case Nil
  then show ?case by (auto simp: aret_def fun_eq_iff)
next
  case (Cons x xs)
  show ?case
  proof (cases "x \<in> new")
    case True
    then show ?thesis using Cons.IH[OF Cons.prems] by (simp add: abind_def aret_def insert_Diff_if)
  next
    case False
    let ?p = "split (CHR '' '') x"
    have j: "join '' '' (hd ?p # tl ?p) = x" using join_split[of "CHR '' ''" x] by simp
    obtain w1 where w1: "ips_DelEntryWithOptions H n (hd ?p) (tl ?p) w = (Ok (), w1)" "inv w1"
      "members w1 = (members w)(n := Some (S - {x}))"
      using del_law[OF Cons.prems, of "hd ?p" "tl ?p"] j by auto
    have "members w1 n = Some (S - {x})" using w1(3) by simp
    then obtain w2 where "afor xs (\<lambda>old. if old \<in> new then aret () else (let parts = split (CHR '' '') old in
      aignore (ips_DelEntryWithOptions H n (hd parts) (tl parts)))) w1 = (Ok (), w2)"
      "inv w2" "members w2 = (members w1)(n := Some (S - {x} - (set xs - new)))"
      using Cons.IH[OF w1(2)] by blast
    moreover have "S - {x} - (set xs - new) = S - (set (x # xs) - new)" using False by auto
    ultimately show ?thesis using False w1 by (auto simp: act_simps Let_def fun_eq_iff)
  qed
qed

text \<open>One round of \<^verbatim>\<open>createIPSet\<close> makes the members of the set exactly the entries of its table.\<close>

lemma createOne_exact:
  assumes "inv w" "tbl_Name t = n"
  shows "\<exists>w'. createOne H (n, t) w = (Ok (), w') \<and> inv w' \<and> members w' = (members w)(n := Some (tableLines t))"
proof -
  let ?st = "tbl_IPSet t"
  have n: "set_Name ?st = n" using assms(2) by (simp add: tbl_Name_def)
  obtain S w1 where w1: "ips_CreateSet H ?st True w = (Ok (), w1)" "inv w1" "members w1 = (members w)(n := Some S)"
    using create_law[OF assms(1), of ?st] n by auto
  have m1: "members w1 n = Some S" using w1(3) by simp
  obtain old where old: "ips_ListEntries H n w1 = (Ok old, w1)" "set old = S" using list_law[OF w1(2) m1] by blast
  obtain w2 where w2: "afor (tbl_entries t) (\<lambda>e. if entryLine e \<in> set old then aret ()
      else aignore (ips_AddEntryWithOptions H e ?st True)) w1 = (Ok (), w2)" "inv w2"
    "members w2 = (members w1)(n := Some (S \<union> (tableLines t - set old)))"
    using add_loop[OF w1(2), of ?st S "tbl_entries t" "set old"] m1 n by (auto simp: tableLines_def)
  have m2: "members w2 n = Some (S \<union> (tableLines t - set old))" using w2(3) by simp
  obtain w3 where w3: "afor old (\<lambda>x. if x \<in> tableLines t then aret () else (let parts = split (CHR '' '') x in
      aignore (ips_DelEntryWithOptions H n (hd parts) (tl parts)))) w2 = (Ok (), w3)" "inv w3"
    "members w3 = (members w2)(n := Some (S \<union> (tableLines t - set old) - (set old - tableLines t)))"
    using del_loop[OF w2(2) m2, of old "tableLines t"] by blast
  have e: "S \<union> (tableLines t - set old) - (set old - tableLines t) = tableLines t" using old(2) by auto
  have "createOne H (n, t) w = (Ok (), w3)"
    using w1(1) old(1) w2(1) w3(1) by (simp add: createOne_def act_simps tableLines_def)
  then show ?thesis using w3 w2(3) w1(3) e by (intro exI[of _ w3]) (simp add: fun_eq_iff)
qed

text \<open>\<^verbatim>\<open>createIPSet\<close> does so for every table, and touches no other set.\<close>

lemma createIPSet_exact:
  assumes "inv w" "distinct (map fst m)" "list_all (\<lambda>(n, t). tbl_Name t = n) m"
  shows "\<exists>w'. createIPSet H m w = (Ok (), w') \<and> inv w' \<and>
    members w' = (\<lambda>n. case map_of m n of Some t \<Rightarrow> Some (tableLines t) | None \<Rightarrow> members w n)"
  using assms
proof (induction m arbitrary: w)
  case Nil
  then show ?case by (simp add: createIPSet_def aret_def)
next
  case (Cons nt m)
  obtain n t where nt: "nt = (n, t)" by (cases nt)
  obtain w1 where w1: "createOne H (n, t) w = (Ok (), w1)" "inv w1" "members w1 = (members w)(n := Some (tableLines t))"
    using createOne_exact[OF Cons.prems(1), of t n] Cons.prems(3) nt by auto
  obtain w2 where w2: "createIPSet H m w1 = (Ok (), w2)" "inv w2"
    "members w2 = (\<lambda>n. case map_of m n of Some t \<Rightarrow> Some (tableLines t) | None \<Rightarrow> members w1 n)"
    using Cons.IH[OF w1(2)] Cons.prems(2,3) by auto
  have "map_of m n = None" using Cons.prems(2) nt by (simp add: map_of_eq_None_iff)
  then show ?case using w1 w2 nt
    by (intro exI[of _ w2]) (auto simp: createIPSet_def abind_def fun_eq_iff split: option.splits)
qed

lemma destroyStale_exact:
  assumes "inv w"
  shows "\<exists>w'. destroyStale H m l w = (Ok (), w') \<and> inv w' \<and>
    members w' = (\<lambda>n. if n \<in> set l \<and> hasPrefix n NamePrefix \<and> map_of m n = None then None else members w n)"
  using assms
proof (induction l arbitrary: w)
  case Nil
  then show ?case by (simp add: destroyStale_def aret_def)
next
  case (Cons x l)
  show ?case
  proof (cases "hasPrefix x NamePrefix \<and> map_of m x = None")
    case True
    obtain w1 where w1: "ips_DestroySet H x w = (Ok (), w1)" "inv w1" "members w1 = (members w)(x := None)"
      using destroy_law[OF Cons.prems] by blast
    then show ?thesis using Cons.IH[OF w1(2)] True by (auto simp: destroyStale_def act_simps fun_eq_iff)
  next
    case False
    then show ?thesis using Cons.IH[OF Cons.prems] by (auto simp: destroyStale_def act_simps fun_eq_iff)
  qed
qed

end

section \<open>The map of wanted tables\<close>

definition tables_ok :: "(string \<times> ipsetTable) list \<Rightarrow> bool" where
  "tables_ok m \<longleftrightarrow> distinct (map fst m) \<and> list_all (\<lambda>(n, t). tbl_Name t = n) m"

lemma tables_ok_update: "tables_ok m \<Longrightarrow> tables_ok (AList.update (tbl_Name t) t m)"
proof -
  have "list_all (\<lambda>(n, t). tbl_Name t = n) m \<Longrightarrow> list_all (\<lambda>(n, t). tbl_Name t = n) (AList.update (tbl_Name t) t m)"
    by (induction m) auto
  then show "tables_ok m \<Longrightarrow> tables_ok (AList.update (tbl_Name t) t m)"
    by (simp add: tables_ok_def distinct_update)
qed

lemma foldl_keeps: "P m \<Longrightarrow> (\<And>m x. P m \<Longrightarrow> P (f m x)) \<Longrightarrow> P (foldl f m xs)"
  by (induction xs arbitrary: m) auto

lemma tables_ok_putTable: "tables_ok m \<Longrightarrow> tables_ok (putTable t m)"
  by (simp add: putTable_def tables_ok_update split: option.splits)

lemma tables_ok_putRule: "tables_ok m \<Longrightarrow> tables_ok (putRule m r)"
  by (simp add: putRule_def tables_ok_putTable)

lemma tables_ok_rules: "tables_ok m \<Longrightarrow> tables_ok (foldl putRule (putTable t m) rs)"
  by (rule foldl_keeps[where P = tables_ok]) (simp_all add: tables_ok_putTable tables_ok_putRule)

lemma tables_ok_putPolicy: "tables_ok m \<Longrightarrow> tables_ok (putPolicy m p)"
  by (simp add: putPolicy_def Let_def tables_ok_rules split: option.splits)

lemma tables_ok_initIPSetMap: "tables_ok (initIPSetMap ps)"
  unfolding initIPSetMap_def
  by (rule foldl_keeps[where P = tables_ok]) (simp_all add: tables_ok_def[of "[]"] tables_ok_putPolicy)

lemma map_of_permuted:
  assumes "tables_ok m" "mset m' = mset m"
  shows "tables_ok m'" "map_of m' = map_of m"
proof -
  have d: "distinct (map fst m')" using assms
    by (metis mset_map mset_eq_imp_distinct_iff tables_ok_def)
  have s: "set m' = set m" using assms(2) by (rule mset_eq_setD)
  show "tables_ok m'" using d s assms(1) by (auto simp: tables_ok_def list_all_iff)
  show "map_of m' = map_of m" using map_of_inject_set[OF d, of m] s assms(1) by (simp add: tables_ok_def)
qed


section \<open>Both handles over one world\<close>

text \<open>Saving and restoring iptables rules does not touch the ipsets.\<close>

locale policy_handles = ipset_handle H inv members
  for H :: "'w ipset_iface" and inv and members :: "'w \<Rightarrow> string \<Rightarrow> string set option" +
  fixes T :: "'w iptables_iface"
  assumes save_frame: "inv w \<Longrightarrow> inv (snd (ipti_SaveInto T t w)) \<and> members (snd (ipti_SaveInto T t w)) = members w"
    and restore_frame: "inv w \<Longrightarrow> inv (snd (ipti_RestoreAll T d fl cn w)) \<and>
      members (snd (ipti_RestoreAll T d fl cn w)) = members w"
begin

lemma syncIptables_frame:
  assumes "inv w"
  shows "inv (snd (syncIptables T sha ordC ps w)) \<and> members (snd (syncIptables T sha ordC ps w)) = members w"
proof -
  obtain r w1 where s: "ipti_SaveInto T ''filter'' w = (r, w1)" by (cases "ipti_SaveInto T ''filter'' w")
  have w1: "inv w1" "members w1 = members w" using save_frame[OF assms, of "''filter''"] s by auto
  note restore_frame[OF w1(1)]
  then show ?thesis using s w1
    by (auto simp: syncIptables_def act_simps Let_def split: result.splits prod.splits) (metis snd_conv)+
qed

text \<open>
  \<^verbatim>\<open>syncRules\<close> leaves exactly the wanted sets with exactly the wanted entries among those that carry our prefix, and does
  not touch the others, whether or not the iptables part succeeds.
\<close>

lemma syncRules_reconciles:
  assumes "inv w" and "mset (ordS (initIPSetMap ps)) = mset (initIPSetMap ps)"
  shows "inv (snd (syncRules H T sha ordS ordC ps w))" and "members (snd (syncRules H T sha ordS ordC ps w)) n =
    (case map_of (initIPSetMap ps) n of
       Some t \<Rightarrow> Some (tableLines t)
     | None \<Rightarrow> if hasPrefix n NamePrefix then None else members w n)"
proof -
  let ?m = "initIPSetMap ps"
  note p = map_of_permuted[OF tables_ok_initIPSetMap assms(2)]
  obtain l where l: "ips_ListSets H w = (Ok l, w)" "set l = dom (members w)" using sets_law[OF assms(1)] by blast
  obtain w1 where w1: "createIPSet H (ordS ?m) w = (Ok (), w1)" "inv w1"
    "members w1 = (\<lambda>n. case map_of ?m n of Some t \<Rightarrow> Some (tableLines t) | None \<Rightarrow> members w n)"
    using createIPSet_exact[OF assms(1), of "ordS ?m"] p by (auto simp: tables_ok_def)
  obtain r w2 where w2: "syncIptables T sha ordC ps w1 = (r, w2)" by (cases "syncIptables T sha ordC ps w1")
  have f: "inv w2" "members w2 = members w1" using syncIptables_frame[OF w1(2), of sha ordC ps] w2 by auto
  obtain w3 where w3: "destroyStale H ?m l w2 = (Ok (), w3)" "inv w3"
    "members w3 = (\<lambda>n. if n \<in> set l \<and> hasPrefix n NamePrefix \<and> map_of ?m n = None then None else members w2 n)"
    using destroyStale_exact[OF f(1)] by blast
  have "snd (syncRules H T sha ordS ordC ps w) = w3"
    using l(1) w1(1) w2 w3(1) by (simp add: syncRules_def act_simps Let_def)
  then show "inv (snd (syncRules H T sha ordS ordC ps w))" and "members (snd (syncRules H T sha ordS ordC ps w)) n =
      (case map_of ?m n of Some t \<Rightarrow> Some (tableLines t) | None \<Rightarrow> if hasPrefix n NamePrefix then None else members w n)"
    using w3(2,3) f(2) w1(3) l(2) by (auto simp: dom_def split: option.splits)
qed

end

section \<open>The in-memory handles\<close>

definition onFst :: "('a, 'x) act \<Rightarrow> ('a \<times> 'b, 'x) act" where
  "onFst m = (\<lambda>(a, b). case m a of (r, a') \<Rightarrow> (r, (a', b)))"

definition onSnd :: "('b, 'x) act \<Rightarrow> ('a \<times> 'b, 'x) act" where
  "onSnd m = (\<lambda>(a, b). case m b of (r, b') \<Rightarrow> (r, (a, b')))"

definition lift_ipset :: "'a ipset_iface \<Rightarrow> ('a \<times> 'b) ipset_iface" where
  "lift_ipset h = \<lparr>
     ips_FlushSet = (\<lambda>n. onFst (ips_FlushSet h n)),
     ips_DestroySet = (\<lambda>n. onFst (ips_DestroySet h n)),
     ips_DestroyAllSets = onFst (ips_DestroyAllSets h),
     ips_CreateSet = (\<lambda>s i. onFst (ips_CreateSet h s i)),
     ips_AddEntry = (\<lambda>e s i. onFst (ips_AddEntry h e s i)),
     ips_DelEntry = (\<lambda>e n. onFst (ips_DelEntry h e n)),
     ips_TestEntry = (\<lambda>e n. onFst (ips_TestEntry h e n)),
     ips_ListEntries = (\<lambda>n. onFst (ips_ListEntries h n)),
     ips_ListSets = onFst (ips_ListSets h),
     ips_GetVersion = onFst (ips_GetVersion h),
     ips_AddEntryWithOptions = (\<lambda>e s i. onFst (ips_AddEntryWithOptions h e s i)),
     ips_DelEntryWithOptions = (\<lambda>n e os. onFst (ips_DelEntryWithOptions h n e os)),
     ips_SaveAllSets = onFst (ips_SaveAllSets h)\<rparr>"

definition lift_iptables :: "'b iptables_iface \<Rightarrow> ('a \<times> 'b) iptables_iface" where
  "lift_iptables t = \<lparr>
     ipti_EnsureChain = (\<lambda>a b. onSnd (ipti_EnsureChain t a b)),
     ipti_FlushChain = (\<lambda>a b. onSnd (ipti_FlushChain t a b)),
     ipti_DeleteChain = (\<lambda>a b. onSnd (ipti_DeleteChain t a b)),
     ipti_EnsureRule = (\<lambda>p a b xs. onSnd (ipti_EnsureRule t p a b xs)),
     ipti_DeleteRule = (\<lambda>a b xs. onSnd (ipti_DeleteRule t a b xs)),
     ipti_ListRule = (\<lambda>a b xs. onSnd (ipti_ListRule t a b xs)),
     ipti_IsIpv6 = ipti_IsIpv6 t,
     ipti_SaveInto = (\<lambda>a. onSnd (ipti_SaveInto t a)),
     ipti_EnsurePolicy = (\<lambda>a b p. onSnd (ipti_EnsurePolicy t a b p)),
     ipti_Restore = (\<lambda>a d f c. onSnd (ipti_Restore t a d f c)),
     ipti_RestoreAll = (\<lambda>d f c. onSnd (ipti_RestoreAll t d f c))\<rparr>"

type_synonym world = "FakeIPSet \<times> fakeIPTables"

definition wH :: "world ipset_iface" where "wH = lift_ipset fake_iface"
definition wT :: "world iptables_iface" where "wT = lift_iptables fk_iface"
definition winv :: "world \<Rightarrow> bool" where "winv w = fake_inv (fst w)"
definition wmembers :: "world \<Rightarrow> string \<Rightarrow> string set option" where "wmembers w = fake_members (fst w)"
definition wrules :: "world \<Rightarrow> string \<Rightarrow> string \<Rightarrow> string list option" where "wrules w = fk_rules (snd w)"

interpretation wh: policy_handles wH winv wmembers wT
proof (unfold_locales, goal_cases)
  case (1 w st)
  then show ?case using fake.create_law[of "fst w" st]
    by (auto simp: wH_def lift_ipset_def winv_def wmembers_def onFst_def split: prod.splits)
next
  case (2 w n S)
  then show ?case using fake.list_law[of "fst w" n S]
    by (auto simp: wH_def lift_ipset_def winv_def wmembers_def onFst_def split: prod.splits)
next
  case (3 w st S e)
  then show ?case using fake.add_law[of "fst w" st S e]
    by (auto simp: wH_def lift_ipset_def winv_def wmembers_def onFst_def split: prod.splits)
next
  case (4 w n S l opts)
  then show ?case using fake.del_law[of "fst w" n S l opts]
    by (auto simp: wH_def lift_ipset_def winv_def wmembers_def onFst_def split: prod.splits)
next
  case (5 w)
  then show ?case using fake.sets_law[of "fst w"]
    by (auto simp: wH_def lift_ipset_def winv_def wmembers_def onFst_def split: prod.splits)
next
  case (6 w n)
  then show ?case using fake.destroy_law[of "fst w" n]
    by (auto simp: wH_def lift_ipset_def winv_def wmembers_def onFst_def split: prod.splits)
qed (auto simp: wT_def lift_iptables_def winv_def wmembers_def onSnd_def split: prod.splits)

section \<open>Properties\<close>


definition demo_world :: world where
  "demo_world = (snd (abind (fake_CreateSet (IPSet0\<lparr>set_Name := ''GLX-ip-OLD'', set_SetType := HashIP\<rparr>) True)
     (\<lambda>_. fake_CreateSet (IPSet0\<lparr>set_Name := ''other'', set_SetType := HashIP\<rparr>) True) (NewFake ''6.19'')), NewFakeIPTables)"


text \<open>
  A rule without peers contributes no iptables rule at all: traffic from every source stays dropped, where the API says that an
  empty list of peers matches all of them.
\<close>

theorem empty_peers_allow_nothing:
  assumes "npr_Peers ir = []"
  shows "(case peerRule k (npr_Ports ir) (npr_Peers ir) of
      Ok r \<Rightarrow> writePolicyChainRules buf chain comment (tableNames (nameRule dir h i r)) dsts (rule_tcpPorts r) (rule_udpPorts r) = buf
    | _ \<Rightarrow> False)"
  using assms by (simp add: peerRule_def nameRule_def tableNames_def writePolicyChainRules_def split: prod.splits)

theorem empty_peers_allow_nothing_witness:
  "(case peerRule demo_kube [] [] of
      Ok r \<Rightarrow> writePolicyChainRules [] ''GLX-PLCY-X'' ''web_default'' (tableNames (nameRule ''s'' ''H'' 0 r)) [''GLX-ip-H'']
        (rule_tcpPorts r) (rule_udpPorts r) = []
    | _ \<Rightarrow> False)"
  using empty_peers_allow_nothing[where ir = "\<lparr>npr_Ports = [], npr_Peers = []\<rparr>" and k = demo_kube and buf = "[]" and i = 0]
  by simp

text \<open>
  A policy of type Egress that also lists ingress rules has no ingress tables, but \<^verbatim>\<open>syncIngressInIPSet\<close> walks its ingress
  rules all the same: the update of any pod that matches one of their pod selectors dereferences the missing rule and panics.
\<close>

theorem egress_only_policy_panics:
  assumes "pol_ingressRule p = None" and "np_Ingress (pol_np p) = ir # irs" and "npr_Peers ir = peer # peers"
    and "peer_PodSelector peer = Some ls" and "kb_AsSelector k ls = Ok s" and "sel_Matches s (pod_Labels pod)"
  shows "fst (syncIngressInIPSet H k p pod add w) = Panic"
  using assms by (simp add: syncIngressInIPSet_def syncPeer_def ruleSet_def act_simps)

definition demo_peer :: "unit NetworkPolicyPeer" where
  "demo_peer = \<lparr>peer_PodSelector = Some (), peer_NamespaceSelector = None, peer_IPBlock = None\<rparr>"

definition egress_np :: "unit NetworkPolicy" where
  "egress_np = demo_np\<lparr>np_PolicyTypes := [''Egress''],
     np_Ingress := [\<lparr>npr_Ports = [], npr_Peers = [demo_peer]\<rparr>]\<rparr>"

theorem egress_only_policy_panics_witness:
  "(case policyResult demo_sha demo_kube egress_np of
      Ok (i, e) \<Rightarrow> i = None \<and>
        fst (syncIngressInIPSet wH demo_kube \<lparr>pol_ingressRule = i, pol_egressRule = e, pol_np = egress_np\<rparr> demo_pod True demo_world) = Panic
    | _ \<Rightarrow> False)"
proof -
  have "case policyResult demo_sha demo_kube egress_np of Ok (i, e) \<Rightarrow> i = None | _ \<Rightarrow> False" by code_simp
  moreover have "fst (syncIngressInIPSet wH demo_kube \<lparr>pol_ingressRule = None, pol_egressRule = e, pol_np = egress_np\<rparr>
      demo_pod True demo_world) = Panic" for e
    by (rule egress_only_policy_panics[where s = Everything and ls = "()" and peer = demo_peer and peers = "[]" and irs = "[]"
          and ir = "\<lparr>npr_Ports = [], npr_Peers = [demo_peer]\<rparr>"])
      (simp_all add: egress_np_def demo_peer_def demo_kube_def Everything_def)
  ultimately show ?thesis by (auto split: result.splits)
qed

text \<open>The piece behind the last separator.\<close>

lemma last_piece: "c \<notin> set x \<Longrightarrow> rev (takeWhile (\<lambda>z. z \<noteq> c) (rev (a @ c # x))) = x"
proof -
  assume "c \<notin> set x"
  then have t: "takeWhile (\<lambda>z. z \<noteq> c) (rev x) = rev x" by (auto simp: takeWhile_eq_all_conv)
  have "takeWhile (\<lambda>z. z \<noteq> c) (rev (a @ c # x)) = takeWhile (\<lambda>z. z \<noteq> c) (rev x)"
    using takeWhile_tail[of "\<lambda>z. z \<noteq> c" c "rev x" "rev a"] by simp
  then show ?thesis by (simp only: t rev_rev_ident)
qed

text \<open>
  \<^verbatim>\<open>formatCidr\<close> masks the host bits of an IPv4 block and prints it the way ipset lists it, without the suffix of a single
  address, so that the entry compares equal to the listed one.
\<close>

theorem formatCidr_masks:
  assumes "length x = 4" and "n \<le> 32"
  shows "formatCidr (ipString x @ ''/'' @ showNat n) =
    Ok (ipString (bytesAnd x (CIDRMask n 32)) @ (if n = 32 then [] else ''/'' @ showNat n))"
proof -
  let ?m = "CIDRMask n 32" and ?a = "bytesAnd x (CIDRMask n 32)"
  have lm: "length ?m = 4" using assms(2) by (simp add: CIDRMask_def)
  have la: "length ?a = 4" using assms(1) lm by simp
  have ne: "?a \<noteq> []" using la by (cases ?a) (simp_all del: length_bytesAnd)
  have sm: "simpleMaskLength ?m = Some n" using assms(2) simpleMaskLength_CIDRMaskBytes[of n 4] by (simp add: CIDRMask_def)
  have ns: "netString \<lparr>IPNet_IP = ?a, IPNet_Mask = ?m\<rparr> = ipString ?a @ ''/'' @ showNat n"
    using la lm sm ne by (auto simp: netString_def networkNumberAndMask_def To4_def Let_def)
  have f: "formatCidr (ipString x @ ''/'' @ showNat n) = Ok (trimSuffix (ipString ?a @ ''/'' @ showNat n) ''/32'')"
    using parse_print_cidr_v4[OF assms] ns by (simp add: formatCidr_def)
  show ?thesis
  proof (cases "n = 32")
    case True
    have "showNat 32 = ''32''" by code_simp
    then have "trimSuffix (ipString ?a @ ''/'' @ showNat n) ''/32'' = ipString ?a"
      using True trimSuffix_append[of "ipString ?a" "''/32''"] by simp
    then show ?thesis using f True by simp
  next
    case False
    have "\<not> hasSuffix (ipString ?a @ ''/'' @ showNat n) ''/32''"
    proof
      assume "hasSuffix (ipString ?a @ ''/'' @ showNat n) ''/32''"
      then obtain t where t: "ipString ?a @ ''/'' @ showNat n = t @ ''/32''" by (auto simp: hasSuffix_iff)
      have "CHR ''/'' \<notin> set (showNat n)" by (rule showNat_no_punct) simp
      moreover have "CHR ''/'' \<notin> set ''32''" by simp
      ultimately have "showNat n = ''32''"
        using t last_piece[of "CHR ''/''" "showNat n" "ipString ?a"] last_piece[of "CHR ''/''" "''32''" t] by simp
      also have "''32'' = showNat 32" by code_simp
      finally show False using showNat_inj False by blast
    qed
    then show ?thesis using f False by (simp add: trimSuffix_def)
  qed
qed

theorem formatCidr_masks_witness:
  "formatCidr (ipString [10, 246, 33, 13] @ ''/'' @ showNat 31) = Ok ''10.246.33.12/31''"
proof -
  have "ipString (bytesAnd [10, 246, 33, 13] (CIDRMask 31 32)) @ ''/'' @ showNat 31 = ''10.246.33.12/31''" by code_simp
  then show ?thesis using formatCidr_masks[of "[10, 246, 33, 13]" 31] by simp
qed

end
