(* ===== verification/PolicyEvents.thy ===== *)
theory PolicyEvents
  imports Policy
begin

text \<open>
  The policy manager of \<^verbatim>\<open>pkg/policy\<close> as a whole: its state, the informers of \<^verbatim>\<open>policy.go\<close> and the events of
  \<^verbatim>\<open>event.go\<close>. The informer of the policies is started by the program. Those of the pods and namespaces are started when the
  first policy is seen; before that the pod cache is empty and the namespace lister is nil. \<open>pm_kube\<close> is what the listers
  return at the time of a call, with informers that run and have synced; \<open>kubeAt\<close> is what they return in a state.
\<close>

record ('ls, 'w) PolicyManager =
  pm_kube :: "'ls kube"
  pm_ipset :: "'w ipset_iface"
  pm_iptables :: "'w iptables_iface"
  pm_sha :: sha
  pm_ordS :: "(string \<times> ipsetTable) list \<Rightarrow> (string \<times> ipsetTable) list"
  pm_ordC :: "(string \<times> string) list \<Rightarrow> (string \<times> string) list"
  pm_hostName :: string

text \<open>
  The state: the policies in memory, whether \<^verbatim>\<open>podInformerOnce\<close> has run (which sets \<^verbatim>\<open>namespaceLister\<close>), and the world.
\<close>

record ('ls, 'w) pm_state =
  ps_policies :: "'ls policy list"
  ps_started :: bool
  ps_world :: 'w

text \<open>\<^verbatim>\<open>NewPolicyManager\<close>; the handles are made for IPv4, and the host name is asked for once.\<close>

definition NewPolicyManager :: "'ls kube \<Rightarrow> 'w ipset_iface \<Rightarrow> 'w iptables_iface \<Rightarrow> sha \<Rightarrow>
    ((string \<times> ipsetTable) list \<Rightarrow> (string \<times> ipsetTable) list) \<Rightarrow> ((string \<times> string) list \<Rightarrow> (string \<times> string) list) \<Rightarrow>
    'w \<Rightarrow> ('ls, 'w) PolicyManager \<times> ('ls, 'w) pm_state" where
  "NewPolicyManager client ipset iptables sha ordS ordC w =
     (\<lparr>pm_kube = client, pm_ipset = ipset, pm_iptables = iptables, pm_sha = sha, pm_ordS = ordS, pm_ordC = ordC,
       pm_hostName = kb_Hostname client\<rparr>, \<lparr>ps_policies = [], ps_started = False, ps_world = w\<rparr>)"

definition kubeAt :: "bool \<Rightarrow> 'ls kube \<Rightarrow> 'ls kube" where
  "kubeAt started k =
     (if started then k\<lparr>kb_PodsSynced := True\<rparr>
      else k\<lparr>kb_ListPods := (\<lambda>_ _. Ok []), kb_ListNamespaces := (\<lambda>_. Panic), kb_PodsSynced := False\<rparr>)"

definition onWorld :: "('ls policy list \<Rightarrow> bool \<Rightarrow> ('w, unit) act) \<Rightarrow> (('ls, 'w) pm_state, unit) act" where
  "onWorld m = (\<lambda>s. case m (ps_policies s) (ps_started s) (ps_world s) of (r, w') \<Rightarrow> (r, s\<lparr>ps_world := w'\<rparr>))"

text \<open>
  \<^verbatim>\<open>startPodInformerFactory\<close> does its work once, and returns when the pods and namespaces are in the caches. A manager whose
  caches never sync does not return from this call.
\<close>

definition startPodInformerFactory :: "(('ls, 'w) pm_state, unit) act" where
  "startPodInformerFactory = (\<lambda>s. (Ok (), s\<lparr>ps_started := True\<rparr>))"

text \<open>\<^verbatim>\<open>syncNetworkPolices\<close> keeps the old policies when they cannot be listed.\<close>

definition syncNetworkPolices :: "('ls, 'w) PolicyManager \<Rightarrow> (('ls, 'w) pm_state, unit) act" where
  "syncNetworkPolices pm =
     acase (\<lambda>s. (kb_ListPolicies (pm_kube pm), s))
       (\<lambda>nps. abind (if length nps > 0 then startPodInformerFactory else aret ()) (\<lambda>_.
          abind (\<lambda>s. (syncPoliciesLoop (pm_sha pm) (kubeAt (ps_started s) (pm_kube pm)) nps, s)) (\<lambda>policies s.
          (Ok (), s\<lparr>ps_policies := policies\<rparr>))))
       (\<lambda>_. aret ())"

definition syncNetworkPolicyRules :: "('ls, 'w) PolicyManager \<Rightarrow> (('ls, 'w) pm_state, unit) act" where
  "syncNetworkPolicyRules pm = onWorld (\<lambda>ps _.
     aignore (syncRules (pm_ipset pm) (pm_iptables pm) (pm_sha pm) (pm_ordS pm) (pm_ordC pm) ps))"

text \<open>
  The goroutines of \<^verbatim>\<open>syncPods\<close> each synchronize one pod and are waited for; here they run one after the other,
  in the order they are started.
\<close>

definition syncPods :: "('ls, 'w) PolicyManager \<Rightarrow> (('ls, 'w) pm_state, unit) act" where
  "syncPods pm = onWorld (\<lambda>ps started.
     let k = kubeAt started (pm_kube pm);
         sync = (\<lambda>pods. afor pods (\<lambda>pod. aignore (SyncPodChains (pm_iptables pm) (pm_sha pm) k ps pod)))
     in if kb_PodsSynced k
        then (case kb_ListPods k [] Everything of
            Ok pods \<Rightarrow> sync (filter (\<lambda>p. pod_NodeName p = kb_Hostname k) pods)
          | Err _ \<Rightarrow> aret ()
          | Panic \<Rightarrow> apanic)
        else (case kb_NodePods k of
            Ok pods \<Rightarrow> sync pods
          | Err _ \<Rightarrow> aret ()
          | Panic \<Rightarrow> apanic))"

definition pm_Run :: "('ls, 'w) PolicyManager \<Rightarrow> (('ls, 'w) pm_state, unit) act" where
  "pm_Run pm = abind (syncNetworkPolices pm) (\<lambda>_. abind (syncNetworkPolicyRules pm) (\<lambda>_. syncPods pm))"

section \<open>Events\<close>

definition AddPod :: "('ls, 'w) PolicyManager \<Rightarrow> Pod \<Rightarrow> (('ls, 'w) pm_state, unit) act" where
  "AddPod pm pod = aret ()"

definition UpdatePod :: "('ls, 'w) PolicyManager \<Rightarrow> Pod \<Rightarrow> Pod \<Rightarrow> (('ls, 'w) pm_state, unit) act" where
  "UpdatePod pm oldPod newPod = onWorld (\<lambda>ps started.
     let k = kubeAt started (pm_kube pm) in
     abind (if pod_NodeName newPod = pm_hostName pm
            then aignore (SyncPodChains (pm_iptables pm) (pm_sha pm) k ps newPod) else aret ()) (\<lambda>_.
     if pod_PodIP newPod \<noteq> [] then SyncPodIPInIPSet (pm_ipset pm) k ps newPod True else aret ()))"

definition DeletePod :: "('ls, 'w) PolicyManager \<Rightarrow> Pod \<Rightarrow> (('ls, 'w) pm_state, unit) act" where
  "DeletePod pm pod = onWorld (\<lambda>ps started.
     let k = kubeAt started (pm_kube pm) in
     abind (if pod_NodeName pod = pm_hostName pm
            then aignore (deletePodChains (pm_iptables pm) (pm_sha pm) pod) else aret ()) (\<lambda>_.
     if pod_PodIP pod \<noteq> [] then SyncPodIPInIPSet (pm_ipset pm) k ps pod False else aret ()))"

definition AddPolicy :: "('ls, 'w) PolicyManager \<Rightarrow> 'ls NetworkPolicy \<Rightarrow> (('ls, 'w) pm_state, unit) act" where
  "AddPolicy pm policy = abind startPodInformerFactory (\<lambda>_.
     abind (syncNetworkPolices pm) (\<lambda>_. abind (syncNetworkPolicyRules pm) (\<lambda>_. syncPods pm)))"

definition UpdatePolicy :: "('ls, 'w) PolicyManager \<Rightarrow> 'ls NetworkPolicy \<Rightarrow> 'ls NetworkPolicy \<Rightarrow> (('ls, 'w) pm_state, unit) act" where
  "UpdatePolicy pm oldPolicy newPolicy =
     abind (syncNetworkPolices pm) (\<lambda>_. abind (syncNetworkPolicyRules pm) (\<lambda>_. syncPods pm))"

definition DeletePolicy :: "('ls, 'w) PolicyManager \<Rightarrow> 'ls NetworkPolicy \<Rightarrow> (('ls, 'w) pm_state, unit) act" where
  "DeletePolicy pm policy = abind (syncNetworkPolices pm) (\<lambda>_. abind (syncPods pm) (\<lambda>_. syncNetworkPolicyRules pm))"

end
