(* ===== verification/EventHandler.thy ===== *)
theory EventHandler
  imports PolicyEvents
begin

text \<open>
  \<^verbatim>\<open>pkg/api/k8s/eventhandler\<close>: the handlers between the informers and the policy manager. An informer passes any
  object: \<open>OtherObject\<close> stands for whatever is neither a pod nor a policy, such as the
  \<^verbatim>\<open>cache.DeletedFinalStateUnknown\<close> that takes the place of an object whose deletion was missed. The watchers are the two
  interfaces as records; the policy manager is both.
\<close>

datatype 'ls k8sObject = PodObject Pod | PolicyObject "'ls NetworkPolicy" | OtherObject string

record 'w PodWatcher =
  pw_AddPod :: "Pod \<Rightarrow> ('w, unit) act"
  pw_UpdatePod :: "Pod \<Rightarrow> Pod \<Rightarrow> ('w, unit) act"
  pw_DeletePod :: "Pod \<Rightarrow> ('w, unit) act"

record ('ls, 'w) NetworkPolicyWatcher =
  nw_AddPolicy :: "'ls NetworkPolicy \<Rightarrow> ('w, unit) act"
  nw_UpdatePolicy :: "'ls NetworkPolicy \<Rightarrow> 'ls NetworkPolicy \<Rightarrow> ('w, unit) act"
  nw_DeletePolicy :: "'ls NetworkPolicy \<Rightarrow> ('w, unit) act"

definition toPod :: "'ls k8sObject \<Rightarrow> Pod option" where
  "toPod obj = (case obj of PodObject pod \<Rightarrow> Some pod | _ \<Rightarrow> None)"

definition toPolicy :: "'ls k8sObject \<Rightarrow> 'ls NetworkPolicy option" where
  "toPolicy obj = (case obj of PolicyObject policy \<Rightarrow> Some policy | _ \<Rightarrow> None)"

definition Pod_OnAdd :: "'w PodWatcher \<Rightarrow> 'ls k8sObject \<Rightarrow> ('w, unit) act" where
  "Pod_OnAdd e obj = (case toPod obj of None \<Rightarrow> aret () | Some pod \<Rightarrow> aignore (pw_AddPod e pod))"

definition Pod_OnUpdate :: "'w PodWatcher \<Rightarrow> 'ls k8sObject \<Rightarrow> 'ls k8sObject \<Rightarrow> ('w, unit) act" where
  "Pod_OnUpdate e oldObj newObj =
     (case toPod oldObj of None \<Rightarrow> aret ()
      | Some oldPod \<Rightarrow> (case toPod newObj of None \<Rightarrow> aret () | Some newPod \<Rightarrow> aignore (pw_UpdatePod e oldPod newPod)))"

definition Pod_OnDelete :: "'w PodWatcher \<Rightarrow> 'ls k8sObject \<Rightarrow> ('w, unit) act" where
  "Pod_OnDelete e obj = (case toPod obj of None \<Rightarrow> aret () | Some pod \<Rightarrow> aignore (pw_DeletePod e pod))"

definition Policy_OnAdd :: "('ls, 'w) NetworkPolicyWatcher \<Rightarrow> 'ls k8sObject \<Rightarrow> ('w, unit) act" where
  "Policy_OnAdd e obj = (case toPolicy obj of None \<Rightarrow> aret () | Some policy \<Rightarrow> aignore (nw_AddPolicy e policy))"

definition Policy_OnUpdate :: "('ls, 'w) NetworkPolicyWatcher \<Rightarrow> 'ls k8sObject \<Rightarrow> 'ls k8sObject \<Rightarrow> ('w, unit) act" where
  "Policy_OnUpdate e oldObj newObj =
     (case toPolicy oldObj of None \<Rightarrow> aret ()
      | Some oldPolicy \<Rightarrow> (case toPolicy newObj of None \<Rightarrow> aret () | Some newPolicy \<Rightarrow> aignore (nw_UpdatePolicy e oldPolicy newPolicy)))"

definition Policy_OnDelete :: "('ls, 'w) NetworkPolicyWatcher \<Rightarrow> 'ls k8sObject \<Rightarrow> ('w, unit) act" where
  "Policy_OnDelete e obj = (case toPolicy obj of None \<Rightarrow> aret () | Some policy \<Rightarrow> aignore (nw_DeletePolicy e policy))"

text \<open>The policy manager as a watcher.\<close>

definition podWatcher :: "('ls, 'w) PolicyManager \<Rightarrow> (('ls, 'w) pm_state) PodWatcher" where
  "podWatcher pm = \<lparr>pw_AddPod = AddPod pm, pw_UpdatePod = UpdatePod pm, pw_DeletePod = DeletePod pm\<rparr>"

definition policyWatcher :: "('ls, 'w) PolicyManager \<Rightarrow> ('ls, ('ls, 'w) pm_state) NetworkPolicyWatcher" where
  "policyWatcher pm = \<lparr>nw_AddPolicy = AddPolicy pm, nw_UpdatePolicy = UpdatePolicy pm, nw_DeletePolicy = DeletePolicy pm\<rparr>"

text \<open>\<^verbatim>\<open>initInformers\<close> registers the handlers: which one an event of the two informers calls.\<close>

datatype 'ls informerEvent =
    PodAdded "'ls k8sObject" | PodUpdated "'ls k8sObject" "'ls k8sObject" | PodDeleted "'ls k8sObject"
  | PolicyAdded "'ls k8sObject" | PolicyUpdated "'ls k8sObject" "'ls k8sObject" | PolicyDeleted "'ls k8sObject"

fun initInformers :: "('ls, 'w) PolicyManager \<Rightarrow> 'ls informerEvent \<Rightarrow> (('ls, 'w) pm_state, unit) act" where
  "initInformers pm (PodAdded obj) = Pod_OnAdd (podWatcher pm) obj"
| "initInformers pm (PodUpdated old obj) = Pod_OnUpdate (podWatcher pm) old obj"
| "initInformers pm (PodDeleted obj) = Pod_OnDelete (podWatcher pm) obj"
| "initInformers pm (PolicyAdded obj) = Policy_OnAdd (policyWatcher pm) obj"
| "initInformers pm (PolicyUpdated old obj) = Policy_OnUpdate (policyWatcher pm) old obj"
| "initInformers pm (PolicyDeleted obj) = Policy_OnDelete (policyWatcher pm) obj"

lemma aignore_no_Err: "fst (aignore m w) \<noteq> Err e"
  by (auto simp: aignore_def acase_def aret_def split: prod.splits result.splits)

text \<open>A handler reports no error to the informer, and a deletion that was missed does not reach the manager: the
  chains and ipset entries of the pod stay.\<close>

lemma handlers_report_nothing:
  "fst (Pod_OnAdd e obj w) \<noteq> Err t" "fst (Pod_OnUpdate e obj obj' w) \<noteq> Err t" "fst (Pod_OnDelete e obj w) \<noteq> Err t"
  by (auto simp: aignore_no_Err Pod_OnAdd_def Pod_OnUpdate_def Pod_OnDelete_def aret_def split: option.splits)

lemma missed_delete_ignored: "Pod_OnDelete (podWatcher pm) (OtherObject t) ps = (Ok (), ps)"
  by (simp add: Pod_OnDelete_def toPod_def aret_def)

end
