(* ===== verification/PolicyRuns.thy ===== *)
theory PolicyRuns
  imports PolicySync EventHandler
begin

text \<open>
  The runs of the policy manager: its handlers and the periodic \<^verbatim>\<open>Run\<close>, in any order, while the objects of the
  cluster change. A step is a call that returns; \<open>pms\<close> are the managers that differ in what the listers return.
\<close>

section \<open>Runs\<close>

datatype 'ls pmCall = RunTick | Informed "'ls informerEvent"

definition pm_call :: "('ls, 'w) PolicyManager \<Rightarrow> 'ls pmCall \<Rightarrow> (('ls, 'w) pm_state, unit) act" where
  "pm_call pm c = (case c of RunTick \<Rightarrow> pm_Run pm | Informed ev \<Rightarrow> initInformers pm ev)"

inductive pm_reach :: "('ls, 'w) PolicyManager set \<Rightarrow> 'w \<Rightarrow> ('ls, 'w) pm_state \<Rightarrow> bool" for pms w where
  Start: "pm_reach pms w \<lparr>ps_policies = [], ps_started = False, ps_world = w\<rparr>"
| Call: "pm_reach pms w s \<Longrightarrow> pm \<in> pms \<Longrightarrow> pm_call pm c s = (r, s') \<Longrightarrow> pm_reach pms w s'"

section \<open>No panic\<close>

text \<open>\<open>calm m\<close>: the call does not panic.\<close>

named_theorems calm

definition calm_act :: "('w, 'a) act \<Rightarrow> bool" where
  "calm_act m \<longleftrightarrow> (\<forall>w. fst (m w) \<noteq> Panic)"

lemma calm_basic [calm]: "calm_act (aret x)" "calm_act (aerr e)"
  by (simp_all add: calm_act_def aret_def aerr_def)

lemma calm_bind [calm]: "calm_act m \<Longrightarrow> (\<And>x. calm_act (f x)) \<Longrightarrow> calm_act (abind m f)"
  by (auto simp: calm_act_def abind_def split: prod.splits result.splits) (metis fst_conv)+

lemma calm_case [calm]: "calm_act m \<Longrightarrow> (\<And>x. calm_act (f x)) \<Longrightarrow> (\<And>e. calm_act (h e)) \<Longrightarrow> calm_act (acase m f h)"
  by (auto simp: calm_act_def acase_def split: prod.splits result.splits) (metis fst_conv)+

lemma calm_ignore [calm]: "calm_act m \<Longrightarrow> calm_act (aignore m)"
  unfolding aignore_def by (intro calm)

lemma calm_wrap [calm]: "calm_act m \<Longrightarrow> calm_act (awrap f m)"
  unfolding awrap_def by (intro calm)

lemma calm_for: "(\<And>x. x \<in> set xs \<Longrightarrow> calm_act (body x)) \<Longrightarrow> calm_act (afor xs body)"
  by (induction xs) (auto intro: calm)

lemma calm_defer [calm]: "calm_act d \<Longrightarrow> calm_act m \<Longrightarrow> calm_act (adefer d m)"
  by (auto simp: calm_act_def adefer_def split: prod.splits result.splits) (metis fst_conv)+

text \<open>The handles run commands and never panic, and the chain lines of what is saved have their blanks.\<close>

definition saved_ok :: "'w iptables_iface \<Rightarrow> bool" where
  "saved_ok T \<longleftrightarrow> (\<forall>w. case ipti_SaveInto T ''filter'' w of (Ok raw, _) \<Rightarrow> GetChainLines ''filter'' raw \<noteq> Panic | _ \<Rightarrow> True)"

definition calm_handles :: "'w ipset_iface \<Rightarrow> 'w iptables_iface \<Rightarrow> bool" where
  "calm_handles H T \<longleftrightarrow>
     (\<forall>a b. calm_act (ips_CreateSet H a b)) \<and> (\<forall>n. calm_act (ips_ListEntries H n)) \<and> calm_act (ips_ListSets H) \<and>
     (\<forall>n. calm_act (ips_DestroySet H n)) \<and> (\<forall>e s i. calm_act (ips_AddEntryWithOptions H e s i)) \<and>
     (\<forall>n e os. calm_act (ips_DelEntryWithOptions H n e os)) \<and>
     (\<forall>t c. calm_act (ipti_EnsureChain T t c)) \<and> (\<forall>t c. calm_act (ipti_FlushChain T t c)) \<and> (\<forall>t c. calm_act (ipti_DeleteChain T t c)) \<and>
     (\<forall>p t c as. calm_act (ipti_EnsureRule T p t c as)) \<and> (\<forall>t c as. calm_act (ipti_DeleteRule T t c as)) \<and>
     (\<forall>t c as. calm_act (ipti_ListRule T t c as)) \<and> (\<forall>t. calm_act (ipti_SaveInto T t)) \<and> (\<forall>d f c. calm_act (ipti_RestoreAll T d f c)) \<and>
     saved_ok T"

lemma calm_handlesD:
  assumes "calm_handles H T"
  shows "calm_act (ips_CreateSet H a b)" "calm_act (ips_ListEntries H n)" "calm_act (ips_ListSets H)" "calm_act (ips_DestroySet H n)"
    "calm_act (ips_AddEntryWithOptions H e st i)" "calm_act (ips_DelEntryWithOptions H n l os)"
    "calm_act (ipti_EnsureChain T t c)" "calm_act (ipti_FlushChain T t c)" "calm_act (ipti_DeleteChain T t c)"
    "calm_act (ipti_EnsureRule T p t c as)" "calm_act (ipti_DeleteRule T t c as)" "calm_act (ipti_ListRule T t c as)"
    "calm_act (ipti_SaveInto T t)" "calm_act (ipti_RestoreAll T d f ct)"
    "saved_ok T"
  using assms by (simp_all add: calm_handles_def)

lemma calm_if [calm]: "(b \<Longrightarrow> calm_act m) \<Longrightarrow> (\<not> b \<Longrightarrow> calm_act m') \<Longrightarrow> calm_act (if b then m else m')"
  by simp

lemma calm_createIPSet: "calm_handles H T \<Longrightarrow> calm_act (createIPSet H m)"
  unfolding createIPSet_def createOne_def Let_def
  by (intro calm_for, clarsimp) (intro calm calm_for calm_handlesD; assumption)

lemma calm_syncIptables:
  assumes HT: "calm_handles H T"
  shows "calm_act (syncIptables T sha ordC ps)"
proof -
  have r: "calm_act (awrap f (ipti_RestoreAll T d fl c))" for f d fl c by (intro calm calm_handlesD[OF HT])
  show ?thesis unfolding calm_act_def
  proof
    fix w
    obtain x w1 where x: "ipti_SaveInto T ''filter'' w = (x, w1)" by (cases "ipti_SaveInto T ''filter'' w")
    have "x \<noteq> Panic" using calm_handlesD(13)[OF HT, of "''filter''"] x unfolding calm_act_def by (metis fst_conv)
    then show "fst (syncIptables T sha ordC ps w) \<noteq> Panic"
      using r x calm_handlesD(15)[OF HT, unfolded saved_ok_def, rule_format, of w] unfolding calm_act_def
      by (cases x) (auto simp: syncIptables_def abind_def awrap_def acase_def aerr_def aret_def Let_def split: result.splits)
  qed
qed

lemma calm_syncRules: "calm_handles H T \<Longrightarrow> calm_act (syncRules H T sha ordS ordC ps)"
  unfolding syncRules_def destroyStale_def Let_def
  by (intro calm calm_for calm_createIPSet calm_syncIptables; (intro calm_handlesD; assumption)?)

lemma calm_deletePodChains: "calm_handles H T \<Longrightarrow> calm_act (deletePodChains T sha pod)"
  unfolding deletePodChains_def deletePodRuleByKeyword_def Let_def
  by (intro calm; intro calm_handlesD; assumption)

lemma calm_SyncPodChains: "calm_handles H T \<Longrightarrow> calm_act (SyncPodChains T sha k ps pod)"
  unfolding SyncPodChains_def ensureBasicChain_def ensureJump_def syncPodRule_def Let_def
  by (cases "filterMatchingPolicies k pod ps") (simp only: prod.case, intro calm calm_deletePodChains; (intro calm_handlesD)?; assumption)

lemma calm_addOrDel: "calm_handles H T \<Longrightarrow> calm_act (addOrDelIPSetEntry H add st ip)"
  unfolding addOrDelIPSetEntry_def Let_def by (intro calm; intro calm_handlesD; assumption)

section \<open>The policies in memory\<close>

text \<open>
  What the manager relies on in the cluster: selectors are valid, the listers read their caches, and a policy has rules
  only for the directions it is for. The API server checks the selectors, but not the directions.
\<close>

definition directed :: "'ls NetworkPolicy \<Rightarrow> bool" where
  "directed np \<longleftrightarrow> (np_Ingress np \<noteq> [] \<longrightarrow> fst (ingressOrEgress np)) \<and> (np_Egress np \<noteq> [] \<longrightarrow> snd (ingressOrEgress np))"

definition good_kube :: "'ls kube \<Rightarrow> bool" where
  "good_kube k \<longleftrightarrow> (\<forall>ls. is_Ok (kb_AsSelector k ls)) \<and> (\<forall>ns s. is_Ok (kb_ListPods k ns s)) \<and> (\<forall>s. is_Ok (kb_ListNamespaces k s)) \<and>
     kb_NodePods k \<noteq> Panic \<and> (case kb_ListPolicies k of Ok nps \<Rightarrow> list_all directed nps | Err _ \<Rightarrow> True | Panic \<Rightarrow> False)"

definition selective :: "'ls NetworkPolicyPeer \<Rightarrow> bool" where
  "selective peer \<longleftrightarrow> peer_PodSelector peer \<noteq> None \<or> peer_NamespaceSelector peer \<noteq> None"

text \<open>Every rule with a selector among its peers has its set of addresses.\<close>

definition rules_ok :: "'ls NetworkPolicyRule list \<Rightarrow> rule list option \<Rightarrow> bool" where
  "rules_ok irs rs \<longleftrightarrow> (\<forall>i < length irs. \<forall>peer \<in> set (npr_Peers (irs ! i)). selective peer \<longrightarrow> is_Ok (ruleSet rs i))"

definition pol_ok :: "'ls policy \<Rightarrow> bool" where
  "pol_ok p \<longleftrightarrow> (pol_ingressRule p \<noteq> None \<or> pol_egressRule p \<noteq> None) \<and>
     rules_ok (np_Ingress (pol_np p)) (map_option ing_srcRules (pol_ingressRule p)) \<and>
     rules_ok (np_Egress (pol_np p)) (map_option eg_dstRules (pol_egressRule p))"

definition listers_ok :: "'ls kube \<Rightarrow> bool" where
  "listers_ok k \<longleftrightarrow> (\<forall>ls. is_Ok (kb_AsSelector k ls)) \<and> (\<forall>ns s. is_Ok (kb_ListPods k ns s)) \<and> (\<forall>s. is_Ok (kb_ListNamespaces k s))"

lemma listers_okD:
  assumes "listers_ok k"
  shows "\<exists>s. kb_AsSelector k ls = Ok s" "\<exists>ps. kb_ListPods k ns sel = Ok ps" "\<exists>nss. kb_ListNamespaces k sel = Ok nss"
  using assms by (simp_all add: listers_ok_def is_Ok_iff)

lemma podSelectorToTable_ok:
  assumes "listers_ok k"
  shows "\<exists>t. podSelectorToTable k ls ns = Ok t \<and> set_SetType (tbl_IPSet t) = HashIP"
proof -
  obtain s where s: "kb_AsSelector k ls = Ok s" using listers_okD[OF assms] by blast
  obtain ps where "kb_ListPods k ns s = Ok ps" using listers_okD[OF assms] by blast
  then show ?thesis using s by (simp add: podSelectorToTable_def)
qed

lemma getNamespaces_ok:
  assumes "listers_ok k"
  shows "\<exists>nss. getNamespaces k ls = Ok nss"
proof -
  obtain s where s: "kb_AsSelector k ls = Ok s" using listers_okD[OF assms] by blast
  obtain nss where "kb_ListNamespaces k s = Ok nss" using listers_okD[OF assms] by blast
  then show ?thesis using s by (simp add: getNamespaces_def)
qed

lemma rmap_total: "(\<And>x. x \<in> set xs \<Longrightarrow> is_Ok (f x)) \<Longrightarrow> \<exists>ys. rmap f xs = Ok ys"
proof (induction xs)
  case (Cons x xs)
  obtain y ys where "f x = Ok y" "rmap f xs = Ok ys" using Cons.IH Cons.prems by (metis is_Ok_iff list.set_intros)
  then show ?case by simp
qed simp

lemma namespaceSelectorToTable_ok:
  assumes "listers_ok k"
  shows "\<exists>t. namespaceSelectorToTable k ls = Ok t \<and> set_SetType (tbl_IPSet t) = HashIP"
proof -
  obtain nss where n: "getNamespaces k ls = Ok nss" using getNamespaces_ok[OF assms] by blast
  let ?f = "\<lambda>ns. case kb_ListPods k (ns_Name ns) Everything of
              Err e \<Rightarrow> Err (''failed to list pods in namespace '' @ ns_Name ns @ '': '' @ e) | r \<Rightarrow> r"
  have "is_Ok (?f ns)" for ns
  proof -
    obtain ps where "kb_ListPods k (ns_Name ns) Everything = Ok ps" using listers_okD[OF assms] by blast
    then show ?thesis by simp
  qed
  then obtain lists where "rmap ?f nss = Ok lists" using rmap_total[of nss ?f] by blast
  then show ?thesis using n by (simp add: namespaceSelectorToTable_def)
qed

lemma formatCidr_calm: "formatCidr c \<noteq> Panic"
  by (auto simp: formatCidr_def ParseCIDR_def Let_def split: option.splits prod.splits list.splits)

lemma peerTable_calm: "listers_ok k \<Longrightarrow> peerTable k peer \<noteq> Panic"
  using podSelectorToTable_ok[of k _ "[]"] namespaceSelectorToTable_ok[of k] rmap_no_panic[of _ formatCidr] formatCidr_calm
  by (auto simp: peerTable_def ipBlockToTable_def rbind_eq_Panic split: option.splits) (metis result.distinct(3))+

lemma peerTable_selective:
  "listers_ok k \<Longrightarrow> selective peer \<Longrightarrow> \<exists>t. peerTable k peer = Ok t \<and> set_SetType (tbl_IPSet t) = HashIP"
  using podSelectorToTable_ok[of k _ "[]"] namespaceSelectorToTable_ok[of k]
  by (auto simp: peerTable_def selective_def split: option.splits)

lemma addPeerTable_keeps: "rule_ipTable r \<noteq> None \<Longrightarrow> rule_ipTable (addPeerTable r t) \<noteq> None"
  by (auto simp: addPeerTable_def mergeTable_def split: option.splits)

lemma peerLoop_ok:
  assumes "listers_ok k"
  shows "\<exists>r'. peerLoop k r peers = Ok r' \<and> (rule_ipTable r \<noteq> None \<or> list_ex selective peers \<longrightarrow> rule_ipTable r' \<noteq> None)"
proof (induction peers arbitrary: r)
  case (Cons p ps)
  show ?case
  proof (cases "peerTable k p")
    case (Ok t)
    have "rule_ipTable r \<noteq> None \<or> selective p \<Longrightarrow> rule_ipTable (addPeerTable r t) \<noteq> None"
      using addPeerTable_keeps[of r t] peerTable_selective[OF assms, of p] Ok
      by (auto simp: addPeerTable_def mergeTable_def split: option.splits)
    then show ?thesis using Cons.IH[of "addPeerTable r t"] Ok by auto
  next
    case (Err e)
    then have "\<not> selective p" using peerTable_selective[OF assms, of p] by auto
    then show ?thesis using Cons.IH[of r] Err by auto
  qed (use peerTable_calm[OF assms, of p] in simp)
qed simp

lemma directionRules_ok:
  assumes "listers_ok k"
  shows "\<exists>rs. directionRules k dir h irs = Ok rs \<and> rules_ok irs (Some rs)"
proof -
  let ?f = "\<lambda>(i, ir). rbind (peerRule k (npr_Ports ir) (npr_Peers ir)) (\<lambda>r. Ok (nameRule dir h i r))"
  have one: "\<exists>r. ?f (i, ir) = Ok r \<and> (list_ex selective (npr_Peers ir) \<longrightarrow> rule_ipTable r \<noteq> None)" for i ir
  proof -
    obtain a b where ab: "rulePorts (npr_Ports ir) = (a, b)" by (cases "rulePorts (npr_Ports ir)")
    obtain r where "peerLoop k \<lparr>rule_ipTable = None, rule_netTable = None, rule_tcpPorts = a, rule_udpPorts = b\<rparr> (npr_Peers ir) = Ok r"
      "list_ex selective (npr_Peers ir) \<longrightarrow> rule_ipTable r \<noteq> None" using peerLoop_ok[OF assms] by blast
    then show ?thesis using ab by (simp add: peerRule_def nameRule_def)
  qed
  then have "is_Ok (?f x)" if "x \<in> set (enumerate 0 irs)" for x using that by (cases x) (fastforce simp: is_Ok_iff)
  then obtain rs where rs: "rmap ?f (enumerate 0 irs) = Ok rs" using rmap_total[of "enumerate 0 irs" ?f] by blast
  have l: "list_all2 (\<lambda>x y. ?f x = Ok y) (enumerate 0 irs) rs" using rs by (simp add: rmap_Ok_iff)
  have "is_Ok (ruleSet (Some rs) i)" if "i < length irs" "peer \<in> set (npr_Peers (irs ! i))" "selective peer" for i peer
  proof -
    have n: "i < length rs" "?f (i, irs ! i) = Ok (rs ! i)"
      using list_all2_lengthD[OF l] list_all2_nthD[OF l, of i] that(1) by (simp_all add: nth_enumerate_eq)
    have "list_ex selective (npr_Peers (irs ! i))" using that(2,3) by (auto simp: list_ex_iff)
    then have "rule_ipTable (rs ! i) \<noteq> None" using one[of i "irs ! i"] n(2) by auto
    then show ?thesis using n(1) by (auto simp: ruleSet_def)
  qed
  then show ?thesis using rs by (auto simp: directionRules_def rules_ok_def)
qed

lemma policyResult_ok:
  assumes "listers_ok k" and "directed np"
  shows "\<exists>i e. policyResult sha k np = Ok (i, e) \<and> pol_ok \<lparr>pol_ingressRule = i, pol_egressRule = e, pol_np = np\<rparr>"
proof -
  let ?h = "tableNameHash sha (np_Name np @ ''_'' @ np_Namespace np)"
  obtain t where t: "podSelectorToTable k (np_PodSelector np) (np_Namespace np) = Ok t" using podSelectorToTable_ok[OF assms(1)] by blast
  obtain a where a: "directionRules k ''s'' ?h (np_Ingress np) = Ok a" "rules_ok (np_Ingress np) (Some a)"
    using directionRules_ok[OF assms(1)] by blast
  obtain b where b: "directionRules k ''d'' ?h (np_Egress np) = Ok b" "rules_ok (np_Egress np) (Some b)"
    using directionRules_ok[OF assms(1)] by blast
  obtain ing eg where ie: "ingressOrEgress np = (ing, eg)" by (cases "ingressOrEgress np")
  have some: "ing \<or> eg" using ie by (auto simp: ingressOrEgress_def Let_def split: if_splits)
  have none: "rules_ok (np_Ingress np) None" if "\<not> ing" using assms(2) that ie by (auto simp: directed_def rules_ok_def)
  have none': "rules_ok (np_Egress np) None" if "\<not> eg" using assms(2) that ie by (auto simp: directed_def rules_ok_def)
  show ?thesis using t a b ie some none none'
    by (cases ing; cases eg) (simp_all add: policyResult_def Let_def pol_ok_def)
qed

lemma syncPoliciesLoop_ok:
  assumes "listers_ok k" and "list_all directed nps"
  shows "\<exists>ps. syncPoliciesLoop sha k nps = Ok ps \<and> list_all pol_ok ps \<and> length ps = length nps"
  using assms(2)
proof (induction nps)
  case (Cons np nps)
  obtain i e where "policyResult sha k np = Ok (i, e)" "pol_ok \<lparr>pol_ingressRule = i, pol_egressRule = e, pol_np = np\<rparr>"
    using policyResult_ok[OF assms(1)] Cons.prems by fastforce
  then show ?case using Cons by auto
qed simp

lemma calm_syncPeer:
  assumes H: "calm_handles H T" and k: "listers_ok k" and r: "selective peer \<Longrightarrow> is_Ok (ruleSet rs i)"
  shows "calm_act (syncPeer H k rs i pod add peer)"
proof -
  have put: "calm_act (case ruleSet rs i of Ok st \<Rightarrow> addOrDelIPSetEntry H add st (pod_PodIP pod) | _ \<Rightarrow> apanic)" if "selective peer"
    using r[OF that] calm_addOrDel[OF H] by (auto simp: is_Ok_iff)
  show ?thesis
  proof (cases "peer_PodSelector peer")
    case (Some ls)
    then obtain s where "kb_AsSelector k ls = Ok s" using listers_okD[OF k] by blast
    then show ?thesis using Some put by (simp add: syncPeer_def selective_def calm)
  next
    case None
    show ?thesis
    proof (cases "peer_NamespaceSelector peer")
      case (Some ls)
      then obtain nss where "getNamespaces k ls = Ok nss" using getNamespaces_ok[OF k] by blast
      then show ?thesis using Some None put by (simp add: syncPeer_def selective_def calm)
    qed (simp add: syncPeer_def None calm)
  qed
qed

lemma calm_peers:
  assumes H: "calm_handles H T" and k: "listers_ok k" and r: "rules_ok irs rs"
  shows "calm_act (afor (enumerate 0 irs) (\<lambda>(i, ir). afor (npr_Peers ir) (syncPeer H k rs i pod add)))"
proof (intro calm_for)
  fix x assume "x \<in> set (enumerate 0 irs)"
  then have "x = (fst x, irs ! fst x)" "fst x < length irs" by (auto simp: in_set_enumerate_eq prod_eq_iff)
  then obtain i where i: "x = (i, irs ! i)" "i < length irs" by blast
  have "calm_act (syncPeer H k rs i pod add peer)" if "peer \<in> set (npr_Peers (irs ! i))" for peer
    by (rule calm_syncPeer[OF H k]) (use r i that in \<open>auto simp: rules_ok_def\<close>)
  then show "calm_act (case x of (i, ir) \<Rightarrow> afor (npr_Peers ir) (syncPeer H k rs i pod add))" by (simp add: i calm_for)
qed

lemma calm_SyncPodIPInIPSet:
  assumes H: "calm_handles H T" and k: "listers_ok k" and "list_all pol_ok ps"
  shows "calm_act (SyncPodIPInIPSet H k ps pod add)"
  unfolding SyncPodIPInIPSet_def
proof (intro calm_for)
  fix p assume "p \<in> set ps"
  then have p: "pol_ok p" using assms(3) by (auto simp: list_all_iff)
  obtain s where s: "kb_AsSelector k (np_PodSelector (pol_np p)) = Ok s" using listers_okD[OF k] by blast
  have "calm_act (syncTarget H p pod add)" using p calm_addOrDel[OF H] by (auto simp: syncTarget_def pol_ok_def split: option.splits)
  moreover have "calm_act (syncIngressInIPSet H k p pod add)" "calm_act (syncEgressInIPSet H k p pod add)"
    unfolding syncIngressInIPSet_def syncEgressInIPSet_def by (intro calm_peers[OF H k]; use p in \<open>simp add: pol_ok_def\<close>)+
  ultimately show "calm_act (case kb_AsSelector k (np_PodSelector (pol_np p)) of Ok s \<Rightarrow>
       abind (if np_Namespace (pol_np p) = pod_Namespace pod \<and> sel_Matches s (pod_Labels pod) then syncTarget H p pod add else aret ())
         (\<lambda>_. abind (syncIngressInIPSet H k p pod add) (\<lambda>_. syncEgressInIPSet H k p pod add)) | Err _ \<Rightarrow> aret () | Panic \<Rightarrow> apanic)"
    unfolding s result.case by (intro calm)
qed

section \<open>The invariant of the manager\<close>

definition good_manager :: "('ls, 'w) PolicyManager \<Rightarrow> bool" where
  "good_manager pm \<longleftrightarrow> good_kube (pm_kube pm) \<and> calm_handles (pm_ipset pm) (pm_iptables pm)"

text \<open>The policies in memory are complete, and there are some only once the informers run.\<close>

definition pm_ok :: "('ls, 'w) pm_state \<Rightarrow> bool" where
  "pm_ok s \<longleftrightarrow> list_all pol_ok (ps_policies s) \<and> (ps_policies s \<noteq> [] \<longrightarrow> ps_started s)"

text \<open>\<open>safe m\<close>: the call keeps the invariant and does not panic.\<close>

definition safe :: "(('ls, 'w) pm_state, 'a) act \<Rightarrow> bool" where
  "safe m \<longleftrightarrow> (\<forall>s. pm_ok s \<longrightarrow> fst (m s) \<noteq> Panic \<and> pm_ok (snd (m s)))"

lemma safe_bind: "safe m \<Longrightarrow> (\<And>x. safe (f x)) \<Longrightarrow> safe (abind m f)"
  unfolding safe_def abind_def by (auto split: prod.splits result.splits)

lemma safe_ignore: "safe m \<Longrightarrow> safe (aignore m)"
  unfolding safe_def aignore_def acase_def aret_def by (auto split: prod.splits result.splits)

lemma safe_aret: "safe (aret x)"
  by (simp add: safe_def aret_def)

lemma safe_onWorld: "(\<And>ps st. list_all pol_ok ps \<Longrightarrow> ps \<noteq> [] \<longrightarrow> st \<Longrightarrow> calm_act (m ps st)) \<Longrightarrow> safe (onWorld m)"
proof -
  assume c: "\<And>ps st. list_all pol_ok ps \<Longrightarrow> ps \<noteq> [] \<longrightarrow> st \<Longrightarrow> calm_act (m ps st)"
  have "fst (m (ps_policies s) (ps_started s) (ps_world s)) \<noteq> Panic" if "pm_ok s" for s
    using c[of "ps_policies s" "ps_started s"] that by (simp add: pm_ok_def calm_act_def)
  moreover have "fst (onWorld m s) = fst (m (ps_policies s) (ps_started s) (ps_world s))" "pm_ok (snd (onWorld m s)) = pm_ok s" for s
    by (simp_all add: onWorld_def pm_ok_def split: prod.splits)
  ultimately show ?thesis by (simp add: safe_def)
qed

lemma good_kubeD:
  assumes "good_kube k"
  shows "listers_ok (kubeAt True k)" "kb_NodePods (kubeAt st k) \<noteq> Panic" "kb_ListPods (kubeAt st k) ns sel \<noteq> Panic"
    "is_Ok (kb_AsSelector (kubeAt st k) ls)"
proof -
  show "listers_ok (kubeAt True k)" using assms by (simp add: good_kube_def listers_ok_def kubeAt_def)
  show "kb_NodePods (kubeAt st k) \<noteq> Panic" using assms by (simp add: good_kube_def kubeAt_def)
  have "is_Ok (kb_ListPods k ns sel)" using assms by (simp add: good_kube_def)
  then show "kb_ListPods (kubeAt st k) ns sel \<noteq> Panic" by (auto simp: kubeAt_def is_Ok_iff)
  show "is_Ok (kb_AsSelector (kubeAt st k) ls)" using assms by (simp add: good_kube_def kubeAt_def)
qed

lemma safe_start: "safe startPodInformerFactory"
  by (simp add: safe_def startPodInformerFactory_def pm_ok_def)

lemma safe_syncNetworkPolices:
  assumes "good_manager pm"
  shows "safe (syncNetworkPolices pm)"
  unfolding safe_def
proof (intro allI impI)
  fix s :: "('a, 'b) pm_state" assume s: "pm_ok s"
  have k: "good_kube (pm_kube pm)" using assms by (simp add: good_manager_def)
  show "fst (syncNetworkPolices pm s) \<noteq> Panic \<and> pm_ok (snd (syncNetworkPolices pm s))"
  proof (cases "kb_ListPolicies (pm_kube pm)")
    case (Ok nps)
    show ?thesis
    proof (cases nps)
      case Nil
      then show ?thesis using Ok by (simp add: syncNetworkPolices_def acase_def abind_def aret_def pm_ok_def)
    next
      case (Cons np rest)
      have "list_all directed nps" using k Ok by (simp add: good_kube_def)
      then obtain ps where "syncPoliciesLoop (pm_sha pm) (kubeAt True (pm_kube pm)) nps = Ok ps" "list_all pol_ok ps"
        using syncPoliciesLoop_ok[OF good_kubeD(1)[OF k]] by blast
      moreover have "length nps > 0" using Cons by simp
      ultimately show ?thesis using Ok by (simp add: syncNetworkPolices_def acase_def abind_def startPodInformerFactory_def pm_ok_def)
    qed
  qed (use k s in \<open>simp_all add: syncNetworkPolices_def acase_def aret_def good_kube_def\<close>)
qed

lemma safe_syncRules: "good_manager pm \<Longrightarrow> safe (syncNetworkPolicyRules pm)"
  unfolding syncNetworkPolicyRules_def good_manager_def by (intro safe_onWorld calm calm_syncRules) auto

lemma safe_syncPods:
  assumes "good_manager pm"
  shows "safe (syncPods pm)"
  unfolding syncPods_def Let_def
proof (intro safe_onWorld calm_if)
  fix ps :: "'a policy list" and st
  let ?k = "kubeAt st (pm_kube pm)"
  have H: "calm_handles (pm_ipset pm) (pm_iptables pm)" and k: "good_kube (pm_kube pm)" using assms by (simp_all add: good_manager_def)
  have sync: "calm_act (afor pods (\<lambda>pod. aignore (SyncPodChains (pm_iptables pm) (pm_sha pm) ?k ps pod)))" for pods
    by (intro calm_for calm calm_SyncPodChains[OF H])
  show "calm_act (case kb_ListPods ?k [] Everything of
     Ok pods \<Rightarrow> afor (filter (\<lambda>p. pod_NodeName p = kb_Hostname ?k) pods) (\<lambda>pod. aignore (SyncPodChains (pm_iptables pm) (pm_sha pm) ?k ps pod))
     | Err _ \<Rightarrow> aret () | Panic \<Rightarrow> apanic)"
    using good_kubeD(3)[OF k] sync by (auto intro: calm split: result.splits)
  show "calm_act (case kb_NodePods ?k of
     Ok pods \<Rightarrow> afor pods (\<lambda>pod. aignore (SyncPodChains (pm_iptables pm) (pm_sha pm) ?k ps pod)) | Err _ \<Rightarrow> aret () | Panic \<Rightarrow> apanic)"
    using good_kubeD(2)[OF k] sync by (auto intro: calm split: result.splits)
qed

lemma calm_podIPs:
  assumes "good_manager pm" and "list_all pol_ok ps" and "ps \<noteq> [] \<longrightarrow> st"
  shows "calm_act (SyncPodIPInIPSet (pm_ipset pm) (kubeAt st (pm_kube pm)) ps pod add)"
proof (cases "ps = []")
  case False
  then show ?thesis
    using calm_SyncPodIPInIPSet[of "pm_ipset pm" "pm_iptables pm" "kubeAt True (pm_kube pm)" ps] good_kubeD(1)[of "pm_kube pm"] assms
    by (simp add: good_manager_def)
qed (simp add: SyncPodIPInIPSet_def calm)

lemma safe_UpdatePod:
  assumes "good_manager pm"
  shows "safe (UpdatePod pm old pod)"
  unfolding UpdatePod_def Let_def
proof (intro safe_onWorld calm)
  fix ps :: "'a policy list" and st assume "list_all pol_ok ps" "ps \<noteq> [] \<longrightarrow> st"
  then show "calm_act (SyncPodIPInIPSet (pm_ipset pm) (kubeAt st (pm_kube pm)) ps pod True)" by (rule calm_podIPs[OF assms])
  show "calm_act (SyncPodChains (pm_iptables pm) (pm_sha pm) (kubeAt st (pm_kube pm)) ps pod)"
    using assms by (intro calm_SyncPodChains[of "pm_ipset pm"]) (simp add: good_manager_def)
qed

lemma safe_DeletePod:
  assumes "good_manager pm"
  shows "safe (DeletePod pm pod)"
  unfolding DeletePod_def Let_def
proof (intro safe_onWorld calm)
  fix ps :: "'a policy list" and st assume "list_all pol_ok ps" "ps \<noteq> [] \<longrightarrow> st"
  then show "calm_act (SyncPodIPInIPSet (pm_ipset pm) (kubeAt st (pm_kube pm)) ps pod False)" by (rule calm_podIPs[OF assms])
  show "calm_act (deletePodChains (pm_iptables pm) (pm_sha pm) pod)"
    using assms by (intro calm_deletePodChains[of "pm_ipset pm"]) (simp add: good_manager_def)
qed

lemmas safe_calls = safe_start safe_syncNetworkPolices safe_syncRules safe_syncPods safe_UpdatePod safe_DeletePod safe_aret

lemma safe_call: "good_manager pm \<Longrightarrow> safe (pm_call pm c)"
proof (cases c)
  case RunTick
  then show "good_manager pm \<Longrightarrow> ?thesis" by (simp add: pm_call_def pm_Run_def safe_bind safe_calls)
next
  case (Informed ev)
  then show "good_manager pm \<Longrightarrow> ?thesis"
    by (cases ev) (auto simp: pm_call_def Pod_OnAdd_def Pod_OnUpdate_def Pod_OnDelete_def Policy_OnAdd_def Policy_OnUpdate_def
        Policy_OnDelete_def podWatcher_def policyWatcher_def AddPod_def AddPolicy_def UpdatePolicy_def DeletePolicy_def
        intro!: safe_ignore safe_bind safe_calls split: option.splits)
qed

lemma reach_ok:
  assumes "pm_reach pms w s" and "\<forall>pm \<in> pms. good_manager pm"
  shows "pm_ok s"
  using assms(1)
proof induction
  case Start
  show ?case by (simp add: pm_ok_def)
next
  case (Call s pm c r s')
  have "pm_ok (snd (pm_call pm c s))" using safe_call[of pm c] Call assms(2) unfolding safe_def by blast
  then show ?case using Call by simp
qed


text \<open>Handles that do nothing, for the witness.\<close>

definition idle_ipset :: "unit ipset_iface" where
  "idle_ipset = \<lparr>ips_FlushSet = (\<lambda>_. aret ()), ips_DestroySet = (\<lambda>_. aret ()), ips_DestroyAllSets = aret (), ips_CreateSet = (\<lambda>_ _. aret ()),
     ips_AddEntry = (\<lambda>_ _ _. aret ()), ips_DelEntry = (\<lambda>_ _. aret ()), ips_TestEntry = (\<lambda>_ _. aret True), ips_ListEntries = (\<lambda>_. aret []),
     ips_ListSets = aret [], ips_GetVersion = aret ''6.19'', ips_AddEntryWithOptions = (\<lambda>_ _ _. aret ()),
     ips_DelEntryWithOptions = (\<lambda>_ _ _. aret ()), ips_SaveAllSets = aret []\<rparr>"

definition idle_iptables :: "unit iptables_iface" where
  "idle_iptables = \<lparr>ipti_EnsureChain = (\<lambda>_ _. aret True), ipti_FlushChain = (\<lambda>_ _. aret ()), ipti_DeleteChain = (\<lambda>_ _. aret ()),
     ipti_EnsureRule = (\<lambda>_ _ _ _. aret True), ipti_DeleteRule = (\<lambda>_ _ _. aret ()), ipti_ListRule = (\<lambda>_ _ _. aret []), ipti_IsIpv6 = False,
     ipti_SaveInto = (\<lambda>_. aret (saveLines [''*filter'', ''COMMIT''])), ipti_EnsurePolicy = (\<lambda>_ _ _. aret ()),
     ipti_Restore = (\<lambda>_ _ _ _. aret ()), ipti_RestoreAll = (\<lambda>_ _ _. aret ())\<rparr>"

definition idle_manager :: "(unit, unit) PolicyManager" where
  "idle_manager = fst (NewPolicyManager demo_kube idle_ipset idle_iptables demo_sha id id ())"

lemma idle_manager_good: "good_manager idle_manager"
proof -
  have "GetChainLines ''filter'' (saveLines [''*filter'', ''COMMIT'']) \<noteq> Panic" by code_simp
  then have "calm_handles idle_ipset idle_iptables"
    by (simp add: calm_handles_def saved_ok_def idle_ipset_def idle_iptables_def calm) (simp add: aret_def)
  moreover have "good_kube demo_kube"
    by (simp add: good_kube_def demo_kube_def directed_def demo_np_def ingressOrEgress_def)
  ultimately show ?thesis by (simp add: good_manager_def idle_manager_def NewPolicyManager_def)
qed


end
