(* ===== verification/PolicyReconcile.thy ===== *)
theory PolicyReconcile
  imports PolicyRuns
begin

text \<open>
  From the cluster to the kernel: after a \<^verbatim>\<open>Run\<close> or an event of a policy the ipsets are exactly those of the policies that the
  lister returned. The part of the handles' contract that this needs beyond \<open>policy_handles\<close> is that no command of iptables touches an
  ipset.
\<close>

section \<open>The stages of a run\<close>

lemma policies_stage:
  assumes "kb_ListPolicies (pm_kube pm) = Ok nps" and "syncNetworkPolices pm s = (Ok (), s')"
  shows "syncPoliciesLoop (pm_sha pm) (kubeAt (ps_started s') (pm_kube pm)) nps = Ok (ps_policies s') \<and>
    ps_started s' = (ps_started s \<or> nps \<noteq> []) \<and> ps_world s' = ps_world s"
  using assms by (auto simp: syncNetworkPolices_def acase_def abind_def startPodInformerFactory_def aret_def split: result.splits if_splits)

text \<open>The members \<open>M'\<close> are the sets that the policies want, over those of others in \<open>M\<close>.\<close>

definition reconciled :: "'ls policy list \<Rightarrow> (string \<Rightarrow> string set option) \<Rightarrow> (string \<Rightarrow> string set option) \<Rightarrow> bool" where
  "reconciled ps M M' \<longleftrightarrow> (\<forall>n. M' n = (case map_of (initIPSetMap ps) n of
       Some t \<Rightarrow> Some (tableLines t) | None \<Rightarrow> if hasPrefix n NamePrefix then None else M n))"

locale manager_handles = policy_handles H inv members T
  for H :: "'w ipset_iface" and inv and members :: "'w \<Rightarrow> string \<Rightarrow> string set option" and T :: "'w iptables_iface" +
  assumes chain_frame: "inv w \<Longrightarrow> inv (snd (ipti_EnsureChain T t c w)) \<and> members (snd (ipti_EnsureChain T t c w)) = members w"
    and flush_frame: "inv w \<Longrightarrow> inv (snd (ipti_FlushChain T t c w)) \<and> members (snd (ipti_FlushChain T t c w)) = members w"
    and remove_frame: "inv w \<Longrightarrow> inv (snd (ipti_DeleteChain T t c w)) \<and> members (snd (ipti_DeleteChain T t c w)) = members w"
    and rule_frame: "inv w \<Longrightarrow> inv (snd (ipti_EnsureRule T p t c as w)) \<and> members (snd (ipti_EnsureRule T p t c as w)) = members w"
    and unrule_frame: "inv w \<Longrightarrow> inv (snd (ipti_DeleteRule T t c as w)) \<and> members (snd (ipti_DeleteRule T t c as w)) = members w"
    and list_frame: "inv w \<Longrightarrow> inv (snd (ipti_ListRule T t c as w)) \<and> members (snd (ipti_ListRule T t c as w)) = members w"
begin

definition framed :: "('w, 'a) act \<Rightarrow> bool" where
  "framed m \<longleftrightarrow> (\<forall>w. inv w \<longrightarrow> inv (snd (m w)) \<and> members (snd (m w)) = members w)"

lemma framed_basic: "framed (aret x)" "framed (aerr e)" "framed apanic"
  by (simp_all add: framed_def aret_def aerr_def apanic_def)

lemma framed_bind: "framed m \<Longrightarrow> (\<And>x. framed (f x)) \<Longrightarrow> framed (abind m f)"
  unfolding framed_def abind_def by (auto split: prod.splits result.splits)

lemma framed_case: "framed m \<Longrightarrow> (\<And>x. framed (f x)) \<Longrightarrow> (\<And>e. framed (h e)) \<Longrightarrow> framed (acase m f h)"
  unfolding framed_def acase_def by (auto split: prod.splits result.splits)

lemma framed_wrap: "framed m \<Longrightarrow> framed (awrap f m)"
  unfolding awrap_def by (intro framed_case framed_basic)

lemma framed_ignore: "framed m \<Longrightarrow> framed (aignore m)"
  unfolding aignore_def by (intro framed_case framed_basic)

lemma framed_if: "(b \<Longrightarrow> framed m) \<Longrightarrow> (\<not> b \<Longrightarrow> framed m') \<Longrightarrow> framed (if b then m else m')"
  by simp

lemma framed_for: "(\<And>x. framed (body x)) \<Longrightarrow> framed (afor xs body)"
  by (induction xs) (auto intro: framed_basic framed_bind)

lemma framed_commands:
  "framed (ipti_EnsureChain T t c)" "framed (ipti_FlushChain T t c)" "framed (ipti_DeleteChain T t c)" "framed (ipti_EnsureRule T p t c as)"
  "framed (ipti_DeleteRule T t c as)" "framed (ipti_ListRule T t c as)" "framed (ipti_RestoreAll T d fl cn)"
  using chain_frame flush_frame remove_frame rule_frame unrule_frame list_frame restore_frame by (simp_all add: framed_def)

lemmas framed_intros = framed_basic framed_bind framed_case framed_wrap framed_ignore framed_if framed_for framed_commands

lemma framed_SyncPodChains: "framed (SyncPodChains T sha k ps pod)"
  unfolding SyncPodChains_def deletePodChains_def deletePodRuleByKeyword_def ensureBasicChain_def ensureJump_def syncPodRule_def Let_def
  by (cases "filterMatchingPolicies k pod ps") (simp only: prod.case, intro framed_intros)

lemma framed_world:
  assumes "framed m" and "(r, s') = (case m (ps_world s) of (r, w') \<Rightarrow> (r, s\<lparr>ps_world := w'\<rparr>))" and "inv (ps_world s)"
  shows "ps_policies s' = ps_policies s \<and> ps_started s' = ps_started s \<and> inv (ps_world s') \<and> members (ps_world s') = members (ps_world s)"
  using assms by (cases "m (ps_world s)") (auto simp: framed_def)

lemma framed_syncPods:
  assumes "pm_iptables pm = T" and "inv (ps_world s)" and "syncPods pm s = (r, s')"
  shows "ps_policies s' = ps_policies s \<and> ps_started s' = ps_started s \<and> inv (ps_world s') \<and> members (ps_world s') = members (ps_world s)"
proof -
  let ?k = "kubeAt (ps_started s) (pm_kube pm)"
  let ?sync = "\<lambda>pods. afor pods (\<lambda>pod. aignore (SyncPodChains T (pm_sha pm) ?k (ps_policies s) pod))"
  let ?m = "if kb_PodsSynced ?k
        then (case kb_ListPods ?k [] Everything of
            Ok pods \<Rightarrow> ?sync (filter (\<lambda>p. pod_NodeName p = kb_Hostname ?k) pods) | Err _ \<Rightarrow> aret () | Panic \<Rightarrow> apanic)
        else (case kb_NodePods ?k of Ok pods \<Rightarrow> ?sync pods | Err _ \<Rightarrow> aret () | Panic \<Rightarrow> apanic)"
  have f: "framed (?sync pods)" for pods by (intro framed_for framed_ignore framed_SyncPodChains)
  have "framed ?m" using f by (auto intro: framed_basic split: result.splits)
  moreover have "(r, s') = (case ?m (ps_world s) of (r, w') \<Rightarrow> (r, s\<lparr>ps_world := w'\<rparr>))"
    using assms(1,3) by (simp add: syncPods_def onWorld_def Let_def)
  ultimately show ?thesis using assms(2) by (rule framed_world)
qed

lemma rules_stage:
  assumes "pm_ipset pm = H" and "pm_iptables pm = T" and "\<forall>m. mset (pm_ordS pm m) = mset m" and "inv (ps_world s)"
    and "syncNetworkPolicyRules pm s = (r, s')"
  shows "ps_policies s' = ps_policies s \<and> ps_started s' = ps_started s \<and> inv (ps_world s') \<and>
    reconciled (ps_policies s) (members (ps_world s)) (members (ps_world s'))"
proof -
  let ?m = "syncRules H T (pm_sha pm) (pm_ordS pm) (pm_ordC pm) (ps_policies s)"
  have "(r, s') = (case aignore ?m (ps_world s) of (r, w') \<Rightarrow> (r, s\<lparr>ps_world := w'\<rparr>))"
    using assms(1,2,5) by (simp add: syncNetworkPolicyRules_def onWorld_def)
  moreover have "snd (aignore ?m (ps_world s)) = snd (?m (ps_world s))"
    by (auto simp: aignore_def acase_def aret_def split: prod.splits result.splits)
  ultimately have "s' = s\<lparr>ps_world := snd (?m (ps_world s))\<rparr>" by (auto split: prod.splits)
  then show ?thesis using syncRules_reconciles[OF assms(4), of "pm_ordS pm" "ps_policies s"] assms(3) by (simp add: reconciled_def)
qed

text \<open>Policies, then rules, then pods; or, when a policy was deleted, pods before rules.\<close>

lemma run_reconciles:
  assumes pm: "pm_ipset pm = H" "pm_iptables pm = T" "\<forall>m. mset (pm_ordS pm m) = mset m" and i: "inv (ps_world s)"
    and l: "kb_ListPolicies (pm_kube pm) = Ok nps"
    and r: "abind (syncNetworkPolices pm) (\<lambda>_. abind (syncNetworkPolicyRules pm) (\<lambda>_. syncPods pm)) s = (Ok (), s') \<or>
      abind (syncNetworkPolices pm) (\<lambda>_. abind (syncPods pm) (\<lambda>_. syncNetworkPolicyRules pm)) s = (Ok (), s')"
  shows "syncPoliciesLoop (pm_sha pm) (kubeAt (ps_started s') (pm_kube pm)) nps = Ok (ps_policies s') \<and>
    ps_started s' = (ps_started s \<or> nps \<noteq> []) \<and> inv (ps_world s') \<and> reconciled (ps_policies s') (members (ps_world s)) (members (ps_world s'))"
proof -
  obtain s1 where s1: "syncNetworkPolices pm s = (Ok (), s1)" using r by (auto simp: abind_eq_Ok)
  note p = policies_stage[OF l s1, THEN conjunct1] policies_stage[OF l s1, THEN conjunct2, THEN conjunct1]
    policies_stage[OF l s1, THEN conjunct2, THEN conjunct2]
  have i1: "inv (ps_world s1)" using i p by simp
  from r s1 consider
    (rules) s2 where "syncNetworkPolicyRules pm s1 = (Ok (), s2)" "syncPods pm s2 = (Ok (), s')"
  | (pods) s2 where "syncPods pm s1 = (Ok (), s2)" "syncNetworkPolicyRules pm s2 = (Ok (), s')"
    by (auto simp: abind_eq_Ok)
  then show ?thesis
  proof cases
    case rules
    note a = rules_stage[OF pm i1 rules(1)]
    have "inv (ps_world s2)" using a by simp
    from framed_syncPods[OF pm(2) this rules(2)] have "ps_started s' = ps_started s1" "ps_policies s' = ps_policies s1"
      "inv (ps_world s')" "reconciled (ps_policies s1) (members (ps_world s)) (members (ps_world s'))" using a p by simp_all
    then show ?thesis using p by simp
  next
    case pods
    note a = framed_syncPods[OF pm(2) i1 pods(1)]
    have "inv (ps_world s2)" using a by simp
    from rules_stage[OF pm this pods(2)] have "ps_started s' = ps_started s1" "ps_policies s' = ps_policies s1"
      "inv (ps_world s')" "reconciled (ps_policies s1) (members (ps_world s)) (members (ps_world s'))" using a p by simp_all
    then show ?thesis using p by simp
  qed
qed

end

interpretation mh: manager_handles wH winv wmembers wT
  by unfold_locales (auto simp: wT_def lift_iptables_def winv_def wmembers_def onSnd_def split: prod.splits)

section \<open>From the cluster to the ipsets\<close>

text \<open>The calls of the manager return no error.\<close>

definition errless :: "('w, 'a) act \<Rightarrow> bool" where
  "errless m \<longleftrightarrow> (\<forall>w. \<not> is_Err (fst (m w)))"

lemma errless_basic: "errless (aret x)" "errless apanic" "errless (aignore m)" "errless startPodInformerFactory"
  by (auto simp: errless_def aret_def apanic_def aignore_def acase_def startPodInformerFactory_def split: prod.splits result.splits)

lemma errless_bind:
  assumes "errless m" and "\<And>x. errless (f x)"
  shows "errless (abind m f)"
  unfolding errless_def
proof
  fix w
  have "\<not> is_Err (fst (m w))" "\<not> is_Err (fst (f x w'))" for x w' using assms by (auto simp: errless_def)
  then show "\<not> is_Err (fst (abind m f w))" by (auto simp: abind_def split: prod.splits result.splits)
qed

lemmas errless_intros = errless_basic errless_bind

lemma errless_for: "(\<And>x. errless (body x)) \<Longrightarrow> errless (afor xs body)"
  by (induction xs) (auto intro: errless_intros)

lemma errless_onWorld: "(\<And>ps st. errless (m ps st)) \<Longrightarrow> errless (onWorld m)"
  by (auto simp: errless_def onWorld_def split: prod.splits) (metis fst_conv)

lemma syncPoliciesLoop_errless: "\<not> is_Err (syncPoliciesLoop sha k nps)"
  by (induction nps) (auto simp: is_Err_iff rbind_eq_Err split: result.splits prod.splits)

lemma errless_manager: "errless (syncNetworkPolices pm)" "errless (syncNetworkPolicyRules pm)" "errless (syncPods pm)"
proof -
  show "errless (syncNetworkPolices pm)"
    using syncPoliciesLoop_errless
    by (auto simp: errless_def syncNetworkPolices_def acase_def abind_def startPodInformerFactory_def aret_def is_Err_iff split: result.splits)
  show "errless (syncNetworkPolicyRules pm)" unfolding syncNetworkPolicyRules_def by (intro errless_onWorld errless_intros)
  show "errless (syncPods pm)" unfolding syncPods_def Let_def
    by (intro errless_onWorld) (auto intro!: errless_for errless_intros split: result.splits)
qed

lemma errless_ignored: "errless m \<Longrightarrow> aignore m x = (Ok (), x') \<Longrightarrow> \<exists>y. m x = (Ok y, x')"
  by (auto simp: errless_def aignore_def acase_def aret_def is_Err_iff split: prod.splits result.splits) (metis fst_conv)

text \<open>The calls that take up the policies.\<close>

fun policyCall :: "'ls pmCall \<Rightarrow> bool" where
  "policyCall RunTick = True"
| "policyCall (Informed (PolicyAdded (PolicyObject _))) = True"
| "policyCall (Informed (PolicyUpdated (PolicyObject _) (PolicyObject _))) = True"
| "policyCall (Informed (PolicyDeleted (PolicyObject _))) = True"
| "policyCall _ = False"


text \<open>A manager on the in-memory handles with one policy and one pod.\<close>

definition fake_manager :: "(unit, world) PolicyManager" where
  "fake_manager = fst (NewPolicyManager demo_kube wH wT demo_sha rev id demo_world)"

definition fresh_state :: "(unit, world) pm_state" where
  "fresh_state = snd (NewPolicyManager demo_kube wH wT demo_sha rev id demo_world)"

lemma fake_manager_runs:
  "case pm_call fake_manager RunTick fresh_state of (r, s) \<Rightarrow> r = Ok () \<and> map_of (initIPSetMap (ps_policies s)) ''GLX-ip-OLD'' = None"
  by code_simp


end
