(* ===== verification/PasswordTool.thy ===== *)
theory PasswordTool
  imports Backend
begin

text \<open>
  \<^verbatim>\<open>scripts/encrypt.go\<close>, the tool that encrypts the password of the OpenStack user for the configuration file, and
  \<^verbatim>\<open>NewEncrypter\<close> of \<^verbatim>\<open>pkg/ipam/backend/neutron/utils.go\<close>, which makes the cipher the plugins read it with.
  \<^verbatim>\<open>aes.NewCipher\<close> is the parameter \<open>newCipher\<close>, from a key to a function on blocks.
\<close>

type_synonym newCipher = "8 word list \<Rightarrow> (8 word list \<Rightarrow> 8 word list) result"

definition utils_keyText :: string where
  "utils_keyText = ''aabcice12798akljzmknm.ahkjkljl;k''"

record encrypter =
  en_cip :: "8 word list \<Rightarrow> 8 word list"
  en_commonIV :: "8 word list"

definition NewEncrypter :: "newCipher \<Rightarrow> encrypter option" where
  "NewEncrypter newCipher = (case newCipher (stringBytes utils_keyText) of
      Ok cip \<Rightarrow> Some \<lparr>en_cip = cip, en_commonIV = commonIV\<rparr>
    | _ \<Rightarrow> None)"

text \<open>
  \<^verbatim>\<open>Scan\<close> and \<^verbatim>\<open>Text\<close> of a \<^verbatim>\<open>bufio.Scanner\<close>: the first line of the input without its end of line; nothing when there
  is no input or the line does not fit in the buffer of 64 KB.
\<close>

definition maxToken :: nat where "maxToken = 65536"

definition scanText :: "string \<Rightarrow> string" where
  "scanText input =
     (let line = takeWhile (\<lambda>c. c \<noteq> CHR 0x0A) input in
      if length line \<ge> maxToken then []
      else if line \<noteq> [] \<and> last line = CHR 0x0D then butlast line
      else line)"

definition tool_keyText :: string where
  "tool_keyText = ''aabcice12798akljzmknm.ahkjkljl;k''"

definition tool_commonIV :: "8 word list" where
  "tool_commonIV = [0x00, 0x01, 0x02, 0x03, 0x04, 0x05, 0x06, 0x07, 0x08, 0x09, 0x0a, 0x0b, 0x0c, 0x0d, 0x0e, 0x0f]"

text \<open>The result is what the tool prints.\<close>

definition encrypt_main :: "newCipher \<Rightarrow> string \<Rightarrow> string result" where
  "encrypt_main newCipher stdin =
     (case newCipher (stringBytes tool_keyText) of
        Ok cip \<Rightarrow>
          (let plainText = scanText stdin;
               cipherText = cfbEncrypt cip tool_commonIV (stringBytes plainText)
           in Ok (''Please input your password: '' @ ''Encrypted string is: '' @ hexString cipherText @ [CHR 0x0A]))
      | _ \<Rightarrow> Panic)"

text \<open>What a user copies from the output into the configuration: the text behind the last colon and blank, up to the end of the line.\<close>

definition copied :: "string \<Rightarrow> string" where
  "copied out = takeWhile (\<lambda>c. c \<noteq> CHR 0x0A) (drop (length ''Please input your password: '' + length ''Encrypted string is: '') out)"

lemma hexString_one_line: "CHR 0x0A \<notin> set (hexString bs)"
proof -
  have "hexDigit k \<noteq> CHR 0x0A" if "k < 16" for k
  proof
    assume "hexDigit k = CHR 0x0A"
    then have "of_char (hexDigit k) = (10 :: nat)" by simp
    then show False using that by (auto simp: hexDigit_def of_char_of split: if_splits)
  qed
  note digit = this
  have "CHR 0x0A \<notin> set (hexByte b)" for b
  proof -
    have "unat b div 16 < 16" "unat b mod 16 < 16" using unat8_less[of b] by (simp_all del: unat8_less)
    then show ?thesis using digit[of "unat b div 16"] digit[of "unat b mod 16"] by (auto simp: hexByte_def)
  qed
  then show ?thesis by (simp add: hexString_def)
qed

lemma copied_output:
  "copied (''Please input your password: '' @ ''Encrypted string is: '' @ hexString bs @ [CHR 0x0A]) = hexString bs"
proof -
  have "takeWhile (\<lambda>c. c \<noteq> CHR 0x0A) (hexString bs @ [CHR 0x0A]) = hexString bs"
    using hexString_one_line[of bs] by (subst takeWhile_append2) auto
  then show ?thesis by (simp add: copied_def)
qed

text \<open>C40. The plugins read the password that was given to the tool: for every block function with blocks of 16 bytes, every password of one
  line that fits in the scanner's buffer and does not end in a carriage return is what the plugins' cipher makes of the string the tool prints.\<close>

theorem password_tool_roundtrip:
  assumes "newCipher (stringBytes utils_keyText) = Ok cip" and "\<forall>b. length (cip b) = 16"
    and "CHR 0x0A \<notin> set password" and "length password < maxToken" and "password \<noteq> [] \<longrightarrow> last password \<noteq> CHR 0x0D"
  shows "\<exists>out en. encrypt_main newCipher (password @ CHR 0x0A # rest) = Ok out \<and> NewEncrypter newCipher = Some en \<and>
    aesDecrypt (en_cip en) (copied out) = Ok password"
proof -
  have "takeWhile (\<lambda>c. c \<noteq> CHR 0x0A) (password @ CHR 0x0A # rest) = password"
    using assms(3) by (subst takeWhile_append2) auto
  then have s: "scanText (password @ CHR 0x0A # rest) = password" using assms(4,5) by (auto simp: scanText_def Let_def)
  have k: "tool_keyText = utils_keyText" "tool_commonIV = commonIV"
    by (simp_all add: tool_keyText_def utils_keyText_def tool_commonIV_def commonIV_def)
  let ?out = "''Please input your password: '' @ ''Encrypted string is: '' @ aesEncrypt cip password @ [CHR 0x0A]"
  have o: "encrypt_main newCipher (password @ CHR 0x0A # rest) = Ok ?out"
    using assms(1) by (simp only: encrypt_main_def s k Let_def aesEncrypt_def result.case)
  have e: "NewEncrypter newCipher = Some \<lparr>en_cip = cip, en_commonIV = commonIV\<rparr>" using assms(1) by (simp add: NewEncrypter_def)
  have "copied ?out = aesEncrypt cip password" unfolding aesEncrypt_def by (rule copied_output)
  then have "aesDecrypt (en_cip \<lparr>en_cip = cip, en_commonIV = commonIV\<rparr>) (copied ?out) = Ok password"
    using aes_roundtrip[OF assms(2), of password] by (simp only: encrypter.select_convs)
  with o e show ?thesis by blast
qed

theorem password_tool_roundtrip_witness:
  "\<exists>out en. encrypt_main (\<lambda>k. Ok (\<lambda>b. take 16 k)) (''secret'' @ [CHR 0x0A]) = Ok out \<and>
     NewEncrypter (\<lambda>k. Ok (\<lambda>b. take 16 k)) = Some en \<and> aesDecrypt (en_cip en) (copied out) = Ok ''secret''"
  by (rule password_tool_roundtrip[where cip = "\<lambda>b. take 16 (stringBytes utils_keyText)" and rest = "[]"])
    (simp_all add: utils_keyText_def stringBytes_def maxToken_def)

end
