(* ===== verification/IPAMPlugin.thy ===== *)
theory IPAMPlugin
  imports StoreProps
begin

text \<open>
  \<^verbatim>\<open>cmd/tcnp-ipam/ipam.go\<close>: the IPAM plugin, which loads the configuration, makes the store and lets the
  allocator reserve or release the address of a container, and \<^verbatim>\<open>parseResolvConf\<close>. The composition of
  \<^verbatim>\<open>Backend\<close>, \<^verbatim>\<open>Stores\<close> and \<^verbatim>\<open>Allocator\<close>: an ADD followed by a DEL gives everything back.
  \<^verbatim>\<open>json.Unmarshal\<close>, \<^verbatim>\<open>types.LoadArgs\<close> and \<^verbatim>\<open>types.PrintResult\<close> are parameters; \<open>printResult\<close> is the text
  \<^verbatim>\<open>PrintResult\<close> writes to the standard output, or its error.
\<close>

section \<open>Reading a resolv.conf\<close>

record DNS =
  dns_Nameservers :: "string list"
  dns_Domain :: string
  dns_Search :: "string list"
  dns_Options :: "string list"

definition noDNS :: DNS where
  "noDNS = \<lparr>dns_Nameservers = [], dns_Domain = [], dns_Search = [], dns_Options = []\<rparr>"

text \<open>
  \<^verbatim>\<open>bufio.Scanner\<close> with its default split function: the lines between line feeds without one
  trailing carriage return, no last line when the text ends with a line feed. A line of
  \<^verbatim>\<open>MaxScanTokenSize\<close> bytes or more fills the buffer and ends the scan with \<^verbatim>\<open>ErrTooLong\<close>.
\<close>

definition MaxScanTokenSize :: nat where
  "MaxScanTokenSize = 64 * 1024"

definition dropCR :: "string \<Rightarrow> string" where
  "dropCR s = (if s \<noteq> [] \<and> last s = CHR 0x0D then butlast s else s)"

definition scanLines :: "string \<Rightarrow> string list result" where
  "scanLines s =
     (let ls = split (CHR 0x0A) s;
          ls = (if last ls = [] then butlast ls else ls)
      in if list_ex (\<lambda>l. MaxScanTokenSize \<le> length l) ls then Err ''bufio.Scanner: token too long''
         else Ok (map dropCR ls))"

definition resolvLine :: "DNS \<Rightarrow> string \<Rightarrow> DNS" where
  "resolvLine dns line0 =
     (let line = trimSpace line0 in
      if length line = 0 \<or> line ! 0 = CHR ''#'' \<or> line ! 0 = CHR '';'' then dns
      else
      let fs = strFields line in
      if length fs < 2 then dns
      else if fs ! 0 = ''nameserver'' then dns\<lparr>dns_Nameservers := dns_Nameservers dns @ [fs ! 1]\<rparr>
      else if fs ! 0 = ''domain'' then dns\<lparr>dns_Domain := fs ! 1\<rparr>
      else if fs ! 0 = ''search'' then dns\<lparr>dns_Search := dns_Search dns @ drop 1 fs\<rparr>
      else if fs ! 0 = ''options'' then dns\<lparr>dns_Options := dns_Options dns @ drop 1 fs\<rparr>
      else dns)"

text \<open>\<^verbatim>\<open>os.Open\<close> for reading, and reading the open file to its end.\<close>

definition osOpen :: "string \<Rightarrow> ('c, unit) sysact" where
  "osOpen path = guardFault (OpOpen path) (\<lambda>w.
     if pathClean path \<in> set (sys_dirs w) \<or> map_of (sys_files w) (pathClean path) \<noteq> None then (Ok (), w)
     else (Err (''open '' @ path @ '': no such file or directory''), w))"

definition osReadAll :: "string \<Rightarrow> ('c, string) sysact" where
  "osReadAll path = guardFault (OpReadFile path) (\<lambda>w.
     case map_of (sys_files w) (pathClean path) of
       Some s \<Rightarrow> (Ok s, w)
     | None \<Rightarrow> (Err (''read '' @ path @ '': is a directory''), w))"

definition parseResolvConf :: "string \<Rightarrow> ('c, DNS) sysact" where
  "parseResolvConf filename =
     abind (osOpen filename) (\<lambda>_.
     abind (osReadAll filename) (\<lambda>contents.
     abind (alift (scanLines contents)) (\<lambda>lines.
     aret (foldl resolvLine noDNS lines))))"

section \<open>The commands\<close>

record Result =
  cr_IPs :: "IPConfig list"
  cr_Routes :: "string list"
  cr_DNS :: DNS

record CmdArgs =
  ca_ContainerID :: string
  ca_Netns :: string
  ca_IfName :: string
  ca_Args :: string
  ca_StdinData :: string

definition ipam_cmdAdd ::
  "'c env \<Rightarrow> (string \<Rightarrow> Net result) \<Rightarrow> (string \<Rightarrow> ip result) \<Rightarrow> (Result \<Rightarrow> string \<Rightarrow> string result) \<Rightarrow>
     CmdArgs \<Rightarrow> ('c, string) sysact" where
  "ipam_cmdAdd env unmarshal loadArgs printResult args =
     abind (alift (LoadIPAMConfig env unmarshal loadArgs (ca_StdinData args) (ca_Args args))) (\<lambda>(ipamConf, confVersion).
     abind (if ic_ResolvConf ipamConf \<noteq> [] then parseResolvConf (ic_ResolvConf ipamConf) else aret noDNS) (\<lambda>dns.
     abind (StoreFactory env ipamConf) (\<lambda>store.
     adefer (sClose (Store_iface env store))
       (abind (IPAllocator_Get (Store_iface env store) (ca_ContainerID args)) (\<lambda>ipConf.
        alift (printResult \<lparr>cr_IPs = [ipConf], cr_Routes = ic_Routes ipamConf, cr_DNS = dns\<rparr> confVersion))))))"

definition ipam_cmdDel ::
  "'c env \<Rightarrow> (string \<Rightarrow> Net result) \<Rightarrow> (string \<Rightarrow> ip result) \<Rightarrow> CmdArgs \<Rightarrow> ('c, unit) sysact" where
  "ipam_cmdDel env unmarshal loadArgs args =
     abind (alift (LoadIPAMConfig env unmarshal loadArgs (ca_StdinData args) (ca_Args args))) (\<lambda>(ipamConf, _).
     abind (StoreFactory env ipamConf) (\<lambda>store.
     adefer (sClose (Store_iface env store))
       (IPAllocator_Release (Store_iface env store) (ca_ContainerID args))))"


section \<open>An ADD followed by a DEL\<close>

lemma parseResolvConf_reads: "snd (parseResolvConf f w) = w"
  by (auto simp: parseResolvConf_def osOpen_def osReadAll_def guardFault_def act_simps
    split: option.splits result.splits prod.splits)

lemma noLocks_sel:
  assumes "noLocks w = noLocks w'"
  shows "sys_cloud w = sys_cloud w'" "sys_files w = sys_files w'" "sys_fault w = sys_fault w'"
  using assms by (metis noLocks_def setLocks_sel)+

lemma Mix_close:
  assumes "no_faults w"
  shows "\<exists>w'. Store_Close (Mix s) w = (Ok (), w') \<and> noLocks w' = noLocks w \<and> fl_path (ms_FileLock s) \<notin> set (sys_flocks w')"
  using assms by (simp add: Store_Close_def onLock_def FileLock_Close_def guardFault_def no_faults_def noLocks_def setLocks_def)

lemma Mix_lock: "no_faults w \<Longrightarrow> fst (Store_Lock (Mix s) w) = Ok ()"
  by (simp add: lock_op_defs no_faults_def)

lemma no_faults_unlock: "no_faults w \<Longrightarrow> unlockWorks w"
  by (simp add: no_faults_def unlockWorks_def)

lemma lockFree_no_faults: "lockFree m \<Longrightarrow> no_faults w \<Longrightarrow> no_faults (snd (m w))"
  by (simp add: lockFree_def no_faults_def)

lemma Store_iface_Close [simp]: "sClose (Store_iface env s) = Store_Close s"
  by (simp add: Store_iface_def)

text \<open>What a successful ADD on the mix store did: the bare reservation, with the lock free.\<close>

lemma ipam_cmdAdd_Mix:
  assumes conf: "LoadIPAMConfig env unmarshal loadArgs (ca_StdinData args) (ca_Args args) = Ok (conf, ver)"
    and mk: "StoreFactory env conf w = (Ok (Mix s), w0)"
    and add: "ipam_cmdAdd env unmarshal loadArgs printResult args w = (Ok out, w1)"
    and w: "no_faults w0"
  obtains r wr where "MixStore_Reserve env s (ca_ContainerID args) w0 = (Ok r, wr)" "noLocks w1 = noLocks wr" "no_faults w1"
proof -
  let ?S = "Store_iface env (Mix s)" and ?cid = "ca_ContainerID args"
  obtain x wg where g: "IPAllocator_Get ?S ?cid w0 = (x, wg)" by (cases "IPAllocator_Get ?S ?cid w0")
  have G: "x = mapResult toIPConfig (fst (MixStore_Reserve env s ?cid w0))"
    "noLocks wg = noLocks (snd (MixStore_Reserve env s ?cid w0))"
    using st.Get_locked[where env = env and s = "Mix s" and i = ?cid, OF _ no_faults_unlock[OF w]] Mix_lock[OF w, of s] g
    by simp_all
  have "x \<noteq> Err e" "x \<noteq> Panic" for e
    using add conf mk g parseResolvConf_reads[of "ic_ResolvConf conf" w]
    by (auto simp: ipam_cmdAdd_def act_simps split: if_splits prod.splits result.splits)
  then obtain r wr where r: "MixStore_Reserve env s ?cid w0 = (Ok r, wr)"
    using G(1) by (cases "MixStore_Reserve env s ?cid w0"; cases "fst (MixStore_Reserve env s ?cid w0)") auto
  have "no_faults wr" using lockFree_no_faults[OF lockFree_Reserve w, of env "Mix s" ?cid] r by simp
  then have "no_faults wg" using noLocks_sel(3)[OF G(2)] r by (simp add: no_faults_def)
  then obtain wc where wc: "Store_Close (Mix s) wg = (Ok (), wc)" "noLocks wc = noLocks wg"
    using Mix_close by blast
  have "w1 = wc"
    using add conf mk g wc(1) parseResolvConf_reads[of "ic_ResolvConf conf" w]
    by (auto simp: ipam_cmdAdd_def act_simps split: if_splits prod.splits result.splits)
  then show ?thesis
    using that r G(2) wc(2) \<open>no_faults wg\<close> noLocks_sel(3)[OF wc(2)] by (simp add: no_faults_def)
qed

lemma ipam_cmdDel_Mix:
  assumes conf: "LoadIPAMConfig env unmarshal loadArgs (ca_StdinData args) (ca_Args args) = Ok (conf, ver)"
    and mk: "StoreFactory env conf w = (Ok (Mix s), w0)" and w: "no_faults w0"
    and rel: "MixStore_ReleaseByID env s (ca_ContainerID args) w0 = (x, wr)"
  obtains w2 where "ipam_cmdDel env unmarshal loadArgs args w = (x, w2)" "noLocks w2 = noLocks wr"
    "fl_path (ms_FileLock s) \<notin> set (sys_flocks w2)"
proof -
  let ?S = "Store_iface env (Mix s)" and ?cid = "ca_ContainerID args"
  obtain y wg where g: "IPAllocator_Release ?S ?cid w0 = (y, wg)" by (cases "IPAllocator_Release ?S ?cid w0")
  have G: "y = x" "noLocks wg = noLocks wr"
    using st.Release_locked[where env = env and s = "Mix s" and i = ?cid, OF _ no_faults_unlock[OF w]] Mix_lock[OF w, of s] g rel
    by simp_all
  have "no_faults wr" using lockFree_no_faults[OF lockFree_ReleaseByID w, of env "Mix s" ?cid] rel by simp
  then have "no_faults wg" using noLocks_sel(3)[OF G(2)] by (simp add: no_faults_def)
  then obtain wc where wc: "Store_Close (Mix s) wg = (Ok (), wc)" "noLocks wc = noLocks wg"
      "fl_path (ms_FileLock s) \<notin> set (sys_flocks wc)"
    using Mix_close by blast
  show ?thesis
    by (rule that[of wc]) (use conf mk g wc G in \<open>auto simp: ipam_cmdDel_def act_simps\<close>)
qed



definition demo_ipam :: IPAMConfig where
  "demo_ipam = \<lparr>ic_Range = None, ic_Name = ''n'', ic_Type = ''tcnp-ipam'', ic_Routes = [''0.0.0.0/0''], ic_IPArgs = [], ic_ResolvConf = [],
      ic_OpenStackConf = Some \<lparr>os_UserName = ''u'', os_PassWord = [], os_Project = ''p'', os_Domain = ''d'', os_AuthUrl = ''http://k/v3''\<rparr>,
      ic_NeutronConf = Some \<lparr>nc_Mode = ''mix'', nc_DataDir = ''/d'', nc_HostInterface = ''eth0'', nc_Networks = [''n'']\<rparr>\<rparr>"

definition demo_mixnet :: Net where
  "demo_mixnet = \<lparr>net_Name = ''n'', net_CNIVersion = ''0.3.1'', net_IPAM = Some demo_ipam, net_IPRanges = [], net_Args = None\<rparr>"

definition demo_args :: CmdArgs where
  "demo_args = \<lparr>ca_ContainerID = ''c1'', ca_Netns = ''/ns'', ca_IfName = ''eth0'', ca_Args = [], ca_StdinData = ''{}''\<rparr>"

definition demo_node :: "democloud sys" where
  "demo_node = demo_sys\<lparr>sys_files := [(''/d/10.0.0.9'', ''c0'')]\<rparr>"

definition demo_print :: "Result \<Rightarrow> string \<Rightarrow> string result" where
  "demo_print r v = Ok (join '' '' (v # map (\<lambda>i. netString (ipc_Address i)) (cr_IPs r) @ dns_Nameservers (cr_DNS r)))"


abbreviation demo_add :: "string result \<times> democloud sys" where
  "demo_add \<equiv> ipam_cmdAdd demo_env (\<lambda>_. Ok demo_mixnet) (\<lambda>_. Ok []) demo_print demo_args demo_node"

abbreviation demo_made :: "Store result \<times> democloud sys" where
  "demo_made \<equiv> StoreFactory demo_env demo_ipam demo_node"

definition sys_view :: "fsop \<Rightarrow> 'c sys \<Rightarrow>
    'c \<times> (string \<times> string) list \<times> string list \<times> string list \<times> bool list \<times> Port list \<times> string option \<times> string option" where
  "sys_view x w = (sys_cloud w, sys_files w, sys_dirs w, sys_flocks w, sys_mutexes w, sys_ports w, sys_hostname w, sys_fault w x)"

lemma sys_view_eq: "(\<And>x. map_prod id (sys_view x) m = map_prod id (sys_view x) n) \<Longrightarrow> m = n"
  by (cases m; cases n) (auto simp: sys_view_def fun_eq_iff intro!: sys.equality)

definition demo_withLock :: "democloud sys" where
  "demo_withLock = demo_node\<lparr>sys_files := (''/d/lock'', []) # sys_files demo_node\<rparr>"

definition demo_added :: "democloud sys" where
  "demo_added = demo_withLock\<lparr>sys_files := (''/d/10.0.0.10'', ''c1'') # sys_files demo_withLock,
     sys_cloud := (sys_cloud demo_node)\<lparr>dc_ports := [(''p'', demo_hostPort\<lparr>po_FixedIPs := po_FixedIPs demo_hostPort @
       [\<lparr>fi_SubnetID = ''s'', fi_IPAddress = ''10.0.0.10''\<rparr>]\<rparr>)]\<rparr>\<rparr>"

lemma demo_made_eq: "demo_made = (Ok (Mix demo_mix), demo_withLock)"
  by (rule sys_view_eq) code_simp

lemma demo_add_eq: "demo_add = (Ok ''0.3.1 10.0.0.10/24'', demo_added)"
  by (rule sys_view_eq) code_simp

lemma demo_again_eq: "StoreFactory demo_env demo_ipam demo_added = (Ok (Mix demo_mix), demo_added)"
  by (rule sys_view_eq) code_simp

lemma demo_loads: "LoadIPAMConfig demo_env (\<lambda>_. Ok demo_mixnet) (\<lambda>_. Ok []) (ca_StdinData demo_args) (ca_Args demo_args) = Ok (demo_ipam, ''0.3.1'')"
  by code_simp




section \<open>A printed resolv.conf is read back\<close>

definition plainWord :: "string \<Rightarrow> bool" where
  "plainWord s \<longleftrightarrow> s \<noteq> [] \<and> list_all (\<lambda>c. \<not> isSpace c) s"

definition resolvText :: "DNS \<Rightarrow> string list" where
  "resolvText dns = map (\<lambda>n. join '' '' [''nameserver'', n]) (dns_Nameservers dns) @
     (if dns_Domain dns = [] then [] else [join '' '' [''domain'', dns_Domain dns]]) @
     (if dns_Search dns = [] then [] else [join '' '' (''search'' # dns_Search dns)]) @
     (if dns_Options dns = [] then [] else [join '' '' (''options'' # dns_Options dns)])"

definition resolvComment :: "string \<Rightarrow> bool" where
  "resolvComment l \<longleftrightarrow> (let t = trimSpace l in t = [] \<or> hd t = CHR ''#'' \<or> hd t = CHR '';'')"

lemma strFields_acc_word: "list_all (\<lambda>c. \<not> isSpace c) s \<Longrightarrow>
    strFields_acc acc (s @ t) = strFields_acc (rev s @ acc) t"
  by (induction s arbitrary: acc) simp_all

lemma strFields_join: "list_all plainWord ws \<Longrightarrow> strFields (join '' '' ws) = ws"
proof (induction ws)
  case Nil
  then show ?case by (simp add: strFields_def)
next
  case (Cons w ws)
  have w: "w \<noteq> []" "list_all (\<lambda>c. \<not> isSpace c) w" using Cons.prems by (auto simp: plainWord_def)
  show ?case
  proof (cases "ws = []")
    case True
    then show ?thesis using strFields_acc_word[OF w(2), of "[]" "[]"] w(1) by (simp add: strFields_def)
  next
    case False
    have "isSpace (CHR '' '')" by (simp add: isSpace_def)
    then show ?thesis
      using False Cons strFields_acc_word[OF w(2), of "[]" "'' '' @ join '' '' ws"] w(1)
      by (simp add: strFields_def join_Cons)
  qed
qed

lemma join_ends:
  assumes "list_all plainWord ws" and "ws \<noteq> []"
  shows "join '' '' ws \<noteq> [] \<and> hd (join '' '' ws) = hd (hd ws) \<and> \<not> isSpace (last (join '' '' ws)) \<and> \<not> isSpace (hd (join '' '' ws))"
  using assms
proof (induction ws)
  case Nil
  then show ?case by simp
next
  case (Cons w ws)
  have w: "w \<noteq> []" "\<not> isSpace (hd w)" "\<not> isSpace (last w)" using Cons.prems by (auto simp: plainWord_def list_all_iff)
  show ?case using Cons w by (cases "ws = []") (auto simp: join_Cons)
qed

lemma resolvLine_words:
  assumes "list_all plainWord ws" and "2 \<le> length ws" and "hd (hd ws) \<noteq> CHR ''#''" and "hd (hd ws) \<noteq> CHR '';''"
  shows "resolvLine dns (join '' '' ws) =
     (if ws ! 0 = ''nameserver'' then dns\<lparr>dns_Nameservers := dns_Nameservers dns @ [ws ! 1]\<rparr>
      else if ws ! 0 = ''domain'' then dns\<lparr>dns_Domain := ws ! 1\<rparr>
      else if ws ! 0 = ''search'' then dns\<lparr>dns_Search := dns_Search dns @ drop 1 ws\<rparr>
      else if ws ! 0 = ''options'' then dns\<lparr>dns_Options := dns_Options dns @ drop 1 ws\<rparr>
      else dns)"
proof -
  have ne: "ws \<noteq> []" using assms(2) by auto
  note j = join_ends[OF assms(1) ne]
  have "trimSpace (join '' '' ws) = join '' '' ws" unfolding trimSpace_def by (rule trimBy_id) (use j in auto)
  moreover have "join '' '' ws ! 0 = hd (hd ws)" using j hd_conv_nth[of "join '' '' ws"] by metis
  ultimately show ?thesis using assms j by (simp add: resolvLine_def strFields_join Let_def)
qed

lemma resolvLine_comment: "resolvComment l \<Longrightarrow> resolvLine dns l = dns"
  by (auto simp: resolvComment_def resolvLine_def Let_def hd_conv_nth)

lemma resolvLine_dropCR: "resolvLine dns (dropCR l) = resolvLine dns l"
proof -
  have "trimSpace (butlast l) = trimSpace l" if l: "l \<noteq> []" "last l = CHR 0x0D"
  proof -
    define m where "m = butlast l"
    have e: "l = m @ [CHR 0x0D]" using l by (metis append_butlast_last_id m_def)
    have s: "isSpace (CHR 0x0D)" by (simp add: isSpace_def)
    show ?thesis
    proof (cases "\<forall>c \<in> set m. isSpace c")
      case True
      then have d: "dropWhile isSpace m = []" "dropWhile isSpace l = []" using e s by auto
      show ?thesis unfolding trimSpace_def trimBy_def m_def[symmetric] d ..
    next
      case False
      then have "dropWhile isSpace (m @ [CHR 0x0D]) = dropWhile isSpace m @ [CHR 0x0D]" by (auto simp: dropWhile_append)
      then show ?thesis using e s by (simp add: trimSpace_def trimBy_def)
    qed
  qed
  then show ?thesis by (auto simp: dropCR_def resolvLine_def)
qed

lemma fold_resolvLine_filter:
  "foldl resolvLine dns (map dropCR ls) = foldl resolvLine dns (filter (\<lambda>l. \<not> resolvComment l) ls)"
  by (induction ls arbitrary: dns) (simp_all add: resolvLine_dropCR resolvLine_comment)

lemma scanLines_lines:
  assumes "\<forall>l \<in> set ls. CHR 0x0A \<notin> set l \<and> length l < MaxScanTokenSize"
  shows "scanLines (concat (map (\<lambda>l. l @ [CHR 0x0A]) ls)) = Ok (map dropCR ls)"
proof -
  have "split (CHR 0x0A) (concat (map (\<lambda>l. l @ [CHR 0x0A]) ls)) = ls @ [[]]"
    using assms by (induction ls) (simp_all add: split_append_sep)
  then show ?thesis using assms by (auto simp: scanLines_def list_ex_iff Let_def)
qed

lemma nameserver_lines:
  "list_all plainWord ns \<Longrightarrow> foldl resolvLine dns (map (\<lambda>n. join '' '' [''nameserver'', n]) ns) =
     dns\<lparr>dns_Nameservers := dns_Nameservers dns @ ns\<rparr>"
proof (induction ns arbitrary: dns)
  case Nil
  then show ?case by simp
next
  case (Cons n ns)
  have "list_all plainWord [''nameserver'', n]" using Cons.prems by (simp add: plainWord_def isSpace_def)
  from resolvLine_words[OF this] Cons show ?case by simp
qed

lemma resolvText_read:
  assumes "list_all plainWord (dns_Nameservers dns)" and "dns_Domain dns = [] \<or> plainWord (dns_Domain dns)"
    and "list_all plainWord (dns_Search dns)" and "list_all plainWord (dns_Options dns)"
  shows "foldl resolvLine noDNS (resolvText dns) = dns"
proof -
  have k: "plainWord ''domain''" "plainWord ''search''" "plainWord ''options''" by (simp_all add: plainWord_def isSpace_def)
  have d: "resolvLine x (join '' '' [''domain'', d]) = x\<lparr>dns_Domain := d\<rparr>" if "plainWord d" for x d
    using resolvLine_words[of "[''domain'', d]" x] that k by simp
  have s: "resolvLine x (join '' '' (''search'' # ws)) = x\<lparr>dns_Search := dns_Search x @ ws\<rparr>"
    if "list_all plainWord ws" "ws \<noteq> []" for x ws
    using resolvLine_words[of "''search'' # ws" x] that k by (cases ws) simp_all
  have t: "resolvLine x (join '' '' (''options'' # ws)) = x\<lparr>dns_Options := dns_Options x @ ws\<rparr>"
    if "list_all plainWord ws" "ws \<noteq> []" for x ws
    using resolvLine_words[of "''options'' # ws" x] that k by (cases ws) simp_all
  show ?thesis
    using assms by (cases dns; cases "dns_Domain dns = []") (simp_all add: resolvText_def nameserver_lines d s t noDNS_def del: join.simps)
qed

text \<open>A file with the settings of a resolver, one per line, among any comments and blank lines,
  is read back as exactly these settings, carriage returns notwithstanding.\<close>

theorem parseResolvConf_roundtrip:
  assumes "no_faults w" and "map_of (sys_files w) (pathClean f) = Some (concat (map (\<lambda>l. l @ [CHR 0x0A]) ls))"
    and "\<forall>l \<in> set ls. CHR 0x0A \<notin> set l \<and> length l < MaxScanTokenSize"
    and "filter (\<lambda>l. \<not> resolvComment l) ls = resolvText dns"
    and "list_all plainWord (dns_Nameservers dns)" and "dns_Domain dns = [] \<or> plainWord (dns_Domain dns)"
    and "list_all plainWord (dns_Search dns)" and "list_all plainWord (dns_Options dns)"
  shows "parseResolvConf f w = (Ok dns, w)"
  using assms(1,2) scanLines_lines[OF assms(3)] resolvText_read[OF assms(5-8)] fold_resolvLine_filter[of noDNS ls] assms(4)
  by (simp add: parseResolvConf_def osOpen_def osReadAll_def guardFault_def no_faults_def act_simps)

definition demo_dns :: DNS where
  "demo_dns = \<lparr>dns_Nameservers = [''10.0.0.2'', ''10.0.0.3''], dns_Domain = ''svc'', dns_Search = [''a.svc'', ''svc''], dns_Options = [''ndots:5'']\<rparr>"

definition demo_resolv :: "string list" where
  "demo_resolv = [''# by hand'', ''nameserver 10.0.0.2'', ''nameserver 10.0.0.3'', [], ''domain svc'', ''search a.svc svc'', '' ; end'', ''options ndots:5'']"

theorem parseResolvConf_roundtrip_witness:
  "parseResolvConf ''/etc/resolv.conf'' (demo_sys\<lparr>sys_files := [(''/etc/resolv.conf'', concat (map (\<lambda>l. l @ [CHR 0x0A]) demo_resolv))]\<rparr>)
     = (Ok demo_dns, demo_sys\<lparr>sys_files := [(''/etc/resolv.conf'', concat (map (\<lambda>l. l @ [CHR 0x0A]) demo_resolv))]\<rparr>)"
proof (rule parseResolvConf_roundtrip)
  have c: "pathClean ''/etc/resolv.conf'' = ''/etc/resolv.conf''" by code_simp
  show "map_of (sys_files (demo_sys\<lparr>sys_files := [(''/etc/resolv.conf'', concat (map (\<lambda>l. l @ [CHR 0x0A]) demo_resolv))]\<rparr>))
      (pathClean ''/etc/resolv.conf'') = Some (concat (map (\<lambda>l. l @ [CHR 0x0A]) demo_resolv))" unfolding c by simp
  show "filter (\<lambda>l. \<not> resolvComment l) demo_resolv = resolvText demo_dns" by code_simp
  show "\<forall>l \<in> set demo_resolv. CHR 0x0A \<notin> set l \<and> length l < MaxScanTokenSize" by (simp add: demo_resolv_def MaxScanTokenSize_def)
  show "no_faults (demo_sys\<lparr>sys_files := [(''/etc/resolv.conf'', concat (map (\<lambda>l. l @ [CHR 0x0A]) demo_resolv))]\<rparr>)"
    by (simp add: no_faults_def demo_sys_def)
qed (code_simp)+


end
