(* ===== verification/Netlink.thy ===== *)
theory Netlink
  imports IPAMPlugin
begin

text \<open>
  What the interface plugins under \<^verbatim>\<open>cmd/\<close> use of the node's network: the calls of the packages
  \<^verbatim>\<open>netlink\<close>, \<^verbatim>\<open>ns\<close>, \<^verbatim>\<open>ip\<close>, \<^verbatim>\<open>iptables\<close>, \<^verbatim>\<open>sysctl\<close>, \<^verbatim>\<open>arping\<close> and \<^verbatim>\<open>math/rand\<close> as one field each of the
  record \<open>kern\<close>, which acts on a network state \<open>'k\<close> of which nothing is assumed here, and the results of the
  CNI library the plugins pass on.
\<close>

section \<open>Objects\<close>

record nlLink =
  lk_Index :: int
  lk_Name :: string
  lk_HardwareAddr :: "8 word list"
  lk_Alias :: string

text \<open>\<^verbatim>\<open>HardwareAddr.String\<close>.\<close>

definition macString :: "8 word list \<Rightarrow> string" where
  "macString a = join '':'' (map hexByte a)"

definition lk_Mac :: "nlLink \<Rightarrow> string" where
  "lk_Mac l = macString (lk_HardwareAddr l)"

text \<open>The scopes, families and the main table of Linux.\<close>

definition SCOPE_UNIVERSE :: int where "SCOPE_UNIVERSE = 0"
definition SCOPE_LINK :: int where "SCOPE_LINK = 253"
definition FAMILY_V4 :: int where "FAMILY_V4 = 2"
definition FAMILY_V6 :: int where "FAMILY_V6 = 10"
definition RT_TABLE_MAIN :: int where "RT_TABLE_MAIN = 254"

record nlRoute =
  nr_LinkIndex :: int
  nr_Scope :: int
  nr_Dst :: "ipnet option"
  nr_Src :: ip
  nr_Gw :: ip
  nr_Table :: int

definition emptyRoute :: nlRoute where
  "emptyRoute = \<lparr>nr_LinkIndex = 0, nr_Scope = SCOPE_UNIVERSE, nr_Dst = None, nr_Src = [], nr_Gw = [], nr_Table = 0\<rparr>"

text \<open>The fields of \<^verbatim>\<open>netlink.Rule\<close> the plugins set or read.\<close>

record Rule =
  ru_Priority :: int
  ru_Table :: int
  ru_Mark :: int
  ru_IifName :: string

definition NewRule :: Rule where
  "NewRule = \<lparr>ru_Priority = -1, ru_Table = 0, ru_Mark = -1, ru_IifName = []\<rparr>"

section \<open>The calls\<close>

record 'k kern =
  k_LinkByName :: "string \<Rightarrow> ('k, nlLink) act"
  k_LinkByIndex :: "int \<Rightarrow> ('k, nlLink) act"
  k_LinkDel :: "nlLink \<Rightarrow> ('k, unit) act"
  k_AddrList :: "nlLink \<Rightarrow> ('k, ipnet list) act"
  k_InterfaceByName :: "string \<Rightarrow> ('k, nlLink) act"
  k_VethPeerIndex :: "nlLink \<Rightarrow> ('k, int) act"
  k_SetupVeth :: "string \<Rightarrow> int \<Rightarrow> ('k, nlLink \<times> nlLink) act"
  k_RouteAdd :: "nlRoute \<Rightarrow> ('k, unit) act"
  k_RuleList :: "int \<Rightarrow> ('k, Rule list) act"
  k_RuleAdd :: "Rule \<Rightarrow> ('k, unit) act"
  k_RuleDel :: "Rule \<Rightarrow> ('k, unit) act"
  k_GetNS :: "string \<Rightarrow> ('k, unit) act"
  k_nsSet :: "string \<Rightarrow> ('k, unit) act"
  k_nsBack :: "('k, unit) act"
  k_iptables :: "('k, unit) act"
  k_AppendUnique :: "string \<Rightarrow> string \<Rightarrow> string list \<Rightarrow> ('k, unit) act"
  k_Sysctl :: "string \<Rightarrow> string \<Rightarrow> ('k, unit) act"
  k_EnableIP4Forward :: "('k, unit) act"
  k_EnableIP6Forward :: "('k, unit) act"
  k_SetupIPMasq :: "ipnet \<Rightarrow> string \<Rightarrow> string \<Rightarrow> ('k, unit) act"
  k_TeardownIPMasq :: "ipnet \<Rightarrow> string \<Rightarrow> string \<Rightarrow> ('k, unit) act"
  k_Arp :: "ip \<Rightarrow> nlLink \<Rightarrow> ('k, unit) act"
  k_Intn :: "nat \<Rightarrow> ('k, nat) act"
  k_FormatChainName :: "string \<Rightarrow> string \<Rightarrow> string"
  k_FormatComment :: "string \<Rightarrow> string \<Rightarrow> string"
  k_showLink :: "nlLink \<Rightarrow> string"
  k_showRule :: "Rule \<Rightarrow> string"

text \<open>\<^verbatim>\<open>ErrLinkNotFound\<close> of the package \<^verbatim>\<open>ip\<close>.\<close>

definition ErrLinkNotFound :: string where
  "ErrLinkNotFound = ''link not found''"

text \<open>\<^verbatim>\<open>NetNS.Do\<close>: the thread switches to the namespace, runs the function and switches back.\<close>

definition nsDo :: "'k kern \<Rightarrow> string \<Rightarrow> ('k, 'a) act \<Rightarrow> ('k, 'a) act" where
  "nsDo K path m =
     abind (awrap (\<lambda>e. ''error switching to ns '' @ path @ '': '' @ e) (k_nsSet K path)) (\<lambda>_.
     adefer (aignore (k_nsBack K)) m)"

text \<open>\<^verbatim>\<open>%q\<close> of a text without characters that need an escape.\<close>

definition quote :: "string \<Rightarrow> string" where
  "quote s = [CHR 0x22] @ s @ [CHR 0x22]"

text \<open>The host network of one address.\<close>

definition hostNet :: "ip \<Rightarrow> ipnet" where
  "hostNet a = (let addrBits = (if To4 a \<noteq> None then 32 else 128) in
     \<lparr>IPNet_IP = a, IPNet_Mask = CIDRMask addrBits addrBits\<rparr>)"

section \<open>Results of the CNI library\<close>

record Interface =
  if_Name :: string
  if_Mac :: string
  if_Sandbox :: string

record cniRoute =
  cr_Dst :: ipnet
  cr_GW :: ip

record cniResult =
  re_Interfaces :: "Interface list"
  re_IPs :: "IPConfig list"
  re_Routes :: "cniRoute list"
  re_DNS :: DNS

section \<open>Reasoning about calls\<close>

text \<open>\<open>keeps R m\<close>: the call does not panic and keeps the part \<open>R\<close> of the network state.\<close>

named_theorems keeps_intros \<open>calls that keep a part of the network state\<close>

definition keeps :: "('k \<Rightarrow> 'v) \<Rightarrow> ('k, 'a) act \<Rightarrow> bool" where
  "keeps R m \<longleftrightarrow> (\<forall>k. fst (m k) \<noteq> Panic \<and> R (snd (m k)) = R k)"

lemma keeps_abind [keeps_intros]:
  assumes "keeps R m" and "\<And>x. keeps R (f x)"
  shows "keeps R (abind m f)"
  unfolding keeps_def
proof
  fix k
  obtain r k1 where "m k = (r, k1)" by (cases "m k")
  moreover from this have "r \<noteq> Panic" "R k1 = R k" using assms(1) unfolding keeps_def by (metis fst_conv, metis snd_conv)
  ultimately show "fst (abind m f k) \<noteq> Panic \<and> R (snd (abind m f k)) = R k"
    using assms(2) by (cases r) (auto simp: abind_def keeps_def)
qed

lemma keeps_awrap [keeps_intros]: "keeps R m \<Longrightarrow> keeps R (awrap f m)"
  by (auto simp: keeps_def awrap_def acase_def aret_def aerr_def split: prod.splits result.splits)
     (metis fst_conv snd_conv)+

text \<open>\<open>yields P m\<close>: whatever \<open>m\<close> returns without an error satisfies \<open>P\<close>.\<close>

named_theorems yields_intros \<open>what a call can return\<close>

definition yields :: "('a \<Rightarrow> bool) \<Rightarrow> ('k, 'a) act \<Rightarrow> bool" where
  "yields P m \<longleftrightarrow> (\<forall>k x k'. m k = (Ok x, k') \<longrightarrow> P x)"

lemma yields_abind: "yields P m \<Longrightarrow> (\<And>x. P x \<Longrightarrow> yields Q (f x)) \<Longrightarrow> yields Q (abind m f)"
  unfolding yields_def abind_eq_Ok by blast

lemma yields_mono: "yields P m \<Longrightarrow> (\<And>x. P x \<Longrightarrow> Q x) \<Longrightarrow> yields Q m"
  unfolding yields_def by blast

lemma yields_then [yields_intros]: "(\<And>x. yields Q (f x)) \<Longrightarrow> yields Q (abind m f)"
  by (auto simp: yields_def abind_eq_Ok)

lemma yields_leaf [yields_intros]: "P x \<Longrightarrow> yields P (aret x)" "yields P (aerr e)" "yields P apanic"
  by (simp_all add: yields_def aret_def aerr_def apanic_def)

lemma yields_alift: "(\<And>x. r = Ok x \<Longrightarrow> P x) \<Longrightarrow> yields P (alift r)"
  by (simp add: yields_def alift_def)

lemma yields_awrap [yields_intros]: "yields P m \<Longrightarrow> yields P (awrap f m)"
  by (auto simp: yields_def awrap_def acase_def aret_def aerr_def split: prod.splits result.splits)

lemma yields_acase [yields_intros]: "(\<And>x. yields P (f x)) \<Longrightarrow> (\<And>e. yields P (g e)) \<Longrightarrow> yields P (acase m f g)"
  by (auto simp: yields_def acase_def split: prod.splits result.splits)

lemma yields_if [yields_intros]: "(b \<Longrightarrow> yields P m) \<Longrightarrow> (\<not> b \<Longrightarrow> yields P n) \<Longrightarrow> yields P (if b then m else n)"
  "(\<And>a b. yields P (h a b)) \<Longrightarrow> yields P (case_prod h pr)"
  by (auto split: prod.splits)

lemma adefer_Ok: "adefer d m k = (Ok x, k') \<Longrightarrow> \<exists>k1. m k = (Ok x, k1)"
  by (cases "m k") (auto simp: adefer_def split: prod.splits result.splits)

lemma yields_nsDo: "yields P m \<Longrightarrow> yields P (nsDo K path m)"
  unfolding nsDo_def by (rule yields_then) (auto simp: yields_def dest!: adefer_Ok)

end
