(* ===== verification/VethHost.thy ===== *)
theory VethHost
  imports Netlink
begin

text \<open>
  \<^verbatim>\<open>cmd/veth-host/veth-host.go\<close>: the chained plugin that gives a container a second interface to the node, with
  routes to the node's addresses and the services, policy routing for what the container sends, and
  the marks of node ports. The JSON decoder and the conversion of results are parameters:
  \<open>unmarshal\<close> yields the configuration with \<^verbatim>\<open>RawPrevResult\<close> undecoded, \<open>newResult\<close> stands for
  \<^verbatim>\<open>json.Marshal\<close>, \<^verbatim>\<open>version.NewResult\<close> and \<^verbatim>\<open>current.NewResultFromResult\<close> in a row.
\<close>

section \<open>Configuration\<close>

definition maxSleep :: nat where "maxSleep = 10000"
definition baseSleep :: nat where "baseSleep = 20"
definition podRulePriority :: int where "podRulePriority = 1024"
definition nodePortRulePriority :: int where "nodePortRulePriority = 512"
definition MaxUint32 :: int where "MaxUint32 = 4294967295"

record PluginConf =
  pc_Name :: string
  pc_CNIVersion :: string
  pc_RawPrevResult :: "string option"
  pc_PrevResult :: "cniResult option"
  pc_IPMasq :: bool
  pc_HostInterface :: string
  pc_ServiceCidr :: string
  pc_ContainerInterface :: string
  pc_MTU :: int
  pc_TableStart :: int
  pc_NodePortMark :: int
  pc_NodePorts :: string

text \<open>The decoder does not fill \<^verbatim>\<open>PrevResult\<close> (its tag is \<^verbatim>\<open>"-"\<close>).\<close>

definition parseConfig ::
  "(string \<Rightarrow> PluginConf result) \<Rightarrow> (string \<Rightarrow> string \<Rightarrow> cniResult result) \<Rightarrow> string \<Rightarrow> PluginConf result" where
  "parseConfig unmarshal newResult stdin =
     (case unmarshal stdin of
        Err e \<Rightarrow> Err (''failed to parse network configuration: '' @ e)
      | Panic \<Rightarrow> Panic
      | Ok conf0 \<Rightarrow>
        (let conf = conf0\<lparr>pc_PrevResult := None\<rparr> in
        rbind (case pc_RawPrevResult conf of
                 None \<Rightarrow> Ok conf
               | Some raw \<Rightarrow> rbind (newResult (pc_CNIVersion conf) raw) (\<lambda>res.
                   Ok (conf\<lparr>pc_RawPrevResult := None, pc_PrevResult := Some res\<rparr>))) (\<lambda>conf.
        if pc_HostInterface conf = [] then Err ''hostInterface must be specified''
        else if pc_ContainerInterface conf = [] then Err ''containerInterface must be specified''
        else
        let conf = (if pc_NodePorts conf = [] then conf\<lparr>pc_NodePorts := ''30000:32767''\<rparr> else conf);
            conf = (if pc_NodePortMark conf = 0 then conf\<lparr>pc_NodePortMark := 0x2000\<rparr> else conf);
            conf = (if pc_TableStart conf = 0 then conf\<lparr>pc_TableStart := 256\<rparr> else conf)
        in Ok conf)))"

section \<open>Forwarding and address translation\<close>

definition enableForwarding :: "'k kern \<Rightarrow> bool \<Rightarrow> bool \<Rightarrow> ('k, unit) act" where
  "enableForwarding K ipv4 ipv6 =
     abind (if ipv4 then awrap (\<lambda>e. ''Could not enable IPv6 forwarding: '' @ e) (k_EnableIP4Forward K) else aret ()) (\<lambda>_.
     if ipv6 then awrap (\<lambda>e. ''Could not enable IPv6 forwarding: '' @ e) (k_EnableIP6Forward K) else aret ())"

definition setupSNAT :: "'k kern \<Rightarrow> string \<Rightarrow> string \<Rightarrow> ('k, unit) act" where
  "setupSNAT K ifName comment =
     abind (awrap (\<lambda>e. ''failed to locate iptables: '' @ e) (k_iptables K)) (\<lambda>_.
     k_AppendUnique K ''nat'' ''POSTROUTING''
       ([''-o'', ifName, ''-j'', ''MASQUERADE''] @ [''-m'', ''comment'', ''--comment'', comment]))"

section \<open>Policy routing\<close>

text \<open>The search for the first table number that no rule names. The bound is \<^verbatim>\<open>math.MaxUint32\<close>.\<close>

function freeFrom :: "int list \<Rightarrow> int \<Rightarrow> int option" where
  "freeFrom allocatedTableIDs i =
     (if i < MaxUint32 then (if i \<notin> set allocatedTableIDs then Some i else freeFrom allocatedTableIDs (i + 1))
      else None)"
  by auto
termination
  by (relation "measure (\<lambda>(_, i). nat (MaxUint32 - i))") auto

declare freeFrom.simps [simp del]

definition findFreeTable :: "'k kern \<Rightarrow> int \<Rightarrow> ('k, int) act" where
  "findFreeTable K start =
     abind (k_RuleList K FAMILY_V4) (\<lambda>rules4.
     abind (k_RuleList K FAMILY_V6) (\<lambda>rules6.
     (case freeFrom (map ru_Table (rules4 @ rules6)) start of
        Some i \<Rightarrow> aret i
      | None \<Rightarrow> aerr ''failed to find free route table'')))"

fun addRoutes :: "'k kern \<Rightarrow> nlLink \<Rightarrow> IPConfig \<Rightarrow> int \<Rightarrow> cniRoute list \<Rightarrow> ('k, bool) act" where
  "addRoutes K veth ipc table [] = aret True"
| "addRoutes K veth ipc table (route # routes) =
     acase (k_RouteAdd K (emptyRoute\<lparr>nr_LinkIndex := lk_Index veth, nr_Dst := Some (cr_Dst route),
                                     nr_Gw := IPNet_IP (ipc_Address ipc), nr_Table := table\<rparr>))
       (\<lambda>_. addRoutes K veth ipc table routes) (\<lambda>_. aret False)"

text \<open>
  The loop of at most ten attempts (\<open>n\<close> left, \<open>i\<close> made). An attempt with a failed route leaves
  the table at -1, waits and goes on.
\<close>

fun tryTables :: "'k kern \<Rightarrow> nlLink \<Rightarrow> IPConfig \<Rightarrow> cniRoute list \<Rightarrow> int \<Rightarrow> nat \<Rightarrow> nat \<Rightarrow> ('k, int) act" where
  "tryTables K veth ipc routes tableStart 0 i = aret (-1)"
| "tryTables K veth ipc routes tableStart (Suc n) i =
     abind (k_Intn K 1000) (\<lambda>j.
     abind (findFreeTable K (int64 (tableStart + int j))) (\<lambda>table0.
     abind (addRoutes K veth ipc table0 routes) (\<lambda>added.
     (let table = (if added then table0 else -1) in
      if table = -1
      then abind (k_Intn K (min maxSleep (baseSleep * 2 ^ i))) (\<lambda>wait. tryTables K veth ipc routes tableStart n (Suc i))
      else aret table))))"

text \<open>\<^verbatim>\<open>sort.Slice\<close> by the text of the destination; it works in place, so the sorted list is part of the result.\<close>

definition sortRoutes :: "cniRoute list \<Rightarrow> cniRoute list" where
  "sortRoutes routes = sort_key (\<lambda>r. netString (cr_Dst r)) routes"

definition addPolicyRules :: "'k kern \<Rightarrow> nlLink \<Rightarrow> IPConfig \<Rightarrow> cniRoute list \<Rightarrow> int \<Rightarrow> ('k, cniRoute list) act" where
  "addPolicyRules K veth ipc routes0 tableStart =
     (let routes = sortRoutes routes0 in
      abind (tryTables K veth ipc routes tableStart 10 0) (\<lambda>table.
      if table = -1 then aerr ''failed to add routes to a free table''
      else
      let rule = NewRule\<lparr>ru_IifName := lk_Name veth, ru_Table := table, ru_Priority := podRulePriority\<rparr> in
      abind (awrap (\<lambda>e. ''failed to add policy rule '' @ k_showRule K rule @ '': '' @ e) (k_RuleAdd K rule)) (\<lambda>_.
      aret routes)))"

section \<open>Node ports\<close>

definition nodePortRule :: "int \<Rightarrow> Rule" where
  "nodePortRule nodePortMark =
     NewRule\<lparr>ru_Mark := nodePortMark, ru_Table := RT_TABLE_MAIN, ru_Priority := nodePortRulePriority\<rparr>"

definition nodePortMarks :: "'k kern \<Rightarrow> string \<Rightarrow> string \<Rightarrow> int \<Rightarrow> ('k, unit) act" where
  "nodePortMarks K ifName nodePorts nodePortMark =
     (let comment = [''-m'', ''comment'', ''--comment'', ''NodePort Mark''];
          mark = (\<lambda>proto. [''-i'', ifName, ''-p'', proto, ''--dport'', nodePorts, ''-j'', ''CONNMARK'', ''--set-mark'', itoa nodePortMark] @ comment) in
      abind (k_AppendUnique K ''mangle'' ''PREROUTING'' (mark ''tcp'')) (\<lambda>_.
      abind (k_AppendUnique K ''mangle'' ''PREROUTING'' (mark ''udp'')) (\<lambda>_.
      k_AppendUnique K ''mangle'' ''PREROUTING'' ([''-i'', ''veth+'', ''-j'', ''CONNMARK'', ''--restore-mark''] @ comment))))"

definition setupNodePortRule :: "'k kern \<Rightarrow> string \<Rightarrow> string \<Rightarrow> int \<Rightarrow> ('k, unit) act" where
  "setupNodePortRule K ifName nodePorts nodePortMark =
     abind (awrap (\<lambda>e. ''failed to locate iptables: '' @ e) (k_iptables K)) (\<lambda>_.
     abind (nodePortMarks K ifName nodePorts nodePortMark) (\<lambda>_.
     abind (awrap (\<lambda>e. ''failed to set RP filter to loose for interface '' @ quote ifName @ '': '' @ e)
              (k_Sysctl K (''net.ipv4.conf.'' @ ifName @ ''.rp_filter'') ''2'')) (\<lambda>_.
     (let rule = nodePortRule nodePortMark in
      abind (awrap (\<lambda>e. ''Unable to retrive IP rules '' @ e) (k_RuleList K FAMILY_V4)) (\<lambda>rules.
      if list_ex (\<lambda>r. ru_Table r = ru_Table rule \<and> ru_Mark r = ru_Mark rule \<and> ru_Priority r = ru_Priority rule) rules
      then aret ()
      else awrap (\<lambda>e. ''failed to add policy rule '' @ k_showRule K rule @ '': '' @ e) (k_RuleAdd K rule))))))"

section \<open>The two ends of the interface pair\<close>

definition hostRoutes :: "'k kern \<Rightarrow> nlLink \<Rightarrow> ip list \<Rightarrow> ('k, unit) act" where
  "hostRoutes K veth ips = afor ips (\<lambda>a.
     awrap (\<lambda>e. ''failed to add host route dst '' @ ipString a @ '': '' @ e)
       (k_RouteAdd K (emptyRoute\<lparr>nr_LinkIndex := lk_Index veth, nr_Scope := SCOPE_LINK, nr_Dst := Some (hostNet a)\<rparr>)))"

definition setupContainerVeth ::
  "'k kern \<Rightarrow> string \<Rightarrow> string \<Rightarrow> string \<Rightarrow> int \<Rightarrow> ipnet list \<Rightarrow> bool \<Rightarrow> bool \<Rightarrow> bool \<Rightarrow> string \<Rightarrow> cniResult \<Rightarrow>
     ('k, Interface \<times> Interface \<times> cniResult) act" where
  "setupContainerVeth K netns serviceCidr ifName mtu hostAddrs masq containerIPV4 containerIPV6 k8sIfName pr =
     nsDo K netns
       (abind (k_SetupVeth K ifName mtu) (\<lambda>(hostVeth, contVeth0).
        acase (k_LinkByName K (lk_Name contVeth0))
          (\<lambda>containerNetlinkIface.
        (let hostInterface = \<lparr>if_Name = lk_Name hostVeth, if_Mac = lk_Mac hostVeth, if_Sandbox = []\<rparr>;
             containerInterface = \<lparr>if_Name = lk_Name contVeth0, if_Mac = lk_Mac containerNetlinkIface, if_Sandbox = netns\<rparr>;
             pr = pr\<lparr>re_Interfaces := re_Interfaces pr @ [hostInterface, containerInterface]\<rparr>
         in
         abind (awrap (\<lambda>e. ''failed to look up '' @ quote ifName @ '': '' @ e) (k_InterfaceByName K ifName)) (\<lambda>contVeth.
         abind (if masq
                then abind (enableForwarding K containerIPV4 containerIPV6) (\<lambda>_.
                     awrap (\<lambda>e. ''failed to enable SNAT on '' @ quote k8sIfName @ '': '' @ e) (setupSNAT K k8sIfName ''kube-proxy SNAT''))
                else aret ()) (\<lambda>_.
         abind (hostRoutes K contVeth (map IPNet_IP hostAddrs)) (\<lambda>_.
         abind (awrap (\<lambda>e. ''failed to parse service cidr :'' @ e) (alift (ParseCIDR serviceCidr))) (\<lambda>(_, serviceNet).
         (if hostAddrs = [] then apanic
          else
          abind (awrap (\<lambda>e. ''failed to add service cidr route '' @ ipString (IPNet_IP (hd hostAddrs)) @ '': '' @ e)
            (k_RouteAdd K (emptyRoute\<lparr>nr_LinkIndex := lk_Index contVeth, nr_Scope := SCOPE_UNIVERSE,
                                      nr_Dst := Some serviceNet, nr_Gw := IPNet_IP (hd hostAddrs)\<rparr>))) (\<lambda>_.
          abind (afor (re_IPs pr) (\<lambda>ipc. if ipc_Version ipc = ''4''
                   then aignore (k_Arp K (IPNet_IP (ipc_Address ipc)) contVeth) else aret ())) (\<lambda>_.
          aret (hostInterface, containerInterface, pr)))))))))) (\<lambda>_. apanic)))"

definition setupHostVeth ::
  "'k kern \<Rightarrow> string \<Rightarrow> ipnet list \<Rightarrow> bool \<Rightarrow> int \<Rightarrow> cniResult \<Rightarrow> ('k, cniResult) act" where
  "setupHostVeth K vethName hostAddrs masq tableStart res =
     (if length (re_IPs res) = 0 then aret res
      else
      abind (awrap (\<lambda>e. ''failed to lookup '' @ quote vethName @ '': '' @ e) (k_InterfaceByName K vethName)) (\<lambda>veth.
      abind (hostRoutes K veth (map (\<lambda>ipc. IPNet_IP (ipc_Address ipc)) (re_IPs res))) (\<lambda>_.
      abind (awrap (\<lambda>e. ''failed to add policy rules: '' @ e)
               (addPolicyRules K veth (re_IPs res ! 0) (re_Routes res) tableStart)) (\<lambda>routes.
      abind (afor hostAddrs (\<lambda>ipc. if To4 (IPNet_IP ipc) \<noteq> None then aignore (k_Arp K (IPNet_IP ipc) veth) else aret ())) (\<lambda>_.
      aret (res\<lparr>re_Routes := routes\<rparr>))))))"

section \<open>The commands\<close>

text \<open>The addresses of the container: before the versions 0.3.x all of them; from then on those with an
  interface, less those of an interface that is known to have another name.\<close>

definition containerIPsOf :: "string \<Rightarrow> string \<Rightarrow> cniResult \<Rightarrow> ip list" where
  "containerIPsOf cniVersion ifName prev =
     (if cniVersion \<noteq> ''0.3.0'' \<and> cniVersion \<noteq> ''0.3.1''
      then map (\<lambda>ipc. IPNet_IP (ipc_Address ipc)) (re_IPs prev)
      else map (\<lambda>ipc. IPNet_IP (ipc_Address ipc)) (filter (\<lambda>ipc.
             case ipc_Interface ipc of
               None \<Rightarrow> False
             | Some intIdx \<Rightarrow> \<not> (intIdx \<ge> 0 \<and> intIdx < int (length (re_Interfaces prev)) \<and>
                              if_Name (re_Interfaces prev ! nat intIdx) \<noteq> ifName)) (re_IPs prev)))"

definition hostAddrsOf :: "'k kern \<Rightarrow> string \<Rightarrow> ('k, ipnet list) act" where
  "hostAddrsOf K hostIf =
     abind (awrap (\<lambda>e. ''failed to lookup '' @ quote hostIf @ '': '' @ e) (k_LinkByName K hostIf)) (\<lambda>iface.
     acase (k_AddrList K iface)
       (\<lambda>hostAddrs. if length hostAddrs = 0
          then aerr (''failed to get host IP addresses for '' @ k_showLink K iface @ '': <nil>'') else aret hostAddrs)
       (\<lambda>e. aerr (''failed to get host IP addresses for '' @ k_showLink K iface @ '': '' @ e)))"

definition vethhost_cmdAdd ::
  "'k kern \<Rightarrow> (string \<Rightarrow> PluginConf result) \<Rightarrow> (string \<Rightarrow> string \<Rightarrow> cniResult result) \<Rightarrow>
     (cniResult \<Rightarrow> string \<Rightarrow> string result) \<Rightarrow> CmdArgs \<Rightarrow> ('k, string) act" where
  "vethhost_cmdAdd K unmarshal newResult printResult args =
     abind (alift (parseConfig unmarshal newResult (ca_StdinData args))) (\<lambda>conf.
     (case pc_PrevResult conf of
        None \<Rightarrow> aerr ''must be called as chained plugin''
      | Some prev \<Rightarrow>
        (let containerIPs = containerIPsOf (pc_CNIVersion conf) (ca_IfName args) prev in
         if length containerIPs = 0 then aerr ''got no container IPs''
         else
         abind (hostAddrsOf K (pc_HostInterface conf)) (\<lambda>hostAddrs.
         abind (awrap (\<lambda>e. ''failed to open netns '' @ quote (ca_Netns args) @ '': '' @ e) (k_GetNS K (ca_Netns args))) (\<lambda>_.
         (let containerIPV4 = list_ex (\<lambda>ipc. To4 ipc \<noteq> None) containerIPs;
              containerIPV6 = list_ex (\<lambda>ipc. To4 ipc = None) containerIPs
          in
          abind (setupContainerVeth K (ca_Netns args) (pc_ServiceCidr conf) (pc_ContainerInterface conf) (pc_MTU conf)
                   hostAddrs (pc_IPMasq conf) containerIPV4 containerIPV6 (ca_IfName args) prev) (\<lambda>(hostInterface, _, prev1).
          abind (setupHostVeth K (if_Name hostInterface) hostAddrs (pc_IPMasq conf) (pc_TableStart conf) prev1) (\<lambda>prev2.
          abind (if pc_IPMasq conf
                 then abind (enableForwarding K containerIPV4 containerIPV6) (\<lambda>_.
                      afor containerIPs (\<lambda>ipc. k_SetupIPMasq K (hostNet ipc)
                        (k_FormatChainName K (pc_Name conf) (ca_ContainerID args))
                        (k_FormatComment K (pc_Name conf) (ca_ContainerID args))))
                 else aret ()) (\<lambda>_.
          abind (setupNodePortRule K (pc_HostInterface conf) (pc_NodePorts conf) (pc_NodePortMark conf)) (\<lambda>_.
          alift (printResult prev2 (pc_CNIVersion conf))))))))))))"

text \<open>What DEL finds in the namespace of the container: the addresses to tear down and the index of the
  peer, -1 when it was not found. Every error of the lookup is dropped.\<close>

definition delLookup :: "'k kern \<Rightarrow> PluginConf \<Rightarrow> CmdArgs \<Rightarrow> ('k, ipnet list \<times> int) act" where
  "delLookup K conf args =
     abind (if pc_IPMasq conf
            then acase (k_LinkByName K (ca_IfName args))
                   (\<lambda>iface. acase (k_AddrList K iface) (\<lambda>ipnets. aret (ipnets, ipnets \<noteq> [])) (\<lambda>_. aret ([], False)))
                   (\<lambda>_. aret ([], False))
            else aret ([], True)) (\<lambda>(ipnets, found).
     if \<not> found then aret (ipnets, -1)
     else acase (k_LinkByName K (pc_ContainerInterface conf))
            (\<lambda>vethIface. acase (k_VethPeerIndex K vethIface) (\<lambda>i. aret (ipnets, i)) (\<lambda>_. aret (ipnets, -1)))
            (\<lambda>e. if e \<noteq> ErrLinkNotFound then aret (ipnets, -1) else apanic))"

definition vethhost_cmdDel ::
  "'k kern \<Rightarrow> (string \<Rightarrow> PluginConf result) \<Rightarrow> (string \<Rightarrow> string \<Rightarrow> cniResult result) \<Rightarrow> CmdArgs \<Rightarrow> ('k, unit) act" where
  "vethhost_cmdDel K unmarshal newResult args =
     abind (alift (parseConfig unmarshal newResult (ca_StdinData args))) (\<lambda>conf.
     if ca_Netns args = [] then aret ()
     else
     abind (acase (k_GetNS K (ca_Netns args))
              (\<lambda>_. acase (nsDo K (ca_Netns args) (delLookup K conf args)) aret (\<lambda>_. aret ([], -1)))
              (\<lambda>_. aret ([], -1))) (\<lambda>(ipnets, vethPeerIndex).
     if pc_IPMasq conf
     then abind (afor ipnets (\<lambda>ipn. aignore (k_TeardownIPMasq K (hostNet (IPNet_IP ipn))
                   (k_FormatChainName K (pc_Name conf) (ca_ContainerID args))
                   (k_FormatComment K (pc_Name conf) (ca_ContainerID args))))) (\<lambda>_.
          if vethPeerIndex \<noteq> -1
          then acase (k_LinkByIndex K vethPeerIndex)
                 (\<lambda>link. abind (aignore (k_RuleDel K (NewRule\<lparr>ru_IifName := lk_Name link\<rparr>))) (\<lambda>_.
                         aignore (k_LinkDel K link)))
                 (\<lambda>_. aret ())
          else aret ())
     else aret ()))"

end
