(* ===== verification/VethHostProps.thy ===== *)
theory VethHostProps
  imports VethHost
begin

text \<open>
  The properties of \<^verbatim>\<open>cmd/veth-host\<close>: the choice of a routing table, policy routing and the node port rule against
  the documented behaviour of the kernel's routing calls (\<open>kernel_tables\<close>), and what ADD passes on.
\<close>

section \<open>Free tables\<close>

lemma freeFrom_Some:
  "freeFrom used i = Some t \<Longrightarrow> i \<le> t \<and> t < MaxUint32 \<and> t \<notin> set used \<and> (\<forall>j. i \<le> j \<and> j < t \<longrightarrow> j \<in> set used)"
proof (induction used i rule: freeFrom.induct)
  case (1 used i)
  show ?case
  proof (cases "i < MaxUint32 \<and> i \<in> set used")
    case True
    then have "freeFrom used (i + 1) = Some t" using "1.prems" by (simp add: freeFrom.simps[of used i])
    from "1.IH"[OF _ _ this] True have IH: "i + 1 \<le> t" "t < MaxUint32" "t \<notin> set used" "\<forall>j. i + 1 \<le> j \<and> j < t \<longrightarrow> j \<in> set used"
      by simp_all
    have "j \<in> set used" if "i \<le> j" "j < t" for j using that True IH(4) by (cases "j = i") auto
    then show ?thesis using IH by auto
  qed (use "1.prems" in \<open>auto simp: freeFrom.simps[of used i] split: if_splits\<close>)
qed

lemma freeFrom_None: "freeFrom used i = None \<longleftrightarrow> (\<forall>j. i \<le> j \<and> j < MaxUint32 \<longrightarrow> j \<in> set used)"
proof (induction used i rule: freeFrom.induct)
  case (1 used i)
  show ?case
  proof (cases "i < MaxUint32 \<and> i \<in> set used")
    case True
    have "(\<forall>j. i + 1 \<le> j \<and> j < MaxUint32 \<longrightarrow> j \<in> set used) \<longleftrightarrow> (\<forall>j. i \<le> j \<and> j < MaxUint32 \<longrightarrow> j \<in> set used)"
    proof -
      have "i \<le> j \<and> j < MaxUint32 \<longleftrightarrow> j = i \<or> (i + 1 \<le> j \<and> j < MaxUint32)" for j using True by auto
      then show ?thesis using True by auto
    qed
    then show ?thesis using 1 True by (simp add: freeFrom.simps[of used i])
  qed (auto simp: freeFrom.simps[of used i])
qed

text \<open>By counting, a range with more numbers than there are rules has a free one.\<close>

lemma freeFrom_exists:
  assumes "int (length used) < MaxUint32 - i"
  shows "freeFrom used i \<noteq> None"
proof
  assume "freeFrom used i = None"
  then have "{i..<MaxUint32} \<subseteq> set used" by (auto simp: freeFrom_None)
  then have "card {i..<MaxUint32} \<le> length used" by (meson card_length card_mono finite_set le_trans)
  then show False using assms by simp
qed

text \<open>C36. \<^verbatim>\<open>findFreeTable\<close> returns the first table number from its start on that no rule of either family names, and it
  finds one whenever there are fewer rules than numbers up to \<^verbatim>\<open>math.MaxUint32\<close>; it fails only when
  all of these are taken.\<close>

theorem findFreeTable_first:
  assumes "k_RuleList K FAMILY_V4 k = (Ok rules4, k1)" and "k_RuleList K FAMILY_V6 k1 = (Ok rules6, k2)"
  shows "(case findFreeTable K start k of
      (Ok t, k') \<Rightarrow> k' = k2 \<and> start \<le> t \<and> t < MaxUint32 \<and> t \<notin> ru_Table ` set (rules4 @ rules6) \<and>
        (\<forall>j. start \<le> j \<and> j < t \<longrightarrow> j \<in> ru_Table ` set (rules4 @ rules6))
    | (Err e, k') \<Rightarrow> k' = k2 \<and> (\<forall>j. start \<le> j \<and> j < MaxUint32 \<longrightarrow> j \<in> ru_Table ` set (rules4 @ rules6))
    | (Panic, k') \<Rightarrow> False) \<and>
    (int (length rules4 + length rules6) < MaxUint32 - start \<longrightarrow> is_Ok (fst (findFreeTable K start k)))"
proof (cases "freeFrom (map ru_Table (rules4 @ rules6)) start")
  case None
  then show ?thesis
    using assms freeFrom_exists[of "map ru_Table (rules4 @ rules6)" start] freeFrom_None[of "map ru_Table (rules4 @ rules6)" start]
    by (auto simp: findFreeTable_def act_simps)
next
  case (Some t)
  then show ?thesis using assms freeFrom_Some[OF Some] by (auto simp: findFreeTable_def act_simps)
qed


section \<open>Policy routing\<close>

text \<open>
  What rtnetlink documents of routes and rules: listing reads, an addition adds exactly what it is given or, when it
  fails, changes nothing; drawing a random number touches neither. \<open>rules4\<close>, \<open>rules6\<close> and \<open>routes\<close> are what the kernel
  holds.
\<close>

definition kernel_tables ::
  "'k kern \<Rightarrow> ('k \<Rightarrow> Rule list) \<Rightarrow> ('k \<Rightarrow> Rule list) \<Rightarrow> ('k \<Rightarrow> nlRoute set) \<Rightarrow> bool" where
  "kernel_tables K rules4 rules6 routes \<longleftrightarrow>
     (\<forall>k. k_RuleList K FAMILY_V4 k = (Ok (rules4 k), k)) \<and>
     (\<forall>k. k_RuleList K FAMILY_V6 k = (Ok (rules6 k), k)) \<and>
     (\<forall>k r. case k_RouteAdd K r k of
        (Ok _, k') \<Rightarrow> routes k' = insert r (routes k) \<and> rules4 k' = rules4 k \<and> rules6 k' = rules6 k
      | (Err _, k') \<Rightarrow> routes k' = routes k \<and> rules4 k' = rules4 k \<and> rules6 k' = rules6 k
      | (Panic, k') \<Rightarrow> False) \<and>
     (\<forall>k r. case k_RuleAdd K r k of
        (Ok _, k') \<Rightarrow> routes k' = routes k \<and> rules4 k' = rules4 k @ [r] \<and> rules6 k' = rules6 k
      | (Err _, k') \<Rightarrow> routes k' = routes k \<and> rules4 k' = rules4 k \<and> rules6 k' = rules6 k
      | (Panic, k') \<Rightarrow> False) \<and>
     (\<forall>k n. 0 < n \<longrightarrow> (case k_Intn K n k of
        (Ok j, k') \<Rightarrow> j < n \<and> routes k' = routes k \<and> rules4 k' = rules4 k \<and> rules6 k' = rules6 k
      | _ \<Rightarrow> False))"

lemma kernel_tablesD:
  assumes "kernel_tables K rules4 rules6 routes"
  shows "k_RuleList K FAMILY_V4 k = (Ok (rules4 k), k)" "k_RuleList K FAMILY_V6 k = (Ok (rules6 k), k)"
    "case k_RouteAdd K r k of
        (Ok _, k') \<Rightarrow> routes k' = insert r (routes k) \<and> rules4 k' = rules4 k \<and> rules6 k' = rules6 k
      | (Err _, k') \<Rightarrow> routes k' = routes k \<and> rules4 k' = rules4 k \<and> rules6 k' = rules6 k
      | (Panic, k') \<Rightarrow> False"
    "case k_RuleAdd K r' k of
        (Ok _, k') \<Rightarrow> routes k' = routes k \<and> rules4 k' = rules4 k @ [r'] \<and> rules6 k' = rules6 k
      | (Err _, k') \<Rightarrow> routes k' = routes k \<and> rules4 k' = rules4 k \<and> rules6 k' = rules6 k
      | (Panic, k') \<Rightarrow> False"
    "0 < n \<Longrightarrow> \<exists>j k'. k_Intn K n k = (Ok j, k') \<and> j < n \<and> routes k' = routes k \<and> rules4 k' = rules4 k \<and> rules6 k' = rules6 k"
proof -
  note A = assms[unfolded kernel_tables_def, THEN conjunct2, THEN conjunct2]
  note B = A[THEN conjunct2, THEN conjunct2, THEN spec, THEN spec]
  show "k_RuleList K FAMILY_V4 k = (Ok (rules4 k), k)" "k_RuleList K FAMILY_V6 k = (Ok (rules6 k), k)"
    using assms by (auto simp: kernel_tables_def)
  show "case k_RouteAdd K r k of
        (Ok _, k') \<Rightarrow> routes k' = insert r (routes k) \<and> rules4 k' = rules4 k \<and> rules6 k' = rules6 k
      | (Err _, k') \<Rightarrow> routes k' = routes k \<and> rules4 k' = rules4 k \<and> rules6 k' = rules6 k
      | (Panic, k') \<Rightarrow> False" by (rule A[THEN conjunct1, THEN spec, THEN spec])
  show "case k_RuleAdd K r' k of
        (Ok _, k') \<Rightarrow> routes k' = routes k \<and> rules4 k' = rules4 k @ [r'] \<and> rules6 k' = rules6 k
      | (Err _, k') \<Rightarrow> routes k' = routes k \<and> rules4 k' = rules4 k \<and> rules6 k' = rules6 k
      | (Panic, k') \<Rightarrow> False" by (rule A[THEN conjunct2, THEN conjunct1, THEN spec, THEN spec])
  have "case k_Intn K n k of
        (Ok j, k') \<Rightarrow> j < n \<and> routes k' = routes k \<and> rules4 k' = rules4 k \<and> rules6 k' = rules6 k
      | _ \<Rightarrow> False" if "0 < n" using B that by (rule mp)
  then show "0 < n \<Longrightarrow> \<exists>j k'. k_Intn K n k = (Ok j, k') \<and> j < n \<and> routes k' = routes k \<and> rules4 k' = rules4 k \<and> rules6 k' = rules6 k"
    by (cases "k_Intn K n k") (auto split: result.splits)
qed

definition podRoute :: "nlLink \<Rightarrow> IPConfig \<Rightarrow> int \<Rightarrow> cniRoute \<Rightarrow> nlRoute" where
  "podRoute veth ipc table r = emptyRoute\<lparr>nr_LinkIndex := lk_Index veth, nr_Dst := Some (cr_Dst r),
     nr_Gw := IPNet_IP (ipc_Address ipc), nr_Table := table\<rparr>"

lemma addRoutes_effect:
  assumes "kernel_tables K rules4 rules6 routes"
  shows "case addRoutes K veth ipc t rs k of
      (Ok b, k') \<Rightarrow> rules4 k' = rules4 k \<and> rules6 k' = rules6 k \<and> routes k \<subseteq> routes k' \<and>
        (b \<longrightarrow> podRoute veth ipc t ` set rs \<subseteq> routes k')
    | _ \<Rightarrow> False"
proof (induction rs arbitrary: k)
  case Nil
  then show ?case by (simp add: act_simps)
next
  case (Cons r rs)
  note A = kernel_tablesD(3)[OF assms, where r = "podRoute veth ipc t r" and k = k]
  obtain x k1 where x: "k_RouteAdd K (podRoute veth ipc t r) k = (x, k1)" by (cases "k_RouteAdd K (podRoute veth ipc t r) k")
  show ?case
  proof (cases x)
    case (Ok u)
    then have k1: "routes k1 = insert (podRoute veth ipc t r) (routes k)" "rules4 k1 = rules4 k" "rules6 k1 = rules6 k"
      using A x by simp_all
    have "addRoutes K veth ipc t (r # rs) k = addRoutes K veth ipc t rs k1"
      using x Ok by (simp add: acase_def podRoute_def)
    then show ?thesis using Cons.IH[of k1] k1
      by (cases "addRoutes K veth ipc t rs k1"; cases "fst (addRoutes K veth ipc t rs k1)") auto
  qed (use A x in \<open>simp_all add: acase_def podRoute_def aret_def\<close>)
qed

lemma findFreeTable_kernel:
  assumes "kernel_tables K rules4 rules6 routes"
  shows "case findFreeTable K start k of
      (Ok t, k') \<Rightarrow> k' = k \<and> start \<le> t \<and> t < MaxUint32 \<and> t \<notin> ru_Table ` set (rules4 k @ rules6 k)
    | (Err e, k') \<Rightarrow> k' = k | (Panic, k') \<Rightarrow> False"
  using freeFrom_Some[of "map ru_Table (rules4 k @ rules6 k)" start]
    kernel_tablesD(1,2)[OF assms, where k = k]
  by (cases "freeFrom (map ru_Table (rules4 k @ rules6 k)) start") (auto simp: findFreeTable_def act_simps)

lemma tryTables_effect:
  assumes K: "kernel_tables K rules4 rules6 routes" and s: "0 \<le> start" "start < MaxUint32"
  shows "case tryTables K veth ipc rs start n i k of
      (Ok t, k') \<Rightarrow> rules4 k' = rules4 k \<and> rules6 k' = rules6 k \<and> routes k \<subseteq> routes k' \<and>
        (t \<noteq> -1 \<longrightarrow> start \<le> t \<and> t < MaxUint32 \<and> t \<notin> ru_Table ` set (rules4 k @ rules6 k) \<and> podRoute veth ipc t ` set rs \<subseteq> routes k')
    | (Err e, k') \<Rightarrow> rules4 k' = rules4 k \<and> rules6 k' = rules6 k \<and> routes k \<subseteq> routes k'
    | (Panic, k') \<Rightarrow> False"
proof (induction n arbitrary: i k)
  case 0
  then show ?case by (simp add: aret_def)
next
  case (Suc n)
  obtain j k1 where j: "k_Intn K 1000 k = (Ok j, k1)" "j < 1000" "routes k1 = routes k" "rules4 k1 = rules4 k" "rules6 k1 = rules6 k"
    using kernel_tablesD(5)[OF K, where n = 1000 and k = k] by auto
  have w: "int64 (start + int j) = start + int j" by (rule int64_id) (use s j(2) in \<open>auto simp: MaxUint32_def\<close>)
  obtain x k2 where f: "findFreeTable K (start + int j) k1 = (x, k2)" by (cases "findFreeTable K (start + int j) k1")
  show ?case
  proof (cases x)
    case (Ok t)
    have t: "k2 = k1" "start \<le> t" "t < MaxUint32" "t \<notin> ru_Table ` set (rules4 k @ rules6 k)"
      using findFreeTable_kernel[OF K, where start = "start + int j" and k = k1] f Ok j by auto
    obtain y k3 where a: "addRoutes K veth ipc t rs k1 = (y, k3)" by (cases "addRoutes K veth ipc t rs k1")
    then obtain b where y: "y = Ok b" and b: "rules4 k3 = rules4 k" "rules6 k3 = rules6 k" "routes k \<subseteq> routes k3"
        "b \<longrightarrow> podRoute veth ipc t ` set rs \<subseteq> routes k3"
      using addRoutes_effect[OF K, where veth = veth and ipc = ipc and t = t and rs = rs and k = k1] j by (cases y) auto
    show ?thesis
    proof (cases b)
      case True
      then show ?thesis using j(1) w f Ok a y b t s(1) by (simp add: act_simps Let_def)
    next
      case False
      have pos: "0 < min maxSleep (baseSleep * 2 ^ i)" by (simp add: maxSleep_def baseSleep_def)
      obtain v k4 where v: "k_Intn K (min maxSleep (baseSleep * 2 ^ i)) k3 = (Ok v, k4)" "routes k4 = routes k3"
          "rules4 k4 = rules4 k3" "rules6 k4 = rules6 k3"
        using kernel_tablesD(5)[OF K pos, where k = k3] by auto
      have "tryTables K veth ipc rs start (Suc n) i k = tryTables K veth ipc rs start n (Suc i) k4"
        using j(1) w f Ok a y t(1) False v(1) by (simp add: act_simps Let_def)
      then show ?thesis using Suc.IH[of k4 "Suc i"] b v(2-4)
        by (cases "tryTables K veth ipc rs start n (Suc i) k4"; cases "fst (tryTables K veth ipc rs start n (Suc i) k4)") auto
    qed
  qed (use findFreeTable_kernel[OF K, where start = "start + int j" and k = k1] j w f in \<open>auto simp: act_simps\<close>)
qed

definition podRule :: "nlLink \<Rightarrow> int \<Rightarrow> Rule" where
  "podRule veth t = NewRule\<lparr>ru_IifName := lk_Name veth, ru_Table := t, ru_Priority := podRulePriority\<rparr>"

text \<open>C17. Policy routing for a container: when \<^verbatim>\<open>addPolicyRules\<close> succeeds, it has added exactly one rule, which sends what
  comes in from the container's interface to a table from the configured start on that no rule named before,
  and all routes of the container are in that table; the routes are passed on sorted. When it
  fails no rule was added. It never panics and removes no route.\<close>

theorem addPolicyRules_isolates:
  assumes "kernel_tables K rules4 rules6 routes" and "0 \<le> start" and "start < MaxUint32"
  shows "case addPolicyRules K veth ipc rs start k of
      (Ok rs', k') \<Rightarrow> mset rs' = mset rs \<and> sorted (map (\<lambda>r. netString (cr_Dst r)) rs') \<and> rules6 k' = rules6 k \<and>
        (\<exists>t. rules4 k' = rules4 k @ [podRule veth t] \<and> start \<le> t \<and> t < MaxUint32 \<and>
             t \<notin> ru_Table ` set (rules4 k @ rules6 k) \<and> podRoute veth ipc t ` set rs \<subseteq> routes k') \<and> routes k \<subseteq> routes k'
    | (Err e, k') \<Rightarrow> rules4 k' = rules4 k \<and> rules6 k' = rules6 k \<and> routes k \<subseteq> routes k'
    | (Panic, k') \<Rightarrow> False"
proof -
  let ?rs = "sortRoutes rs"
  have rs: "mset ?rs = mset rs" "set ?rs = set rs" "sorted (map (\<lambda>r. netString (cr_Dst r)) ?rs)" by (simp_all add: sortRoutes_def)
  note T = tryTables_effect[OF assms, where veth = veth and ipc = ipc and rs = ?rs and n = 10 and i = 0 and k = k]
  obtain x k1 where x: "tryTables K veth ipc ?rs start 10 0 k = (x, k1)" by (cases "tryTables K veth ipc ?rs start 10 0 k")
  show ?thesis
  proof (cases x)
    case (Ok t)
    note A = kernel_tablesD(4)[OF assms(1), where r' = "podRule veth t" and k = k1]
    show ?thesis
    proof (cases "t = -1")
      case False
      obtain y k2 where y: "k_RuleAdd K (podRule veth t) k1 = (y, k2)" by (cases "k_RuleAdd K (podRule veth t) k1")
      then show ?thesis using A T x Ok False rs
        by (cases y) (auto simp: addPolicyRules_def Let_def act_simps podRule_def)
    qed (use T x Ok in \<open>simp add: addPolicyRules_def Let_def act_simps\<close>)
  qed (use T x in \<open>simp_all add: addPolicyRules_def Let_def act_simps\<close>)
qed


section \<open>A small kernel\<close>

text \<open>A network state with rules and routes, on which the calls of the plugin always find what they look for.\<close>

record demokern =
  dk_rules4 :: "Rule list"
  dk_rules6 :: "Rule list"
  dk_routes :: "nlRoute list"

definition demo_link :: "string \<Rightarrow> nlLink" where
  "demo_link name = \<lparr>lk_Index = 7, lk_Name = name, lk_HardwareAddr = [2, 0, 0, 0, 0, 1], lk_Alias = []\<rparr>"

definition demo_kern :: "demokern kern" where
  "demo_kern = \<lparr>k_LinkByName = (\<lambda>n. aret (demo_link n)), k_LinkByIndex = (\<lambda>i. aret (demo_link ''veth1'')),
     k_LinkDel = (\<lambda>_. aret ()), k_AddrList = (\<lambda>_. aret [\<lparr>IPNet_IP = [10, 0, 0, 5], IPNet_Mask = CIDRMask 24 32\<rparr>]),
     k_InterfaceByName = (\<lambda>n. aret (demo_link n)), k_VethPeerIndex = (\<lambda>_. aret 7),
     k_SetupVeth = (\<lambda>n m. aret (demo_link ''veth1'', demo_link n)),
     k_RouteAdd = (\<lambda>r k. if r \<in> set (dk_routes k) then (Err ''file exists'', k) else (Ok (), k\<lparr>dk_routes := r # dk_routes k\<rparr>)),
     k_RuleList = (\<lambda>f k. (Ok (if f = FAMILY_V4 then dk_rules4 k else dk_rules6 k), k)),
     k_RuleAdd = (\<lambda>r k. (Ok (), k\<lparr>dk_rules4 := dk_rules4 k @ [r]\<rparr>)), k_RuleDel = (\<lambda>_. aret ()),
     k_GetNS = (\<lambda>_. aret ()), k_nsSet = (\<lambda>_. aret ()), k_nsBack = aret (), k_iptables = aret (),
     k_AppendUnique = (\<lambda>_ _ _. aret ()), k_Sysctl = (\<lambda>_ _. aret ()), k_EnableIP4Forward = aret (), k_EnableIP6Forward = aret (),
     k_SetupIPMasq = (\<lambda>_ _ _. aret ()), k_TeardownIPMasq = (\<lambda>_ _ _. aret ()), k_Arp = (\<lambda>_ _. aret ()), k_Intn = (\<lambda>_. aret 0),
     k_FormatChainName = (\<lambda>n i. ''CNI-'' @ n), k_FormatComment = (\<lambda>n i. n), k_showLink = lk_Name, k_showRule = (\<lambda>_. ''rule'')\<rparr>"

lemma demo_kernel: "kernel_tables demo_kern dk_rules4 dk_rules6 (\<lambda>k. set (dk_routes k))"
  by (auto simp: kernel_tables_def demo_kern_def FAMILY_V4_def FAMILY_V6_def aret_def)

definition demo_net0 :: demokern where
  "demo_net0 = \<lparr>dk_rules4 = [NewRule\<lparr>ru_Table := 254\<rparr>, NewRule\<lparr>ru_Table := 256\<rparr>], dk_rules6 = [NewRule\<lparr>ru_Table := 257\<rparr>], dk_routes = []\<rparr>"

definition demo_ipc :: IPConfig where
  "demo_ipc = \<lparr>ipc_Version = ''4'', ipc_Interface = Some 0, ipc_Address = \<lparr>IPNet_IP = [10, 0, 0, 9], IPNet_Mask = CIDRMask 24 32\<rparr>,
     ipc_Gateway = [10, 0, 0, 1]\<rparr>"

definition demo_routes :: "cniRoute list" where
  "demo_routes = [\<lparr>cr_Dst = hostNet [10, 9, 9, 9], cr_GW = []\<rparr>, \<lparr>cr_Dst = hostNet [10, 1, 1, 1], cr_GW = []\<rparr>]"

theorem findFreeTable_first_witness:
  "fst (findFreeTable demo_kern 256 demo_net0) = Ok 258 \<and> is_Ok (fst (findFreeTable demo_kern 256 demo_net0))"
proof -
  have 1: "k_RuleList demo_kern FAMILY_V4 demo_net0 = (Ok (dk_rules4 demo_net0), demo_net0)"
    "k_RuleList demo_kern FAMILY_V6 demo_net0 = (Ok (dk_rules6 demo_net0), demo_net0)"
    by (simp_all add: demo_kern_def FAMILY_V4_def FAMILY_V6_def)
  have "is_Ok (fst (findFreeTable demo_kern 256 demo_net0))"
    using findFreeTable_first[OF 1, of 256] by (simp add: demo_net0_def MaxUint32_def)
  moreover have "fst (findFreeTable demo_kern 256 demo_net0) = Ok 258" by code_simp
  ultimately show ?thesis by simp
qed

theorem addPolicyRules_isolates_witness:
  "\<exists>t rs' k'. addPolicyRules demo_kern (demo_link ''veth1'') demo_ipc demo_routes 256 demo_net0 = (Ok rs', k') \<and>
     dk_rules4 k' = dk_rules4 demo_net0 @ [podRule (demo_link ''veth1'') t] \<and>
     t \<notin> ru_Table ` set (dk_rules4 demo_net0 @ dk_rules6 demo_net0)"
proof -
  have "is_Ok (fst (addPolicyRules demo_kern (demo_link ''veth1'') demo_ipc demo_routes 256 demo_net0))" by code_simp
  then obtain rs' k' where r: "addPolicyRules demo_kern (demo_link ''veth1'') demo_ipc demo_routes 256 demo_net0 = (Ok rs', k')"
    by (cases "addPolicyRules demo_kern (demo_link ''veth1'') demo_ipc demo_routes 256 demo_net0") (auto simp: is_Ok_iff)
  show ?thesis
    using addPolicyRules_isolates[OF demo_kernel, where start = 256 and veth = "demo_link ''veth1''" and ipc = demo_ipc
        and rs = demo_routes and k = demo_net0] r
    by (auto simp: MaxUint32_def)
qed

section \<open>The node port rule\<close>

text \<open>The calls that set marks and the sysctl do not touch the rules of policy routing.\<close>

definition marks_keep_rules :: "'k kern \<Rightarrow> ('k \<Rightarrow> Rule list) \<Rightarrow> bool" where
  "marks_keep_rules K rules4 \<longleftrightarrow> keeps rules4 (k_iptables K) \<and> (\<forall>t c r. keeps rules4 (k_AppendUnique K t c r)) \<and>
     (\<forall>n v. keeps rules4 (k_Sysctl K n v))"

definition isNodePortRule :: "int \<Rightarrow> Rule \<Rightarrow> bool" where
  "isNodePortRule m r \<longleftrightarrow> ru_Table r = RT_TABLE_MAIN \<and> ru_Mark r = m \<and> ru_Priority r = nodePortRulePriority"

lemma setupNodePortRule_effect:
  assumes "kernel_tables K rules4 rules6 routes" and "marks_keep_rules K rules4"
  shows "case setupNodePortRule K i p m k of
      (Ok _, k') \<Rightarrow> rules4 k' = (if list_ex (isNodePortRule m) (rules4 k) then rules4 k else rules4 k @ [nodePortRule m])
    | (Err e, k') \<Rightarrow> rules4 k' = rules4 k | (Panic, k') \<Rightarrow> False"
proof -
  define pre where "pre = abind (awrap (\<lambda>e. ''failed to locate iptables: '' @ e) (k_iptables K)) (\<lambda>_.
     abind (nodePortMarks K i p m) (\<lambda>_.
     awrap (\<lambda>e. ''failed to set RP filter to loose for interface '' @ quote i @ '': '' @ e)
              (k_Sysctl K (''net.ipv4.conf.'' @ i @ ''.rp_filter'') ''2'')))"
  have q: "keeps rules4 (k_iptables K)" "\<And>t c r. keeps rules4 (k_AppendUnique K t c r)" "\<And>n v. keeps rules4 (k_Sysctl K n v)"
    using assms(2) by (simp_all add: marks_keep_rules_def)
  have P: "keeps rules4 pre" unfolding pre_def nodePortMarks_def Let_def by (intro keeps_intros q)
  obtain x k1 where x: "pre k = (x, k1)" by (cases "pre k")
  have k1: "x \<noteq> Panic" "rules4 k1 = rules4 k" using P x unfolding keeps_def by (metis fst_conv, metis snd_conv)
  note L = kernel_tablesD(1)[OF assms(1), where k = k1]
    and A = kernel_tablesD(4)[OF assms(1), where r' = "nodePortRule m" and k = k1]
  define post where "post = (\<lambda>_ :: unit. abind (awrap (\<lambda>e. ''Unable to retrive IP rules '' @ e) (k_RuleList K FAMILY_V4)) (\<lambda>rules.
      if list_ex (isNodePortRule m) rules then aret ()
      else awrap (\<lambda>e. ''failed to add policy rule '' @ k_showRule K (nodePortRule m) @ '': '' @ e) (k_RuleAdd K (nodePortRule m))))"
  have "(\<lambda>r. ru_Table r = ru_Table (nodePortRule m) \<and> ru_Mark r = ru_Mark (nodePortRule m) \<and> ru_Priority r = ru_Priority (nodePortRule m))
      = isNodePortRule m"
    by (simp add: fun_eq_iff nodePortRule_def isNodePortRule_def)
  then have s: "setupNodePortRule K i p m = abind pre post"
    unfolding setupNodePortRule_def pre_def post_def Let_def abind_assoc by simp
  have e: "setupNodePortRule K i p m k = (case x of Ok _ \<Rightarrow>
       (if list_ex (isNodePortRule m) (rules4 k1) then (Ok (), k1)
        else awrap (\<lambda>e. ''failed to add policy rule '' @ k_showRule K (nodePortRule m) @ '': '' @ e) (k_RuleAdd K (nodePortRule m)) k1)
     | Err e \<Rightarrow> (Err e, k1) | Panic \<Rightarrow> (Panic, k1))"
    using x L by (cases x) (simp_all add: s abind_def post_def awrap_def acase_def aret_def)
  show ?thesis
  proof (cases x)
    case (Ok u)
    then show ?thesis using e k1 A
      by (cases "k_RuleAdd K (nodePortRule m) k1"; cases "fst (k_RuleAdd K (nodePortRule m) k1)") (auto simp: act_simps)
  qed (use e k1 in auto)
qed

text \<open>\<^verbatim>\<open>setupNodePortRule\<close> leaves exactly one place for the traffic of node ports: when it succeeds, the rule for
  the mark is there, it was added only if no rule with the same table, mark and priority existed, and running it
  again, for whatever interface and ports, changes no rule any more.\<close>

theorem setupNodePortRule_idempotent:
  assumes "kernel_tables K rules4 rules6 routes" and "marks_keep_rules K rules4"
  shows "case setupNodePortRule K i p m k of
      (Ok _, k1) \<Rightarrow> list_ex (isNodePortRule m) (rules4 k1) \<and>
        rules4 k1 = (if list_ex (isNodePortRule m) (rules4 k) then rules4 k else rules4 k @ [nodePortRule m]) \<and>
        rules4 (snd (setupNodePortRule K i' p' m k1)) = rules4 k1
    | (Err e, k1) \<Rightarrow> rules4 k1 = rules4 k | (Panic, k1) \<Rightarrow> False"
proof -
  obtain x k1 where x: "setupNodePortRule K i p m k = (x, k1)" by (cases "setupNodePortRule K i p m k")
  obtain y k2 where y: "setupNodePortRule K i' p' m k1 = (y, k2)" by (cases "setupNodePortRule K i' p' m k1")
  have n: "isNodePortRule m (nodePortRule m)" by (simp add: isNodePortRule_def nodePortRule_def)
  show ?thesis
    using setupNodePortRule_effect[OF assms, where i = i and p = p and m = m and k = k]
      setupNodePortRule_effect[OF assms, where i = i' and p = p' and m = m and k = k1] x y n
    by (cases x; cases y) (auto split: if_splits)
qed

theorem setupNodePortRule_idempotent_witness:
  "case setupNodePortRule demo_kern ''eth0'' ''30000:32767'' 0x2000 demo_net0 of
      (Ok _, k1) \<Rightarrow> list_ex (isNodePortRule 0x2000) (dk_rules4 k1) \<and>
        dk_rules4 k1 = (if list_ex (isNodePortRule 0x2000) (dk_rules4 demo_net0) then dk_rules4 demo_net0
          else dk_rules4 demo_net0 @ [nodePortRule 0x2000]) \<and>
        dk_rules4 (snd (setupNodePortRule demo_kern ''eth1'' ''1:2'' 0x2000 k1)) = dk_rules4 k1
    | (Err e, k1) \<Rightarrow> dk_rules4 k1 = dk_rules4 demo_net0 | (Panic, k1) \<Rightarrow> False"
  by (rule setupNodePortRule_idempotent[OF demo_kernel])
     (simp add: marks_keep_rules_def keeps_def demo_kern_def aret_def)

section \<open>What ADD passes on\<close>

lemma setupContainerVeth_yields:
  "yields (\<lambda>(h, c, pr'). pr' = pr\<lparr>re_Interfaces := re_Interfaces pr @ [h, c]\<rparr> \<and> if_Sandbox c = netns \<and> if_Sandbox h = [])
     (setupContainerVeth K netns cidr ifName mtu ha masq v4 v6 kif pr)"
  unfolding setupContainerVeth_def Let_def by (intro yields_nsDo yields_intros) simp_all

lemma addPolicyRules_yields: "yields (\<lambda>rs'. rs' = sortRoutes rs) (addPolicyRules K veth ipc rs start)"
  unfolding addPolicyRules_def Let_def by (intro yields_intros refl)

lemma setupHostVeth_yields:
  "yields (\<lambda>res'. re_IPs res' = re_IPs res \<and> re_DNS res' = re_DNS res \<and> re_Interfaces res' = re_Interfaces res \<and>
     mset (re_Routes res') = mset (re_Routes res)) (setupHostVeth K v ha masq start res)"
proof -
  have "yields (\<lambda>rs'. mset rs' = mset (re_Routes res))
      (awrap f (addPolicyRules K veth ipc (re_Routes res) start))" for veth ipc f
    by (intro yields_awrap yields_mono[OF addPolicyRules_yields]) (simp add: sortRoutes_def)
  note R = this
  show ?thesis unfolding setupHostVeth_def
    by (rule yields_if, rule yields_leaf, simp, rule yields_then, rule yields_then, rule yields_abind[OF R], intro yields_intros) simp
qed

text \<open>An ADD of the plugin \<^verbatim>\<open>veth-host\<close> that succeeds was chained behind a plugin that gave the container an address,
  and passes on the previous result with its addresses as they were, its routes in sorted order and two
  more interfaces: the end on the node and the end in the container's namespace.\<close>

theorem vethhost_ADD_passes_on:
  assumes "vethhost_cmdAdd K unmarshal newResult printResult args k = (Ok out, k')"
  shows "\<exists>conf prev res h c. parseConfig unmarshal newResult (ca_StdinData args) = Ok conf \<and> pc_PrevResult conf = Some prev \<and>
     containerIPsOf (pc_CNIVersion conf) (ca_IfName args) prev \<noteq> [] \<and> printResult res (pc_CNIVersion conf) = Ok out \<and>
     re_IPs res = re_IPs prev \<and> re_DNS res = re_DNS prev \<and> mset (re_Routes res) = mset (re_Routes prev) \<and>
     re_Interfaces res = re_Interfaces prev @ [h, c] \<and> if_Sandbox h = [] \<and> if_Sandbox c = ca_Netns args"
proof -
  let ?Q = "\<lambda>out. \<exists>conf prev res h c. parseConfig unmarshal newResult (ca_StdinData args) = Ok conf \<and> pc_PrevResult conf = Some prev \<and>
     containerIPsOf (pc_CNIVersion conf) (ca_IfName args) prev \<noteq> [] \<and> printResult res (pc_CNIVersion conf) = Ok out \<and>
     re_IPs res = re_IPs prev \<and> re_DNS res = re_DNS prev \<and> mset (re_Routes res) = mset (re_Routes prev) \<and>
     re_Interfaces res = re_Interfaces prev @ [h, c] \<and> if_Sandbox h = [] \<and> if_Sandbox c = ca_Netns args"
  have "yields ?Q (vethhost_cmdAdd K unmarshal newResult printResult args)"
    unfolding vethhost_cmdAdd_def Let_def
    apply (rule yields_abind[OF yields_alift[where P = "\<lambda>conf. parseConfig unmarshal newResult (ca_StdinData args) = Ok conf"]], assumption)
    subgoal for conf
      apply (cases "pc_PrevResult conf"; simp only: option.case; (rule yields_leaf)?)
      apply (rule yields_if, rule yields_leaf, rule yields_then, rule yields_then)
      apply (rule yields_abind[OF setupContainerVeth_yields], simp only: split_paired_all prod.case, (erule conjE)+, hypsubst)
      apply (rule yields_abind[OF setupHostVeth_yields])
      apply (intro yields_then yields_alift)
      apply fastforce
      done
    done
  then show ?thesis using assms unfolding yields_def by blast
qed

definition demo_conf :: PluginConf where
  "demo_conf = \<lparr>pc_Name = ''net'', pc_CNIVersion = ''0.3.1'', pc_RawPrevResult = Some ''{}'', pc_PrevResult = None, pc_IPMasq = True,
     pc_HostInterface = ''eth0'', pc_ServiceCidr = ''172.16.0.0/16'', pc_ContainerInterface = ''veth0'', pc_MTU = 1500, pc_TableStart = 0,
     pc_NodePortMark = 0, pc_NodePorts = []\<rparr>"

definition demo_prev :: cniResult where
  "demo_prev = \<lparr>re_Interfaces = [\<lparr>if_Name = ''eth0'', if_Mac = [], if_Sandbox = ''/ns''\<rparr>], re_IPs = [demo_ipc], re_Routes = demo_routes, re_DNS = noDNS\<rparr>"

definition demo_show :: "cniResult \<Rightarrow> string \<Rightarrow> string result" where
  "demo_show r v = Ok (join '' '' (v # map if_Name (re_Interfaces r)))"

theorem vethhost_ADD_passes_on_witness:
  "\<exists>res h c. demo_show res ''0.3.1'' = Ok ''0.3.1 eth0 veth1 veth0'' \<and> re_IPs res = re_IPs demo_prev \<and>
     re_Interfaces res = re_Interfaces demo_prev @ [h, c] \<and> if_Sandbox c = ''/ns''"
proof -
  let ?add = "vethhost_cmdAdd demo_kern (\<lambda>_. Ok demo_conf) (\<lambda>_ _. Ok demo_prev) demo_show demo_args demo_net0"
  have "fst ?add = Ok ''0.3.1 eth0 veth1 veth0''" by code_simp
  then have a: "?add = (Ok ''0.3.1 eth0 veth1 veth0'', snd ?add)" by (metis prod.collapse)
  have c: "parseConfig (\<lambda>_. Ok demo_conf) (\<lambda>_ _. Ok demo_prev) s = Ok conf \<Longrightarrow>
      pc_PrevResult conf = Some demo_prev \<and> pc_CNIVersion conf = ''0.3.1''" for s conf
    by (auto simp: parseConfig_def demo_conf_def Let_def)
  show ?thesis using vethhost_ADD_passes_on[OF a] c by (fastforce simp: demo_args_def)
qed

end
