(* ===== verification/HostDevice.thy ===== *)
theory HostDevice
  imports Netlink
begin

text \<open>
  \<^verbatim>\<open>cmd/host-device/host-device.go\<close>: the plugin that moves an interface of the node into the namespace of a
  container and back. The further netlink calls and directory reads it makes are the record \<open>linkops\<close>,
  the IPAM plugins it delegates to the record \<open>ipamops\<close> (shared with the plugins that follow). A state is the pair of the
  network and the node with its cloud, since the address of the interface is looked up in neutron.
\<close>

section \<open>Calls\<close>

record 'k linkops =
  l_LinkList :: "('k, nlLink list) act"
  l_SetNs :: "nlLink \<Rightarrow> string \<Rightarrow> ('k, unit) act"
  l_SetAlias :: "nlLink \<Rightarrow> string \<Rightarrow> ('k, unit) act"
  l_SetName :: "nlLink \<Rightarrow> string \<Rightarrow> ('k, unit) act"
  l_SetDown :: "nlLink \<Rightarrow> ('k, unit) act"
  l_CurrentNS :: "('k, string) act"
  l_ReadDir :: "string \<Rightarrow> ('k, string list) act"
  l_Lstat :: "string \<Rightarrow> ('k, unit) act"
  l_Glob :: "string \<Rightarrow> ('k, string list) act"

text \<open>\<open>ip_NewResult\<close> stands for \<^verbatim>\<open>current.NewResultFromResult\<close>.\<close>

record 'w ipamops =
  ip_ExecAdd :: "string \<Rightarrow> string \<Rightarrow> ('w, string) act"
  ip_ExecDel :: "string \<Rightarrow> string \<Rightarrow> ('w, unit) act"
  ip_NewResult :: "string \<Rightarrow> cniResult result"
  ip_ConfigureIface :: "string \<Rightarrow> cniResult \<Rightarrow> ('w, unit) act"

definition onNet :: "('k, 'a) act \<Rightarrow> ('k \<times> 's, 'a) act" where
  "onNet m = (\<lambda>(k, s). case m k of (r, k') \<Rightarrow> (r, (k', s)))"

definition onNode :: "('s, 'a) act \<Rightarrow> ('k \<times> 's, 'a) act" where
  "onNode m = (\<lambda>(k, s). case m s of (r, s') \<Rightarrow> (r, (k, s')))"

text \<open>\<^verbatim>\<open>net.ParseMAC\<close>.\<close>

definition xtoi2 :: "string \<Rightarrow> char \<Rightarrow> 8 word option" where
  "xtoi2 s e = (if length s > 2 \<and> s ! 2 \<noteq> e then None
     else case xtoi (take 2 s) of Some (n, rest) \<Rightarrow> if length s \<ge> 2 \<and> rest = [] then Some (of_nat n) else None | None \<Rightarrow> None)"

fun parsePairs :: "nat \<Rightarrow> char \<Rightarrow> string \<Rightarrow> 8 word list option" where
  "parsePairs 0 e s = Some []"
| "parsePairs (Suc n) e s = (case xtoi2 s e of None \<Rightarrow> None
     | Some b \<Rightarrow> (case parsePairs n e (drop 3 s) of None \<Rightarrow> None | Some bs \<Rightarrow> Some (b # bs)))"

fun parseQuads :: "nat \<Rightarrow> string \<Rightarrow> 8 word list option" where
  "parseQuads 0 s = Some []"
| "parseQuads (Suc n) s = (case xtoi2 (take 2 s) (CHR 0x00) of None \<Rightarrow> None
     | Some a \<Rightarrow> (case xtoi2 (drop 2 s) (CHR ''.'') of None \<Rightarrow> None
     | Some b \<Rightarrow> (case parseQuads n (drop 5 s) of None \<Rightarrow> None | Some bs \<Rightarrow> Some (a # b # bs))))"

definition ParseMAC :: "string \<Rightarrow> 8 word list result" where
  "ParseMAC s =
     (let len = length s; bad = Err (''address '' @ s @ '': invalid MAC address'') in
      case (if len < 14 then None
            else if s ! 2 = CHR '':'' \<or> s ! 2 = CHR ''-'' then
              (let n = (len + 1) div 3 in
               if (len + 1) mod 3 \<noteq> 0 \<or> n \<notin> {6, 8, 20} then None else parsePairs n (s ! 2) s)
            else if s ! 4 = CHR ''.'' then
              (let n = 2 * (len + 1) div 5 in
               if (len + 1) mod 5 \<noteq> 0 \<or> n \<notin> {6, 8, 20} then None else parseQuads (n div 2) s)
            else None) of
        Some hw \<Rightarrow> Ok hw | None \<Rightarrow> bad)"

section \<open>Configuration\<close>

record HDConf =
  hd_Name :: string
  hd_CNIVersion :: string
  hd_IPAMType :: string
  hd_DNS :: DNS
  hd_Device :: string
  hd_HWAddr :: string
  hd_KernelPath :: string
  hd_PCIAddr :: string
  hd_DeviceID :: string

definition hd_loadConf :: "(string \<Rightarrow> HDConf result) \<Rightarrow> string \<Rightarrow> HDConf result" where
  "hd_loadConf unmarshal bytes =
     (case unmarshal bytes of
        Err e \<Rightarrow> Err (''failed to load netconf: '' @ e)
      | Panic \<Rightarrow> Panic
      | Ok n \<Rightarrow> Ok (if hd_DeviceID n \<noteq> [] then n\<lparr>hd_PCIAddr := hd_DeviceID n\<rparr> else n))"

section \<open>Finding and moving the interface\<close>

definition sysBusPCI :: string where
  "sysBusPCI = ''/sys/bus/pci/devices''"

definition getLinkByMAC :: "string \<Rightarrow> nlLink list \<Rightarrow> ('k, nlLink) act" where
  "getLinkByMAC hwaddr links =
     abind (awrap (\<lambda>e. ''failed to parse MAC address '' @ quote hwaddr @ '': '' @ e) (alift (ParseMAC hwaddr))) (\<lambda>hwAddr.
     (case List.find (\<lambda>link. lk_HardwareAddr link = hwAddr) links of
        Some link \<Rightarrow> aret link
      | None \<Rightarrow> aerr ''failed to find physical interface''))"

definition getLinkByPath :: "'k linkops \<Rightarrow> string \<Rightarrow> nlLink list \<Rightarrow> ('k, nlLink) act" where
  "getLinkByPath H kernelpath links =
     (if \<not> (hd kernelpath = CHR ''/'') \<or> \<not> hasPrefix kernelpath ''/sys/devices/''
      then aerr (''kernel device path '' @ quote kernelpath @ '' must be absolute and begin with /sys/devices/'')
      else
      let netDir = pathJoin kernelpath ''net'' in
      abind (awrap (\<lambda>_. ''failed to find network devices at '' @ quote netDir) (l_ReadDir H netDir)) (\<lambda>files.
      (case List.find (\<lambda>l. l \<noteq> None) (map (\<lambda>file. List.find (\<lambda>l. file = lk_Name l) links) files) of
         Some (Some l) \<Rightarrow> aret l
       | _ \<Rightarrow> aerr ''failed to find physical interface'')))"

definition getLinkByPCI :: "'k kern \<Rightarrow> 'k linkops \<Rightarrow> string \<Rightarrow> ('k, nlLink) act" where
  "getLinkByPCI K H pciaddr =
     (let netDir = pathJoin (pathJoin sysBusPCI pciaddr) ''net'';
          noNet = aerr (''no net directory under pci device '' @ pciaddr) in
      abind (acase (l_Lstat H netDir)
               (\<lambda>_. aret netDir)
               (\<lambda>_. acase (l_Glob H (pathJoin (pathJoin (pathJoin sysBusPCI pciaddr) ''virtio*'') ''net''))
                      (\<lambda>matches. case matches of [] \<Rightarrow> noNet | m # _ \<Rightarrow> aret m)
                      (\<lambda>_. noNet))) (\<lambda>netDir.
      abind (awrap (\<lambda>e. ''failed to read net directory '' @ netDir @ '': '' @ quote e) (l_ReadDir H netDir)) (\<lambda>fInfo.
      (case fInfo of
         f # _ \<Rightarrow> k_LinkByName K f
       | [] \<Rightarrow> aerr (''failed to find device name for pci address '' @ pciaddr)))))"

definition getLink :: "'k kern \<Rightarrow> 'k linkops \<Rightarrow> string \<Rightarrow> string \<Rightarrow> string \<Rightarrow> string \<Rightarrow> ('k, nlLink) act" where
  "getLink K H devname hwaddr kernelpath pciaddr =
     abind (awrap (\<lambda>e. ''failed to list node links: '' @ e) (l_LinkList H)) (\<lambda>links.
     if length devname > 0 then k_LinkByName K devname
     else if length hwaddr > 0 then getLinkByMAC hwaddr links
     else if length kernelpath > 0 then getLinkByPath H kernelpath links
     else if length pciaddr > 0 then getLinkByPCI K H pciaddr
     else aerr ''failed to find physical interface'')"

definition moveLinkIn :: "'k kern \<Rightarrow> 'k linkops \<Rightarrow> nlLink \<Rightarrow> string \<Rightarrow> string \<Rightarrow> ('k, nlLink) act" where
  "moveLinkIn K H hostDev containerNs ifName =
     abind (l_SetNs H hostDev containerNs) (\<lambda>_.
     nsDo K containerNs
       (abind (awrap (\<lambda>e. ''failed to find '' @ quote (lk_Name hostDev) @ '': '' @ e) (k_LinkByName K (lk_Name hostDev))) (\<lambda>contDev.
        abind (awrap (\<lambda>e. ''failed to set alias to '' @ quote (lk_Name hostDev) @ '': '' @ e) (l_SetAlias H contDev (lk_Name hostDev))) (\<lambda>_.
        abind (awrap (\<lambda>e. ''failed to rename device '' @ quote (lk_Name hostDev) @ '' to '' @ quote ifName @ '': '' @ e)
                 (l_SetName H contDev ifName)) (\<lambda>_.
        awrap (\<lambda>e. ''failed to find '' @ quote ifName @ '': '' @ e) (k_LinkByName K ifName))))))"

text \<open>The steps in the namespace of the container; the deferred rename runs only when the move itself fails.\<close>

definition moveOutSteps :: "'k kern \<Rightarrow> 'k linkops \<Rightarrow> string \<Rightarrow> string \<Rightarrow> ('k, unit) act" where
  "moveOutSteps K H defaultNs ifName =
     abind (awrap (\<lambda>e. ''failed to find '' @ quote ifName @ '': '' @ e) (k_LinkByName K ifName)) (\<lambda>dev.
     abind (awrap (\<lambda>e. ''failed to set '' @ quote ifName @ '' down: '' @ e) (l_SetDown H dev)) (\<lambda>_.
     abind (awrap (\<lambda>e. ''failed to restore '' @ quote ifName @ '' to original name '' @ quote (lk_Alias dev) @ '': '' @ e)
              (l_SetName H dev (lk_Alias dev))) (\<lambda>_.
     acase (l_SetNs H dev defaultNs)
       (\<lambda>_. aret ())
       (\<lambda>e. abind (aignore (l_SetName H dev ifName)) (\<lambda>_.
            aerr (''failed to move '' @ quote (lk_Alias dev) @ '' to host netns: '' @ e))))))"

definition moveLinkOut :: "'k kern \<Rightarrow> 'k linkops \<Rightarrow> string \<Rightarrow> string \<Rightarrow> ('k, unit) act" where
  "moveLinkOut K H containerNs ifName =
     abind (l_CurrentNS H) (\<lambda>defaultNs. nsDo K containerNs (moveOutSteps K H defaultNs ifName))"

section \<open>The commands\<close>

definition getLinkMacAddr ::
  "'c env \<Rightarrow> (string \<Rightarrow> Net result) \<Rightarrow> (string \<Rightarrow> ip result) \<Rightarrow> CmdArgs \<Rightarrow> ('c, string) sysact" where
  "getLinkMacAddr env netConf loadArgs args =
     abind (alift (LoadIPAMConfig env netConf loadArgs (ca_StdinData args) (ca_Args args))) (\<lambda>(ipamConf, _).
     abind (GetNetworkClient env ipamConf) (\<lambda>networkClient.
     abind (FindPort env networkClient (ca_ContainerID args)) (\<lambda>port.
     (case port of
        None \<Rightarrow> aerr (''can't find neutron port with name '' @ ca_ContainerID args)
      | Some p \<Rightarrow> aret (po_MACAddress p)))))"

text \<open>From the result of the IPAM plugin to the configured interface: the steps whose error makes ADD give
  the address back.\<close>

definition hd_attach ::
  "'k kern \<Rightarrow> 'k linkops \<Rightarrow> 'c env \<Rightarrow> ('k \<times> 'c sys) ipamops \<Rightarrow> (string \<Rightarrow> Net result) \<Rightarrow> (string \<Rightarrow> ip result) \<Rightarrow>
     HDConf \<Rightarrow> CmdArgs \<Rightarrow> cniResult \<Rightarrow> ('k \<times> 'c sys, cniResult) act" where
  "hd_attach K H env I netConf loadArgs cfg args res0 =
     abind (onNode (getLinkMacAddr env netConf loadArgs args)) (\<lambda>macAddr.
     abind (awrap (\<lambda>e. ''failed to find host device: '' @ e)
              (onNet (getLink K H (hd_Device cfg) macAddr (hd_KernelPath cfg) (hd_PCIAddr cfg)))) (\<lambda>hostDev.
     abind (awrap (\<lambda>e. ''failed to move link '' @ e) (onNet (moveLinkIn K H hostDev (ca_Netns args) (ca_IfName args)))) (\<lambda>contDev.
     (let res = res0\<lparr>re_Interfaces := [\<lparr>if_Name = lk_Name contDev, if_Mac = lk_Mac contDev, if_Sandbox = ca_Netns args\<rparr>],
                     re_IPs := map (\<lambda>ipc. ipc\<lparr>ipc_Interface := Some 0\<rparr>) (re_IPs res0)\<rparr>
      in
      abind (onNet (awrap (\<lambda>e. ''error switching to ns '' @ ca_Netns args @ '': '' @ e) (k_nsSet K (ca_Netns args)))) (\<lambda>_.
      abind (adefer (aignore (onNet (k_nsBack K))) (ip_ConfigureIface I (ca_IfName args) res)) (\<lambda>_.
      aret (res\<lparr>re_DNS := hd_DNS cfg\<rparr>)))))))"

definition missingIPErr :: string where
  "missingIPErr = ''IPAM plugin returned missing IP config''"

text \<open>\<^verbatim>\<open>printLink\<close> reads the attributes of the interface, which panics for a nil interface.\<close>

definition printLink :: "(cniResult \<Rightarrow> string \<Rightarrow> string result) \<Rightarrow> nlLink option \<Rightarrow> string \<Rightarrow> string \<Rightarrow> string result" where
  "printLink printResult dev cniVersion containerNs =
     (case dev of
        None \<Rightarrow> Panic
      | Some d \<Rightarrow> printResult \<lparr>re_Interfaces = [\<lparr>if_Name = lk_Name d, if_Mac = lk_Mac d, if_Sandbox = containerNs\<rparr>],
                    re_IPs = [], re_Routes = [], re_DNS = noDNS\<rparr> cniVersion)"

text \<open>Without an IPAM plugin the interface \<^verbatim>\<open>contDev\<close> is never set.\<close>

definition hostdevice_cmdAdd ::
  "'k kern \<Rightarrow> 'k linkops \<Rightarrow> 'c env \<Rightarrow> ('k \<times> 'c sys) ipamops \<Rightarrow> (string \<Rightarrow> HDConf result) \<Rightarrow> (string \<Rightarrow> Net result) \<Rightarrow>
     (string \<Rightarrow> ip result) \<Rightarrow> (cniResult \<Rightarrow> string \<Rightarrow> string result) \<Rightarrow> CmdArgs \<Rightarrow> ('k \<times> 'c sys, string) act" where
  "hostdevice_cmdAdd K H env I unmarshal netConf loadArgs printResult args =
     abind (alift (hd_loadConf unmarshal (ca_StdinData args))) (\<lambda>cfg.
     abind (onNet (awrap (\<lambda>e. ''failed to open netns '' @ quote (ca_Netns args) @ '': '' @ e) (k_GetNS K (ca_Netns args)))) (\<lambda>_.
     if hd_IPAMType cfg \<noteq> [] then
       abind (ip_ExecAdd I (hd_IPAMType cfg) (ca_StdinData args)) (\<lambda>r.
       (let cleanup = (\<lambda>e. abind (aignore (ip_ExecDel I (hd_IPAMType cfg) (ca_StdinData args))) (\<lambda>_. aerr e)) in
        acase (alift (ip_NewResult I r))
          (\<lambda>res0. if length (re_IPs res0) = 0 then aerr missingIPErr
             else acase (hd_attach K H env I netConf loadArgs cfg args res0)
                    (\<lambda>res. alift (printResult res (hd_CNIVersion cfg))) cleanup)
          cleanup))
     else alift (printLink printResult None (hd_CNIVersion cfg) (ca_Netns args))))"

definition hostdevice_cmdDel ::
  "'k kern \<Rightarrow> 'k linkops \<Rightarrow> ('k \<times> 's) ipamops \<Rightarrow> (string \<Rightarrow> HDConf result) \<Rightarrow> CmdArgs \<Rightarrow> ('k \<times> 's, unit) act" where
  "hostdevice_cmdDel K H I unmarshal args =
     abind (alift (hd_loadConf unmarshal (ca_StdinData args))) (\<lambda>cfg.
     if ca_Netns args = [] then ip_ExecDel I (hd_IPAMType cfg) (ca_StdinData args)
     else
     abind (onNet (awrap (\<lambda>e. ''failed to open netns '' @ quote (ca_Netns args) @ '': '' @ e) (k_GetNS K (ca_Netns args)))) (\<lambda>_.
     abind (onNet (moveLinkOut K H (ca_Netns args) (ca_IfName args))) (\<lambda>_.
     if hd_IPAMType cfg \<noteq> [] then ip_ExecDel I (hd_IPAMType cfg) (ca_StdinData args) else aret ())))"

end
