(* ===== verification/Triples.thy ===== *)
theory Triples
  imports Netlink
begin

text \<open>
  Rules for what holds before and after a call: \<open>tri\<close> for calls that do not panic, \<open>post\<close> for calls that may.
  Both follow the way calls are composed (\<open>abind\<close>, \<open>acase\<close>, loops and deferred statements).
\<close>

section \<open>Calls that do not panic\<close>

text \<open>\<open>tri\<close>: what holds of the state after an \<open>Ok\<close> with a value and after an \<open>Err\<close>.\<close>

definition tri :: "('k \<Rightarrow> bool) \<Rightarrow> ('k, 'a) act \<Rightarrow> ('a \<Rightarrow> 'k \<Rightarrow> bool) \<Rightarrow> ('k \<Rightarrow> bool) \<Rightarrow> bool" where
  "tri P m Q E \<longleftrightarrow> (\<forall>k. P k \<longrightarrow> (case m k of (Ok x, k') \<Rightarrow> Q x k' | (Err _, k') \<Rightarrow> E k' | (Panic, k') \<Rightarrow> False))"

lemma triI: "(\<And>k. P k \<Longrightarrow> case m k of (Ok x, k') \<Rightarrow> Q x k' | (Err _, k') \<Rightarrow> E k' | (Panic, k') \<Rightarrow> False) \<Longrightarrow> tri P m Q E"
  by (simp add: tri_def)

lemma triE:
  assumes "tri P m Q E" and "P k"
  obtains (Ok) x k' where "m k = (Ok x, k')" "Q x k'" | (Err) e k' where "m k = (Err e, k')" "E k'"
proof -
  obtain r k' where r: "m k = (r, k')" by (cases "m k")
  then show thesis using assms that unfolding tri_def by (cases r) (fastforce)+
qed

lemma tri_abind:
  assumes "tri P m R E" and "\<And>x. tri (R x) (f x) Q E"
  shows "tri P (abind m f) Q E"
proof (rule triI)
  fix k assume "P k"
  from assms(1) this show "case abind m f k of (Ok x, k') \<Rightarrow> Q x k' | (Err _, k') \<Rightarrow> E k' | (Panic, k') \<Rightarrow> False"
  proof (cases rule: triE)
    case (Ok x k')
    then show ?thesis using assms(2)[of x] by (simp add: abind_def tri_def)
  qed (simp add: abind_def)
qed

lemma tri_acase:
  assumes "tri P m R F" and "\<And>x. tri (R x) (f x) Q E" and "\<And>e. tri F (g e) Q E"
  shows "tri P (acase m f g) Q E"
proof (rule triI)
  fix k assume "P k"
  from assms(1) this show "case acase m f g k of (Ok x, k') \<Rightarrow> Q x k' | (Err _, k') \<Rightarrow> E k' | (Panic, k') \<Rightarrow> False"
  proof (cases rule: triE)
    case (Ok x k')
    then show ?thesis using assms(2)[of x] by (simp add: acase_def tri_def)
  next
    case (Err e k')
    then show ?thesis using assms(3)[of e] by (simp add: acase_def tri_def)
  qed
qed

lemma tri_aret: "(\<And>k. P k \<Longrightarrow> Q x k) \<Longrightarrow> tri P (aret x) Q E"
  by (simp add: tri_def aret_def)

lemma tri_aerr: "(\<And>k. P k \<Longrightarrow> E k) \<Longrightarrow> tri P (aerr e) Q E"
  by (simp add: tri_def aerr_def)

lemma tri_awrap: "tri P m Q E \<Longrightarrow> tri P (awrap f m) Q E"
  unfolding awrap_def by (erule tri_acase) (auto intro: tri_aret tri_aerr)

lemma tri_aignore: "tri P m (\<lambda>_. Q) Q \<Longrightarrow> tri P (aignore m) (\<lambda>_. Q) E"
  unfolding aignore_def by (erule tri_acase) (auto intro: tri_aret)

lemma tri_weaken:
  assumes "tri P m Q E" and "\<And>k. P' k \<Longrightarrow> P k" and "\<And>x k. Q x k \<Longrightarrow> Q' x k" and "\<And>k. E k \<Longrightarrow> E' k"
  shows "tri P' m Q' E'"
proof (rule triI)
  fix k assume "P' k"
  then have "P k" by (rule assms(2))
  from assms(1) this show "case m k of (Ok x, k') \<Rightarrow> Q' x k' | (Err _, k') \<Rightarrow> E' k' | (Panic, k') \<Rightarrow> False"
    by (cases rule: triE) (simp_all add: assms(3,4))
qed

section \<open>Calls that may panic\<close>

text \<open>\<open>post\<close>: what holds after a success and after an error with its text; a panic ends the process.\<close>

definition post :: "('w \<Rightarrow> bool) \<Rightarrow> ('w, 'a) act \<Rightarrow> ('a \<Rightarrow> 'w \<Rightarrow> bool) \<Rightarrow> (string \<Rightarrow> 'w \<Rightarrow> bool) \<Rightarrow> bool" where
  "post P m Q E \<longleftrightarrow> (\<forall>w. P w \<longrightarrow> (case m w of (Ok x, w') \<Rightarrow> Q x w' | (Err e, w') \<Rightarrow> E e w' | (Panic, w') \<Rightarrow> True))"

lemma postI: "(\<And>w. P w \<Longrightarrow> case m w of (Ok x, w') \<Rightarrow> Q x w' | (Err e, w') \<Rightarrow> E e w' | (Panic, w') \<Rightarrow> True) \<Longrightarrow> post P m Q E"
  by (simp add: post_def)

lemma postE:
  assumes "post P m Q E" and "P w"
  obtains (Ok) x w' where "m w = (Ok x, w')" "Q x w'" | (Err) e w' where "m w = (Err e, w')" "E e w'" | (Panic) w' where "m w = (Panic, w')"
proof -
  obtain r w' where r: "m w = (r, w')" by (cases "m w")
  then show thesis using assms that unfolding post_def by (cases r) fastforce+
qed

lemma post_abind:
  assumes "post P m R E" and "\<And>x. post (R x) (f x) Q E"
  shows "post P (abind m f) Q E"
proof (rule postI)
  fix w assume "P w"
  from assms(1) this show "case abind m f w of (Ok x, w') \<Rightarrow> Q x w' | (Err e, w') \<Rightarrow> E e w' | (Panic, w') \<Rightarrow> True"
  proof (cases rule: postE)
    case (Ok x w')
    then show ?thesis using assms(2)[of x] by (simp add: abind_def post_def)
  qed (simp_all add: abind_def)
qed

lemma post_acase:
  assumes "post P m R F" and "\<And>x. post (R x) (f x) Q E" and "\<And>e. post (F e) (g e) Q E"
  shows "post P (acase m f g) Q E"
proof (rule postI)
  fix w assume "P w"
  from assms(1) this show "case acase m f g w of (Ok x, w') \<Rightarrow> Q x w' | (Err e, w') \<Rightarrow> E e w' | (Panic, w') \<Rightarrow> True"
  proof (cases rule: postE)
    case (Ok x w')
    then show ?thesis using assms(2)[of x] by (simp add: acase_def post_def)
  next
    case (Err e w')
    then show ?thesis using assms(3)[of e] by (simp add: acase_def post_def)
  qed (simp add: acase_def)
qed

lemma post_leaf:
  "(\<And>w. P w \<Longrightarrow> Q x w) \<Longrightarrow> post P (aret x) Q E"
  "(\<And>w. P w \<Longrightarrow> E e w) \<Longrightarrow> post P (aerr e) Q E"
  "post P apanic Q E"
  "(\<And>x w. P w \<Longrightarrow> r = Ok x \<Longrightarrow> Q x w) \<Longrightarrow> (\<And>e w. P w \<Longrightarrow> r = Err e \<Longrightarrow> E e w) \<Longrightarrow> post P (alift r) Q E"
  by (auto simp: post_def aret_def aerr_def apanic_def alift_def split: result.splits)

lemma post_weaken:
  assumes "post P' m Q' E'" and "\<And>w. P w \<Longrightarrow> P' w" and "\<And>x w. Q' x w \<Longrightarrow> Q x w" and "\<And>e w. E' e w \<Longrightarrow> E e w"
  shows "post P m Q E"
proof (rule postI)
  fix w assume "P w"
  then have "P' w" by (rule assms(2))
  from assms(1) this show "case m w of (Ok x, w') \<Rightarrow> Q x w' | (Err e, w') \<Rightarrow> E e w' | (Panic, w') \<Rightarrow> True"
    by (cases rule: postE) (simp_all add: assms(3,4))
qed

lemma post_any: "post P m (\<lambda>_ _. True) (\<lambda>_ _. True)"
  by (auto simp: post_def split: prod.splits result.splits)

lemma post_ex:
  assumes "\<And>y. post (P y) m Q E"
  shows "post (\<lambda>w. \<exists>y. P y w) m Q E"
proof (rule postI)
  fix w assume "\<exists>y. P y w"
  then obtain y where "P y w" by blast
  from assms this show "case m w of (Ok x, w') \<Rightarrow> Q x w' | (Err e, w') \<Rightarrow> E e w' | (Panic, w') \<Rightarrow> True"
    by (cases rule: postE) simp_all
qed

lemma post_conj: "(b \<Longrightarrow> post P m Q E) \<Longrightarrow> post (\<lambda>w. P w \<and> b) m Q E"
  by (cases b) (simp_all add: post_def)

lemma post_alift: "post P (alift r) (\<lambda>x w. P w \<and> r = Ok x) (\<lambda>_. P)"
  by (rule post_leaf) simp_all

lemma post_awrap: "post P m Q (\<lambda>_. E) \<Longrightarrow> post P (awrap f m) Q (\<lambda>_. E)"
  unfolding awrap_def by (rule post_acase[where F = "\<lambda>_. E"]) (auto intro: post_leaf)

lemma post_aignore: "post P m (\<lambda>_. Q) (\<lambda>_. Q) \<Longrightarrow> post P (aignore m) (\<lambda>_. Q) E"
  unfolding aignore_def by (rule post_acase[where R = "\<lambda>_. Q" and F = "\<lambda>_. Q"]) (auto intro: post_leaf)

lemma post_if: "(b \<Longrightarrow> post P m Q E) \<Longrightarrow> (\<not> b \<Longrightarrow> post P n Q E) \<Longrightarrow> post P (if b then m else n) Q E"
  by simp

lemma post_adefer:
  assumes "post P m R F" and "\<And>x. post (R x) d (\<lambda>_. Q x) (\<lambda>_. Q x)" and "\<And>e. post (F e) d (\<lambda>_. E e) (\<lambda>_. E e)"
  shows "post P (adefer d m) Q E"
proof (rule postI)
  fix w assume "P w"
  from assms(1) this show "case adefer d m w of (Ok x, w') \<Rightarrow> Q x w' | (Err e, w') \<Rightarrow> E e w' | (Panic, w') \<Rightarrow> True"
  proof (cases rule: postE)
    case (Ok x w')
    from assms(2) Ok(2) show ?thesis by (cases rule: postE) (simp_all add: adefer_def Ok(1))
  next
    case (Err e w')
    from assms(3) Err(2) show ?thesis by (cases rule: postE) (simp_all add: adefer_def Err(1))
  next
    case (Panic w')
    then show ?thesis by (cases "d w'"; cases "fst (d w')") (simp_all add: adefer_def)
  qed
qed

text \<open>A loop: \<open>P\<close> tells what holds after the elements that were visited.\<close>

lemma post_afor:
  assumes "\<And>seen x rest. xs = seen @ x # rest \<Longrightarrow> post (P seen) (f x) (\<lambda>_. P (seen @ [x])) E"
  shows "post (P []) (afor xs f) (\<lambda>_. P xs) E"
proof -
  have "post (P seen) (afor rest f) (\<lambda>_. P xs) E" if "xs = seen @ rest" for seen rest
    using that
  proof (induction rest arbitrary: seen)
    case Nil
    then show ?case by (auto intro: post_leaf)
  next
    case (Cons x rest)
    show ?case unfolding afor.simps
      by (rule post_abind[OF assms[OF Cons.prems]]) (use Cons in auto)
  qed
  from this[of "[]" xs] show ?thesis by simp
qed

lemma post_Ok: "post P m Q E \<Longrightarrow> P w \<Longrightarrow> m w = (Ok x, w') \<Longrightarrow> Q x w'"
  by (auto elim: postE)

lemma post_Err: "post P m Q E \<Longrightarrow> P w \<Longrightarrow> m w = (Err e, w') \<Longrightarrow> E e w'"
  by (auto elim: postE)

text \<open>\<open>stays I m\<close>: whatever the ending, \<open>m\<close> keeps \<open>I\<close>.\<close>

named_theorems stays_intros \<open>calls that keep a property of the state\<close>

definition stays :: "('w \<Rightarrow> bool) \<Rightarrow> ('w, 'a) act \<Rightarrow> bool" where
  "stays I m \<longleftrightarrow> post I m (\<lambda>_. I) (\<lambda>_. I)"

lemma stays_post: "stays I m \<Longrightarrow> post I m (\<lambda>_. I) (\<lambda>_. I)"
  by (simp add: stays_def)

lemma stays_compose [stays_intros]:
  "stays I m \<Longrightarrow> (\<And>x. stays I (f x)) \<Longrightarrow> stays I (abind m f)"
  "stays I m \<Longrightarrow> (\<And>x. stays I (f x)) \<Longrightarrow> (\<And>e. stays I (g e)) \<Longrightarrow> stays I (acase m f g)"
  "stays I m \<Longrightarrow> stays I (awrap h m)"
  "stays I m \<Longrightarrow> stays I (aignore m)"
  "stays I d \<Longrightarrow> stays I m \<Longrightarrow> stays I (adefer d m)"
  "stays I (aret x)" "stays I (aerr e)" "stays I apanic" "stays I (alift r)"
  "(b \<Longrightarrow> stays I m) \<Longrightarrow> (\<not> b \<Longrightarrow> stays I n) \<Longrightarrow> stays I (if b then m else n)"
  "(\<And>a c. stays I (h' a c)) \<Longrightarrow> stays I (case_prod h' pr)"
  unfolding stays_def
  by (auto intro: post_abind post_acase post_awrap post_aignore post_adefer post_leaf split: prod.splits)

lemma stays_afor [stays_intros]: "(\<And>x. x \<in> set xs \<Longrightarrow> stays I (f x)) \<Longrightarrow> stays I (afor xs f)"
  by (induction xs) (auto intro: stays_intros)

text \<open>The usual shape of a step in a longer proof: only the success matters.\<close>

lemma post_ok: "post P m Q E \<Longrightarrow> post P m Q (\<lambda>_ _. True)"
  by (erule post_weaken) simp_all

lemma stays_ok: "stays I m \<Longrightarrow> post I m (\<lambda>_. I) (\<lambda>_ _. True)"
  unfolding stays_def by (rule post_ok)

section \<open>Namespaces\<close>

text \<open>The calling thread is in the namespace \<open>c\<close>, and \<open>view\<close> shows \<open>M\<close> of the state.\<close>

definition netAt :: "('w \<Rightarrow> 'v) \<Rightarrow> ('w \<Rightarrow> string) \<Rightarrow> string \<Rightarrow> 'v \<Rightarrow> 'w \<Rightarrow> bool" where
  "netAt view cur c M w \<longleftrightarrow> cur w = c \<and> view w = M"

lemma stays_netAt_cur:
  assumes "\<And>M. stays (netAt view cur c M) m"
  shows "stays (\<lambda>w. cur w = c) m"
  unfolding stays_def
proof (rule postI)
  fix w assume w: "cur w = c"
  then have s: "netAt view cur c (view w) w" by (simp add: netAt_def)
  from stays_post[OF assms] s show "case m w of (Ok x, w') \<Rightarrow> cur w' = c | (Err e, w') \<Rightarrow> cur w' = c | (Panic, w') \<Rightarrow> True"
    by (cases rule: postE) (simp_all add: netAt_def)
qed

lemma post_from_cur:
  assumes "\<And>M. post (netAt view cur c M) m Q E"
  shows "post (\<lambda>w. cur w = c) m Q E"
proof (rule postI)
  fix w assume "cur w = c"
  then have s: "netAt view cur c (view w) w" by (simp add: netAt_def)
  from assms s show "case m w of (Ok x, w') \<Rightarrow> Q x w' | (Err e, w') \<Rightarrow> E e w' | (Panic, w') \<Rightarrow> True"
    by (cases rule: postE) simp_all
qed

text \<open>What the documentation of \<^verbatim>\<open>NetNS\<close> promises of entering and leaving a namespace; \<open>home\<close> is that of the node.\<close>

definition switches :: "'w kern \<Rightarrow> ('w \<Rightarrow> 'v) \<Rightarrow> ('w \<Rightarrow> string) \<Rightarrow> string \<Rightarrow> bool" where
  "switches K view cur home \<longleftrightarrow>
     (\<forall>n c M. post (netAt view cur c M) (k_nsSet K n) (\<lambda>_. netAt view cur n M) (\<lambda>_. netAt view cur c M)) \<and>
     (\<forall>c M. post (netAt view cur c M) (k_nsBack K) (\<lambda>_. netAt view cur home M) (\<lambda>_. netAt view cur home M))"

lemma post_nsDo:
  assumes K: "switches K view cur home" and m: "post (netAt view cur ns M) m (\<lambda>x w. \<exists>L. netAt view cur ns L w \<and> Q x L) (\<lambda>_ _. True)"
  shows "post (netAt view cur c M) (nsDo K ns m) (\<lambda>x w. \<exists>L. netAt view cur home L w \<and> Q x L) (\<lambda>_ _. True)"
proof -
  have enter: "post (netAt view cur c M) (k_nsSet K ns) (\<lambda>_. netAt view cur ns M) (\<lambda>_ _. True)"
    using K unfolding switches_def by (metis post_ok)
  have leave: "post (netAt view cur ns L) (k_nsBack K) (\<lambda>_. netAt view cur home L) (\<lambda>_. netAt view cur home L)" for L
    using K unfolding switches_def by blast
  have ret: "post (\<lambda>w. \<exists>L. netAt view cur ns L w \<and> Q x L) (aignore (k_nsBack K))
      (\<lambda>_ w. \<exists>L. netAt view cur home L w \<and> Q x L) (\<lambda>_ w. \<exists>L. netAt view cur home L w \<and> Q x L)" for x
    by (rule post_aignore, intro post_ex post_conj, rule post_weaken[OF leave]) blast+
  show ?thesis unfolding nsDo_def
    by (rule post_abind[OF post_awrap[OF enter]], rule post_adefer[OF m ret post_aignore[OF post_any]])
qed

end
