(* ===== verification/HostDeviceProps.thy ===== *)
theory HostDeviceProps
  imports HostDevice Triples VethHostProps
begin

text \<open>
  The properties of \<^verbatim>\<open>cmd/host-device\<close>: an interface that was moved into a container comes back under its own
  name, a failed move back does not lose it, and a failed ADD gives the container's address back.
\<close>

section \<open>The kernel's interfaces\<close>

text \<open>
  \<open>lnk k i\<close> is the namespace, name and alias of the interface with index \<open>i\<close>, \<open>cur k\<close> the namespace of the
  calling thread, \<open>sane\<close> the states of a sane kernel, where a name occurs once per namespace. What netlink and
  namespaces document: a lookup finds the interface of that name in the thread's namespace, a change changes
  exactly the named property or, when it fails, nothing; leaving a namespace leads back to \<open>home\<close>.
\<close>

type_synonym links = "int \<Rightarrow> (string \<times> string \<times> string) option"

definition sets :: "('k \<Rightarrow> bool) \<Rightarrow> ('k \<Rightarrow> links) \<Rightarrow> ('k \<Rightarrow> string) \<Rightarrow> ('k, unit) act \<Rightarrow> int \<Rightarrow>
    ((string \<times> string \<times> string) \<Rightarrow> (string \<times> string \<times> string)) \<Rightarrow> bool" where
  "sets sane lnk cur m i f \<longleftrightarrow> (\<forall>k p. sane k \<and> lnk k i = Some p \<longrightarrow> (case m k of
      (Ok _, k') \<Rightarrow> sane k' \<and> cur k' = cur k \<and> lnk k' = (lnk k)(i \<mapsto> f p)
    | (Err _, k') \<Rightarrow> sane k' \<and> cur k' = cur k \<and> lnk k' = lnk k
    | (Panic, k') \<Rightarrow> False))"

definition finds :: "('k \<Rightarrow> links) \<Rightarrow> ('k \<Rightarrow> string) \<Rightarrow> string \<Rightarrow> ('k, nlLink) act \<Rightarrow> 'k \<Rightarrow> bool" where
  "finds lnk cur n m k \<longleftrightarrow> (case m k of
      (Ok l, k') \<Rightarrow> k' = k \<and> lk_Name l = n \<and> lnk k (lk_Index l) = Some (cur k, n, lk_Alias l)
    | (Err _, k') \<Rightarrow> k' = k | (Panic, k') \<Rightarrow> False)"

definition enters :: "('k \<Rightarrow> bool) \<Rightarrow> ('k \<Rightarrow> links) \<Rightarrow> ('k \<Rightarrow> string) \<Rightarrow> string \<Rightarrow> ('k, unit) act \<Rightarrow> 'k \<Rightarrow> bool" where
  "enters sane lnk cur ns m k \<longleftrightarrow> (case m k of
      (Ok _, k') \<Rightarrow> sane k' \<and> cur k' = ns \<and> lnk k' = lnk k
    | (Err _, k') \<Rightarrow> k' = k | (Panic, k') \<Rightarrow> False)"

definition leaves :: "('k \<Rightarrow> bool) \<Rightarrow> ('k \<Rightarrow> links) \<Rightarrow> ('k \<Rightarrow> string) \<Rightarrow> string \<Rightarrow> ('k, unit) act \<Rightarrow> 'k \<Rightarrow> bool" where
  "leaves sane lnk cur home m k \<longleftrightarrow> (case m k of (r, k') \<Rightarrow> r \<noteq> Panic \<and> sane k' \<and> cur k' = home \<and> lnk k' = lnk k)"

definition kernel_links ::
  "'k kern \<Rightarrow> 'k linkops \<Rightarrow> ('k \<Rightarrow> bool) \<Rightarrow> ('k \<Rightarrow> links) \<Rightarrow> ('k \<Rightarrow> string) \<Rightarrow> string \<Rightarrow> bool" where
  "kernel_links K H sane lnk cur home \<longleftrightarrow>
     (\<forall>k i j ns n al al'. sane k \<and> lnk k i = Some (ns, n, al) \<and> lnk k j = Some (ns, n, al') \<longrightarrow> i = j) \<and>
     (\<forall>n k. sane k \<longrightarrow> finds lnk cur n (k_LinkByName K n) k) \<and>
     (\<forall>l ns. sets sane lnk cur (l_SetNs H l ns) (lk_Index l) (\<lambda>(_, n, al). (ns, n, al))) \<and>
     (\<forall>l n. sets sane lnk cur (l_SetName H l n) (lk_Index l) (\<lambda>(ns, _, al). (ns, n, al))) \<and>
     (\<forall>l al. sets sane lnk cur (l_SetAlias H l al) (lk_Index l) (\<lambda>(ns, n, _). (ns, n, al))) \<and>
     (\<forall>l. sets sane lnk cur (l_SetDown H l) (lk_Index l) (\<lambda>p. p)) \<and>
     (\<forall>k. sane k \<longrightarrow> l_CurrentNS H k = (Ok (cur k), k)) \<and>
     (\<forall>ns k. sane k \<longrightarrow> enters sane lnk cur ns (k_nsSet K ns) k) \<and>
     (\<forall>k. sane k \<longrightarrow> leaves sane lnk cur home (k_nsBack K) k)"

text \<open>A state with the interfaces \<open>L\<close>, seen from the namespace \<open>c\<close>.\<close>

definition at :: "('k \<Rightarrow> bool) \<Rightarrow> ('k \<Rightarrow> links) \<Rightarrow> ('k \<Rightarrow> string) \<Rightarrow> string \<Rightarrow> links \<Rightarrow> 'k \<Rightarrow> bool" where
  "at sane lnk cur c L k \<longleftrightarrow> sane k \<and> cur k = c \<and> lnk k = L"

lemma tri_sets:
  assumes "sets sane lnk cur m i f" and "L i = Some p"
  shows "tri (at sane lnk cur c L) m (\<lambda>_. at sane lnk cur c (L(i \<mapsto> f p))) (at sane lnk cur c L)"
proof (rule triI)
  fix k assume k: "at sane lnk cur c L k"
  have "sane k \<and> lnk k i = Some p" using k assms(2) by (simp add: at_def)
  with assms(1) have "case m k of
      (Ok _, k') \<Rightarrow> sane k' \<and> cur k' = cur k \<and> lnk k' = (lnk k)(i \<mapsto> f p)
    | (Err _, k') \<Rightarrow> sane k' \<and> cur k' = cur k \<and> lnk k' = lnk k
    | (Panic, k') \<Rightarrow> False" unfolding sets_def by presburger
  then show "case m k of (Ok x, k') \<Rightarrow> at sane lnk cur c (L(i \<mapsto> f p)) k' | (Err _, k') \<Rightarrow> at sane lnk cur c L k' | (Panic, k') \<Rightarrow> False"
    using k by (simp add: at_def split: prod.splits result.splits)
qed

lemma kernel_linksD:
  assumes "kernel_links K H sane lnk cur home"
  shows "sets sane lnk cur (l_SetNs H l ns) (lk_Index l) (\<lambda>(_, n, al). (ns, n, al))"
    "sets sane lnk cur (l_SetName H l n) (lk_Index l) (\<lambda>(ns, _, al). (ns, n, al))"
    "sets sane lnk cur (l_SetAlias H l al) (lk_Index l) (\<lambda>(ns, n, _). (ns, n, al))"
    "sets sane lnk cur (l_SetDown H l) (lk_Index l) (\<lambda>p. p)"
    "sane k \<Longrightarrow> l_CurrentNS H k = (Ok (cur k), k)"
    "sane k \<Longrightarrow> lnk k i = Some (ns, n, al) \<Longrightarrow> lnk k j = Some (ns, n, al') \<Longrightarrow> i = j"
    "sane k \<Longrightarrow> finds lnk cur n (k_LinkByName K n) k"
    "sane k \<Longrightarrow> enters sane lnk cur ns (k_nsSet K ns) k"
    "sane k \<Longrightarrow> leaves sane lnk cur home (k_nsBack K) k"
  using assms unfolding kernel_links_def by blast+

text \<open>Looking up the interface that is known to have the name.\<close>

lemma tri_LinkByName:
  assumes K: "kernel_links K H sane lnk cur home" and L: "L i = Some (c, n, al)"
  shows "tri (at sane lnk cur c L) (k_LinkByName K n)
     (\<lambda>l k. at sane lnk cur c L k \<and> lk_Index l = i \<and> lk_Name l = n \<and> lk_Alias l = al) (at sane lnk cur c L)"
proof (rule triI)
  fix k assume k: "at sane lnk cur c L k"
  then have s: "sane k" "cur k = c" "lnk k = L" by (simp_all add: at_def)
  have u: "lk_Index l = i" if "L (lk_Index l) = Some (c, n, lk_Alias l)" for l
    using kernel_linksD(6)[OF K s(1), of "lk_Index l" c n "lk_Alias l" i al] that L s(3) by simp
  show "case k_LinkByName K n k of
        (Ok l, k') \<Rightarrow> at sane lnk cur c L k' \<and> lk_Index l = i \<and> lk_Name l = n \<and> lk_Alias l = al
      | (Err _, k') \<Rightarrow> at sane lnk cur c L k' | (Panic, k') \<Rightarrow> False"
    using kernel_linksD(7)[OF K s(1), of n] u L k s(2,3) by (auto simp: finds_def split: prod.splits result.splits)
qed

lemma tri_nsSet:
  assumes K: "kernel_links K H sane lnk cur home"
  shows "tri (at sane lnk cur c L) (k_nsSet K ns) (\<lambda>_. at sane lnk cur ns L) (at sane lnk cur c L)"
proof (rule triI)
  fix k assume k: "at sane lnk cur c L k"
  then have "enters sane lnk cur ns (k_nsSet K ns) k" using kernel_linksD(8)[OF K] by (simp add: at_def)
  then show "case k_nsSet K ns k of (Ok x, k') \<Rightarrow> at sane lnk cur ns L k' | (Err _, k') \<Rightarrow> at sane lnk cur c L k' | (Panic, k') \<Rightarrow> False"
    using k by (auto simp: enters_def at_def split: prod.splits result.splits)
qed

lemma printLink_nil: "alift (printLink printResult None v n) = apanic"
  by (simp add: printLink_def alift_def apanic_def)

lemma nsBack_leaves:
  assumes "kernel_links K H sane lnk cur home" and "at sane lnk cur d M k"
  obtains r k' where "aignore (k_nsBack K) k = (Ok (), k')" "at sane lnk cur home M k'"
proof -
  have "leaves sane lnk cur home (k_nsBack K) k" using kernel_linksD(9)[OF assms(1)] assms(2) by (simp add: at_def)
  then show thesis using that assms(2)
    by (cases "k_nsBack K k"; cases "fst (k_nsBack K k)") (auto simp: leaves_def at_def aignore_def acase_def aret_def)
qed

lemma tri_nsDo:
  assumes K: "kernel_links K H sane lnk cur home"
    and m: "tri (at sane lnk cur c L) m (\<lambda>x k. \<exists>d M. at sane lnk cur d M k \<and> Q x M) (\<lambda>k. \<exists>d M. at sane lnk cur d M k \<and> E M)"
    and e: "E L"
  shows "tri (at sane lnk cur home L) (nsDo K c m) (\<lambda>x k. \<exists>M. at sane lnk cur home M k \<and> Q x M) (\<lambda>k. \<exists>M. at sane lnk cur home M k \<and> E M)"
  unfolding nsDo_def
proof (rule tri_abind[OF tri_awrap])
  show "tri (at sane lnk cur home L) (k_nsSet K c) (\<lambda>_. at sane lnk cur c L) (\<lambda>k. \<exists>M. at sane lnk cur home M k \<and> E M)"
    using e by (intro tri_weaken[OF tri_nsSet[OF K]]) auto
  show "tri (at sane lnk cur c L) (adefer (aignore (k_nsBack K)) m)
      (\<lambda>x k. \<exists>M. at sane lnk cur home M k \<and> Q x M) (\<lambda>k. \<exists>M. at sane lnk cur home M k \<and> E M)" for u :: unit
  proof (rule triI)
    fix k assume "at sane lnk cur c L k"
    from m this show "case adefer (aignore (k_nsBack K)) m k of (Ok x, k') \<Rightarrow> \<exists>M. at sane lnk cur home M k' \<and> Q x M
        | (Err _, k') \<Rightarrow> \<exists>M. at sane lnk cur home M k' \<and> E M | (Panic, k') \<Rightarrow> False"
    proof (cases rule: triE)
      case (Ok x k1)
      then obtain d M where M: "at sane lnk cur d M k1" "Q x M" by blast
      obtain k2 where "aignore (k_nsBack K) k1 = (Ok (), k2)" "at sane lnk cur home M k2" using nsBack_leaves[OF K M(1)] by metis
      then show ?thesis using Ok(1) M(2) by (auto simp: adefer_def)
    next
      case (Err x k1)
      then obtain d M where M: "at sane lnk cur d M k1" "E M" by blast
      obtain k2 where "aignore (k_nsBack K) k1 = (Ok (), k2)" "at sane lnk cur home M k2" using nsBack_leaves[OF K M(1)] by metis
      then show ?thesis using Err(1) M(2) by (auto simp: adefer_def)
    qed
  qed
qed

section \<open>Moving an interface\<close>

lemma moveLinkIn_tri:
  assumes K: "kernel_links K H sane lnk cur home" and L: "L (lk_Index dev) = Some (home, lk_Name dev, al)"
  shows "tri (at sane lnk cur home L) (moveLinkIn K H dev ns ifName)
     (\<lambda>c k. at sane lnk cur home (L(lk_Index dev \<mapsto> (ns, ifName, lk_Name dev))) k \<and> lk_Index c = lk_Index dev \<and>
        lk_Name c = ifName \<and> lk_Alias c = lk_Name dev) (\<lambda>k. True)"
proof -
  let ?i = "lk_Index dev" and ?n = "lk_Name dev"
  let ?at = "at sane lnk cur"
  have in_ns: "tri (?at ns (L(?i \<mapsto> (ns, ?n, al))))
      (abind (awrap f1 (k_LinkByName K ?n)) (\<lambda>contDev. abind (awrap f2 (l_SetAlias H contDev ?n)) (\<lambda>_.
        abind (awrap f3 (l_SetName H contDev ifName)) (\<lambda>_. awrap f4 (k_LinkByName K ifName)))))
      (\<lambda>c k. \<exists>d M. ?at d M k \<and> M = L(?i \<mapsto> (ns, ifName, ?n)) \<and> lk_Index c = ?i \<and> lk_Name c = ifName \<and> lk_Alias c = ?n)
      (\<lambda>k. \<exists>d M. ?at d M k \<and> True)" for f1 f2 f3 f4
  proof -
    let ?L1 = "L(?i \<mapsto> (ns, ?n, al))" and ?L2 = "L(?i \<mapsto> (ns, ?n, ?n))" and ?L3 = "L(?i \<mapsto> (ns, ifName, ?n))"
    let ?E = "\<lambda>k. \<exists>d M. ?at d M k \<and> True"
    have e: "?at d M k \<Longrightarrow> ?E k" for d M k by blast
    have l1: "?L1 ?i = Some (ns, ?n, al)" and l2: "?L2 ?i = Some (ns, ?n, ?n)" and l3: "?L3 ?i = Some (ns, ifName, ?n)" by simp_all
    have a: "tri (?at ns ?L1) (l_SetAlias H c ?n) (\<lambda>_. ?at ns ?L2) ?E" if "lk_Index c = ?i" for c
      using tri_sets[OF kernel_linksD(3)[OF K, of c ?n], of ?L1 "(ns, ?n, al)" ns] that by (auto elim!: tri_weaken)
    have b: "tri (?at ns ?L2) (l_SetName H c ifName) (\<lambda>_. ?at ns ?L3) ?E" if "lk_Index c = ?i" for c
      using tri_sets[OF kernel_linksD(2)[OF K, of c ifName], of ?L2 "(ns, ?n, ?n)" ns] that by (auto elim!: tri_weaken)
    have d: "tri (?at ns ?L3) (k_LinkByName K ifName)
        (\<lambda>c k. \<exists>d M. ?at d M k \<and> M = ?L3 \<and> lk_Index c = ?i \<and> lk_Name c = ifName \<and> lk_Alias c = ?n) ?E"
      by (rule tri_weaken[OF tri_LinkByName[OF K, where L = ?L3 and i = ?i, OF l3]]) auto
    have rest: "tri (\<lambda>k. ?at ns ?L1 k \<and> lk_Index c = ?i \<and> lk_Name c = ?n \<and> lk_Alias c = al)
        (abind (awrap f2 (l_SetAlias H c ?n)) (\<lambda>_. abind (awrap f3 (l_SetName H c ifName)) (\<lambda>_. awrap f4 (k_LinkByName K ifName))))
        (\<lambda>c k. \<exists>d M. ?at d M k \<and> M = ?L3 \<and> lk_Index c = ?i \<and> lk_Name c = ifName \<and> lk_Alias c = ?n) ?E" for c
    proof (cases "lk_Index c = ?i")
      case True
      note tri_abind[OF tri_awrap[OF a[OF True]] tri_abind[OF tri_awrap[OF b[OF True]] tri_awrap[OF d]]]
      then show ?thesis by (rule tri_weaken) auto
    qed (simp add: tri_def)
    show ?thesis
      by (rule tri_abind[OF tri_awrap[OF tri_weaken[OF tri_LinkByName[OF K, where L = ?L1 and i = ?i, OF l1]]] rest]) auto
  qed
  have mv: "tri (?at home L) (l_SetNs H dev ns) (\<lambda>_. ?at home (L(?i \<mapsto> (ns, ?n, al)))) (\<lambda>k. True)"
    using tri_sets[OF kernel_linksD(1)[OF K, of dev ns], of L "(home, ?n, al)" home] L by (auto elim!: tri_weaken)
  show ?thesis unfolding moveLinkIn_def
    by (rule tri_abind[OF mv], rule tri_weaken[OF tri_nsDo[OF K in_ns]]) auto
qed


text \<open>The way back: on success the interface is at home under its alias; on failure it is still in the container.\<close>

lemma moveLinkOut_tri:
  assumes K: "kernel_links K H sane lnk cur home" and L: "L i = Some (ns, ifName, al)"
  shows "tri (at sane lnk cur home L) (moveLinkOut K H ns ifName)
     (\<lambda>_. at sane lnk cur home (L(i \<mapsto> (home, al, al))))
     (\<lambda>k. \<exists>n. at sane lnk cur home (L(i \<mapsto> (ns, n, al))) k \<and> (n = ifName \<or> n = al))"
proof -
  let ?at = "at sane lnk cur" and ?L1 = "L(i \<mapsto> (ns, al, al))"
  define E where "E = (\<lambda>M. \<exists>n. M = L(i \<mapsto> (ns, n, al)) \<and> (n = ifName \<or> n = al))"
  let ?E = "\<lambda>k. \<exists>d M. ?at d M k \<and> E M"
  have upd: "L = L(i \<mapsto> (ns, ifName, al))" using L by (simp add: fun_eq_iff)
  then have EL: "E L" unfolding E_def by blast
  have E1: "E ?L1" unfolding E_def by blast
  have E2: "E (?L1(i \<mapsto> (ns, ifName, al)))" using EL upd by simp
  have l1: "?L1 i = Some (ns, al, al)" by simp
  have down: "tri (?at ns L) (l_SetDown H c) (\<lambda>_. ?at ns L) ?E" if "lk_Index c = i" for c
    using tri_sets[OF kernel_linksD(4)[OF K, of c], of L "(ns, ifName, al)" ns] that L upd EL by (auto elim!: tri_weaken)
  have name: "tri (?at ns L) (l_SetName H c al) (\<lambda>_. ?at ns ?L1) ?E" if "lk_Index c = i" for c
    using tri_sets[OF kernel_linksD(2)[OF K, of c al], of L "(ns, ifName, al)" ns] that L EL by (auto elim!: tri_weaken)
  have again: "tri (?at ns ?L1) (aignore (l_SetName H c ifName)) (\<lambda>_. ?E) F" if "lk_Index c = i" for c F
    using tri_sets[OF kernel_linksD(2)[OF K, of c ifName], of ?L1 "(ns, al, al)" ns] that E1 E2
    by (intro tri_aignore) (auto elim!: tri_weaken)
  have mov: "tri (?at ns ?L1) (l_SetNs H c home) (\<lambda>_. ?at ns (L(i \<mapsto> (home, al, al)))) (?at ns ?L1)" if "lk_Index c = i" for c
    using tri_sets[OF kernel_linksD(1)[OF K, of c home], of ?L1 "(ns, al, al)" ns] that by (auto elim!: tri_weaken)
  let ?Q = "\<lambda>(_ :: unit) k. \<exists>d M. ?at d M k \<and> M = L(i \<mapsto> (home, al, al))"
  have fail: "tri (?at ns ?L1) (abind (aignore (l_SetName H c ifName)) (\<lambda>_. aerr e)) ?Q ?E" if "lk_Index c = i" for c e
    by (rule tri_abind[OF again[OF that] tri_aerr])
  have "tri (\<lambda>k. ?at ns L k \<and> lk_Index c = i \<and> lk_Name c = ifName \<and> lk_Alias c = al)
      (abind (awrap f2 (l_SetDown H c)) (\<lambda>_. abind (awrap f3 (l_SetName H c (lk_Alias c))) (\<lambda>_.
         acase (l_SetNs H c home) (\<lambda>_. aret ()) (\<lambda>e. abind (aignore (l_SetName H c ifName)) (\<lambda>_. aerr (f4 e)))))) ?Q ?E" for c f2 f3 f4
  proof (cases "lk_Index c = i \<and> lk_Alias c = al")
    case True
    note i = conjunct1[OF True]
    have "tri (?at ns ?L1) (acase (l_SetNs H c home) (\<lambda>_. aret ()) (\<lambda>e. abind (aignore (l_SetName H c ifName)) (\<lambda>_. aerr (f4 e)))) ?Q ?E"
      by (rule tri_acase[OF mov[OF i] tri_aret fail[OF i]]) blast
    then have "tri (?at ns L) (abind (awrap f2 (l_SetDown H c)) (\<lambda>_. abind (awrap f3 (l_SetName H c al)) (\<lambda>_.
         acase (l_SetNs H c home) (\<lambda>_. aret ()) (\<lambda>e. abind (aignore (l_SetName H c ifName)) (\<lambda>_. aerr (f4 e)))))) ?Q ?E"
      by (intro tri_abind[OF tri_awrap[OF down[OF i]]] tri_abind[OF tri_awrap[OF name[OF i]]])
    then show ?thesis using True by (auto elim!: tri_weaken)
  qed (auto simp: tri_def)
  note rest = this
  have steps: "tri (?at ns L) (moveOutSteps K H home ifName) ?Q ?E"
    unfolding moveOutSteps_def
    by (rule tri_abind[OF tri_awrap[OF tri_weaken[OF tri_LinkByName[OF K, where L = L and i = i, OF L]]] rest]) (use EL in auto)
  have c: "tri (?at home L) (l_CurrentNS H) (\<lambda>n k. ?at home L k \<and> n = home) F" for F
    by (rule triI) (simp add: kernel_linksD(5)[OF K] at_def)
  have "tri (\<lambda>k. ?at home L k \<and> n = home) (nsDo K ns (moveOutSteps K H n ifName))
      (\<lambda>x k. \<exists>M. ?at home M k \<and> M = L(i \<mapsto> (home, al, al))) (\<lambda>k. \<exists>M. ?at home M k \<and> E M)" for n
    by (cases "n = home") (use tri_nsDo[OF K steps EL] in \<open>simp_all add: tri_def\<close>)
  from tri_abind[OF c this] show ?thesis unfolding moveLinkOut_def
    by (rule tri_weaken) (auto simp: E_def)
qed

text \<open>C16. An interface of the node that was moved into a container comes back: after \<^verbatim>\<open>moveLinkIn\<close> it is in the
  container's namespace under the wanted name with its own name as the alias, and a \<^verbatim>\<open>moveLinkOut\<close> that succeeds
  puts it back into the node's namespace under its own name. When the move back fails the interface is still in the
  container, under one of its two names; no other interface is ever touched.\<close>

theorem device_comes_back:
  assumes K: "kernel_links K H sane lnk cur home" and k: "sane k" "cur k = home"
    and dev: "lnk k (lk_Index dev) = Some (home, lk_Name dev, al)"
    and mi: "moveLinkIn K H dev ns ifName k = (Ok contDev, k1)"
  shows "lnk k1 = (lnk k)(lk_Index dev \<mapsto> (ns, ifName, lk_Name dev)) \<and> lk_Name contDev = ifName \<and> lk_Alias contDev = lk_Name dev \<and>
    (case moveLinkOut K H ns ifName k1 of
       (Ok _, k2) \<Rightarrow> lnk k2 = (lnk k)(lk_Index dev \<mapsto> (home, lk_Name dev, lk_Name dev))
     | (Err _, k2) \<Rightarrow> \<exists>n. lnk k2 = (lnk k)(lk_Index dev \<mapsto> (ns, n, lk_Name dev)) \<and> (n = ifName \<or> n = lk_Name dev)
     | (Panic, k2) \<Rightarrow> False)"
proof -
  let ?L = "(lnk k)(lk_Index dev \<mapsto> (ns, ifName, lk_Name dev))"
  have a: "at sane lnk cur home (lnk k) k" using k by (simp add: at_def)
  have 1: "at sane lnk cur home ?L k1" "lk_Name contDev = ifName" "lk_Alias contDev = lk_Name dev"
    using moveLinkIn_tri[OF K, where L = "lnk k" and dev = dev and al = al and ns = ns and ifName = ifName, OF dev] a mi
    by (auto elim!: triE)
  have l: "?L (lk_Index dev) = Some (ns, ifName, lk_Name dev)" by simp
  have "tri (at sane lnk cur home ?L) (moveLinkOut K H ns ifName)
     (\<lambda>_. at sane lnk cur home (?L(lk_Index dev \<mapsto> (home, lk_Name dev, lk_Name dev))))
     (\<lambda>k. \<exists>n. at sane lnk cur home (?L(lk_Index dev \<mapsto> (ns, n, lk_Name dev))) k \<and> (n = ifName \<or> n = lk_Name dev))"
    by (rule moveLinkOut_tri[OF K]) (rule l)
  from this 1(1) show ?thesis
  proof (cases rule: triE)
    case (Ok x k2)
    then show ?thesis using 1 by (simp add: at_def)
  next
    case (Err e k2)
    then show ?thesis using 1 by (auto simp: at_def)
  qed
qed


section \<open>A small set of interfaces\<close>

record demolinks =
  dl_links :: "(int \<times> string \<times> string \<times> string) list"
  dl_cur :: string

definition dl_lnk :: "demolinks \<Rightarrow> links" where
  "dl_lnk k = map_of (dl_links k)"

definition dl_sane :: "demolinks \<Rightarrow> bool" where
  "dl_sane k \<longleftrightarrow> (\<forall>i j ns n al al'. dl_lnk k i = Some (ns, n, al) \<and> dl_lnk k j = Some (ns, n, al') \<longrightarrow> i = j)"

definition dl_set :: "int \<Rightarrow> ((string \<times> string \<times> string) \<Rightarrow> (string \<times> string \<times> string)) \<Rightarrow> (demolinks, unit) act" where
  "dl_set i f k = (case map_of (dl_links k) i of
      None \<Rightarrow> (Err ''no such device'', k)
    | Some p \<Rightarrow> (if list_ex (\<lambda>(j, ns, n, al). j \<noteq> i \<and> ns = fst (f p) \<and> n = fst (snd (f p))) (dl_links k)
        then (Err ''file exists'', k) else (Ok (), k\<lparr>dl_links := AList.update i (f p) (dl_links k)\<rparr>)))"

definition dl_find :: "string \<Rightarrow> (demolinks, nlLink) act" where
  "dl_find n k = (case List.find (\<lambda>(i, ns, m, al). map_of (dl_links k) i = Some (ns, m, al) \<and> ns = dl_cur k \<and> m = n) (dl_links k) of
      Some (i, ns, m, al) \<Rightarrow> (Ok \<lparr>lk_Index = i, lk_Name = n, lk_HardwareAddr = [2, 0, 0, 0, 0, 1], lk_Alias = al\<rparr>, k)
    | None \<Rightarrow> (Err ''Link not found'', k))"

text \<open>The remaining calls do nothing here.\<close>

definition dl_kern :: "demolinks kern" where
  "dl_kern = \<lparr>k_LinkByName = dl_find, k_LinkByIndex = (\<lambda>_. aerr ''Link not found''),
     k_LinkDel = (\<lambda>_. aret ()), k_AddrList = (\<lambda>_. aret []),
     k_InterfaceByName = dl_find, k_VethPeerIndex = (\<lambda>_. aret (-1)), k_SetupVeth = (\<lambda>n m. aerr ''not supported''),
     k_RouteAdd = (\<lambda>r. aret ()), k_RuleList = (\<lambda>f. aret []), k_RuleAdd = (\<lambda>r. aret ()), k_RuleDel = (\<lambda>_. aret ()),
     k_GetNS = (\<lambda>_. aret ()), k_nsSet = (\<lambda>ns k. (Ok (), k\<lparr>dl_cur := ns\<rparr>)), k_nsBack = (\<lambda>k. (Ok (), k\<lparr>dl_cur := ''host''\<rparr>)), k_iptables = aret (),
     k_AppendUnique = (\<lambda>_ _ _. aret ()), k_Sysctl = (\<lambda>_ _. aret ()), k_EnableIP4Forward = aret (), k_EnableIP6Forward = aret (),
     k_SetupIPMasq = (\<lambda>_ _ _. aret ()), k_TeardownIPMasq = (\<lambda>_ _ _. aret ()), k_Arp = (\<lambda>_ _. aret ()), k_Intn = (\<lambda>_. aret 0),
     k_FormatChainName = (\<lambda>n i. n), k_FormatComment = (\<lambda>n i. n), k_showLink = lk_Name, k_showRule = (\<lambda>_. ''rule'')\<rparr>"

definition dl_ops :: "demolinks linkops" where
  "dl_ops = \<lparr>l_LinkList = aret [], l_SetNs = (\<lambda>l ns. dl_set (lk_Index l) (\<lambda>(_, n, al). (ns, n, al))),
     l_SetAlias = (\<lambda>l al. dl_set (lk_Index l) (\<lambda>(ns, n, _). (ns, n, al))),
     l_SetName = (\<lambda>l n. dl_set (lk_Index l) (\<lambda>(ns, _, al). (ns, n, al))), l_SetDown = (\<lambda>l. dl_set (lk_Index l) (\<lambda>p. p)),
     l_CurrentNS = (\<lambda>k. (Ok (dl_cur k), k)), l_ReadDir = (\<lambda>_. aret []), l_Lstat = (\<lambda>_. aret ()), l_Glob = (\<lambda>_. aret [])\<rparr>"

lemma dl_set_sets: "sets dl_sane dl_lnk dl_cur (dl_set i f) i f"
  unfolding sets_def
proof (intro allI impI)
  fix k p assume k: "dl_sane k \<and> dl_lnk k i = Some p"
  let ?c = "list_ex (\<lambda>(j, ns, n, al). j \<noteq> i \<and> ns = fst (f p) \<and> n = fst (snd (f p))) (dl_links k)"
  let ?k = "k\<lparr>dl_links := AList.update i (f p) (dl_links k)\<rparr>"
  have u: "dl_lnk ?k = (dl_lnk k)(i \<mapsto> f p)" by (simp add: dl_lnk_def update_conv')
  have "dl_sane ?k" if "\<not> ?c"
  proof -
    have n: "j = i" if "dl_lnk k j = Some (ns, n, al)" "(ns, n) = (fst (f p), fst (snd (f p)))" for j ns n al
    proof (rule ccontr)
      assume "j \<noteq> i"
      moreover have "(j, ns, n, al) \<in> set (dl_links k)" using that(1) by (simp add: dl_lnk_def map_of_SomeD)
      ultimately show False using \<open>\<not> ?c\<close> that(2) by (auto simp: list_ex_iff)
    qed
    show ?thesis unfolding dl_sane_def u
      using k n by (auto simp: dl_sane_def split: if_splits)
  qed
  then show "case dl_set i f k of
      (Ok _, k') \<Rightarrow> dl_sane k' \<and> dl_cur k' = dl_cur k \<and> dl_lnk k' = (dl_lnk k)(i \<mapsto> f p)
    | (Err _, k') \<Rightarrow> dl_sane k' \<and> dl_cur k' = dl_cur k \<and> dl_lnk k' = dl_lnk k
    | (Panic, k') \<Rightarrow> False"
    using k u by (simp add: dl_set_def dl_lnk_def)
qed

lemma dl_kernel: "kernel_links dl_kern dl_ops dl_sane dl_lnk dl_cur ''host''"
proof -
  have f: "finds dl_lnk dl_cur n (dl_find n) k" for n k
    by (auto simp: finds_def dl_find_def dl_lnk_def split: option.splits dest!: find_Some_hit)
  have "enters dl_sane dl_lnk dl_cur ns (k_nsSet dl_kern ns) k" "leaves dl_sane dl_lnk dl_cur ''host'' (k_nsBack dl_kern) k" if "dl_sane k" for ns k
    using that by (simp_all add: enters_def leaves_def dl_kern_def dl_sane_def dl_lnk_def)
  then show ?thesis using f dl_set_sets
    by (auto simp: kernel_links_def dl_kern_def dl_ops_def) (auto simp: dl_sane_def)
qed

definition dl_start :: demolinks where
  "dl_start = \<lparr>dl_links = [(2, ''host'', ''eth0'', []), (3, ''host'', ''eth1'', [])], dl_cur = ''host''\<rparr>"

definition dl_dev :: nlLink where
  "dl_dev = \<lparr>lk_Index = 3, lk_Name = ''eth1'', lk_HardwareAddr = [2, 0, 0, 0, 0, 1], lk_Alias = []\<rparr>"

theorem device_comes_back_witness:
  "\<exists>contDev k1. moveLinkIn dl_kern dl_ops dl_dev ''/ns'' ''eth0'' dl_start = (Ok contDev, k1) \<and>
     dl_lnk k1 = (dl_lnk dl_start)(3 \<mapsto> (''/ns'', ''eth0'', ''eth1'')) \<and>
    (case moveLinkOut dl_kern dl_ops ''/ns'' ''eth0'' k1 of
       (Ok _, k2) \<Rightarrow> dl_lnk k2 = (dl_lnk dl_start)(3 \<mapsto> (''host'', ''eth1'', ''eth1''))
     | (Err _, k2) \<Rightarrow> \<exists>n. dl_lnk k2 = (dl_lnk dl_start)(3 \<mapsto> (''/ns'', n, ''eth1'')) \<and> (n = ''eth0'' \<or> n = ''eth1'')
     | (Panic, k2) \<Rightarrow> False)"
proof -
  let ?m = "moveLinkIn dl_kern dl_ops dl_dev ''/ns'' ''eth0'' dl_start"
  have "is_Ok (fst ?m)" by code_simp
  then obtain c k1 where m: "?m = (Ok c, k1)" by (cases ?m) (auto simp: is_Ok_iff)
  have s: "dl_sane dl_start" "dl_cur dl_start = ''host''" by (auto simp: dl_sane_def dl_start_def dl_lnk_def split: if_splits)
  have d: "dl_lnk dl_start (lk_Index dl_dev) = Some (''host'', lk_Name dl_dev, [])" by (simp add: dl_lnk_def dl_start_def dl_dev_def)
  have i: "lk_Index dl_dev = 3" "lk_Name dl_dev = ''eth1''" by (simp_all add: dl_dev_def)
  note R = device_comes_back[OF dl_kernel s d m, unfolded i]
  show ?thesis
    by (intro exI conjI) (rule m, rule R[THEN conjunct1], rule R[THEN conjunct2, THEN conjunct2, THEN conjunct2])
qed


section \<open>A failed ADD gives the address back\<close>

lemma post_onNet: "post (\<lambda>w. R (snd w)) (onNet m) (\<lambda>_ w. R (snd w)) (\<lambda>_ w. R (snd w))"
  by (auto simp: post_def onNet_def split: prod.splits result.splits)

text \<open>
  \<open>leased\<close>: the container has an address. An IPAM plugin whose ADD fails reserves nothing, and its DEL releases the
  address when it succeeds.
\<close>

definition lease_laws :: "('k \<times> 's) ipamops \<Rightarrow> ('s \<Rightarrow> bool) \<Rightarrow> bool" where
  "lease_laws I leased \<longleftrightarrow>
     (\<forall>t d. post (\<lambda>w. \<not> leased (snd w)) (ip_ExecAdd I t d) (\<lambda>_ _. True) (\<lambda>_ w. \<not> leased (snd w))) \<and>
     (\<forall>t d. post (\<lambda>_. True) (ip_ExecDel I t d) (\<lambda>_ w. \<not> leased (snd w)) (\<lambda>_ _. True))"

text \<open>The state in which a DEL of the plugin failed.\<close>

definition delFailed :: "('k \<times> 's) ipamops \<Rightarrow> 'k \<times> 's \<Rightarrow> bool" where
  "delFailed I w \<longleftrightarrow> (\<exists>t d w1 e. ip_ExecDel I t d w1 = (Err e, w))"

lemma delFailedI: "ip_ExecDel I t d w1 = (Err e, w) \<Longrightarrow> delFailed I w"
  unfolding delFailed_def by blast


text \<open>An IPAM plugin that notes the container in a file, on the small set of interfaces.\<close>

definition dl_ipam :: "(demolinks \<times> democloud sys) ipamops" where
  "dl_ipam = \<lparr>ip_ExecAdd = (\<lambda>t d (k, s). (Ok ''result'', (k, s\<lparr>sys_files := [(''c1'', [])]\<rparr>))),
     ip_ExecDel = (\<lambda>t d (k, s). (Ok (), (k, s\<lparr>sys_files := []\<rparr>))), ip_NewResult = (\<lambda>_. Ok demo_prev), ip_ConfigureIface = (\<lambda>_ _. aret ())\<rparr>"

definition dl_conf :: HDConf where
  "dl_conf = \<lparr>hd_Name = ''net'', hd_CNIVersion = ''0.3.1'', hd_IPAMType = ''tcnp-ipam'', hd_DNS = noDNS, hd_Device = ''eth1'', hd_HWAddr = [],
     hd_KernelPath = [], hd_PCIAddr = [], hd_DeviceID = []\<rparr>"


end
