(* ===== verification/VethRoute.thy ===== *)
theory VethRoute
  imports HostDevice
begin

text \<open>
  \<^verbatim>\<open>cmd/veth-route/veth-route.go\<close>: the plugin that connects a container to the node with a pair of interfaces and
  sends everything the container sends to the address 169.254.1.1 of a dummy interface of the node. Its further netlink
  calls are the record \<open>routeops\<close>. The helpers of the package \<^verbatim>\<open>ip\<close> it uses are translated from
  \<^verbatim>\<open>vendor/github.com/containernetworking/plugins/pkg/ip\<close>; \<^verbatim>\<open>SetupVeth\<close> and the address translation stay
  calls of \<open>kern\<close>. An error is its text, so the comparisons with \<^verbatim>\<open>syscall.EEXIST\<close>, \<^verbatim>\<open>syscall.ENOENT\<close> and
  \<^verbatim>\<open>ErrLinkNotFound\<close> compare texts.
\<close>

section \<open>Calls\<close>

definition FAMILY_ALL :: int where "FAMILY_ALL = 0"

definition EEXIST :: string where "EEXIST = ''file exists''"

definition ENOENT :: string where "ENOENT = ''no such file or directory''"

text \<open>\<^verbatim>\<open>os.IsExist\<close> on an error of the kernel: \<^verbatim>\<open>EEXIST\<close>, \<^verbatim>\<open>ENOTEMPTY\<close> or \<^verbatim>\<open>os.ErrExist\<close>.\<close>

definition IsExist :: "string \<Rightarrow> bool" where
  "IsExist e \<longleftrightarrow> e = EEXIST \<or> e = ''directory not empty'' \<or> e = ''file already exists''"

text \<open>\<open>v_isDummy\<close> is the type assertion to \<^verbatim>\<open>*netlink.Dummy\<close>.\<close>

record 'w routeops =
  v_RouteList :: "('w, nlRoute list) act"
  v_RouteDel :: "nlRoute \<Rightarrow> ('w, unit) act"
  v_LinkAddDummy :: "string \<Rightarrow> ('w, unit) act"
  v_isDummy :: "nlLink \<Rightarrow> bool"
  v_LinkSetUp :: "nlLink \<Rightarrow> ('w, unit) act"
  v_SetPromiscOn :: "nlLink \<Rightarrow> ('w, unit) act"
  v_AddrList :: "nlLink \<Rightarrow> int \<Rightarrow> ('w, ipnet list) act"
  v_AddrAdd :: "nlLink \<Rightarrow> ipnet \<Rightarrow> ('w, unit) act"
  v_AddrDel :: "nlLink \<Rightarrow> ipnet \<Rightarrow> ('w, unit) act"
  v_SetHardwareAddr :: "nlLink \<Rightarrow> 8 word list \<Rightarrow> ('w, unit) act"
  v_showRoute :: "nlRoute \<Rightarrow> string"

section \<open>The package ip\<close>

definition AddRoute :: "'w kern \<Rightarrow> ipnet \<Rightarrow> ip \<Rightarrow> nlLink \<Rightarrow> ('w, unit) act" where
  "AddRoute K ipn gw dev =
     k_RouteAdd K (emptyRoute\<lparr>nr_LinkIndex := lk_Index dev, nr_Scope := SCOPE_UNIVERSE, nr_Dst := Some ipn, nr_Gw := gw\<rparr>)"

fun forwardLoop :: "'w kern \<Rightarrow> bool \<Rightarrow> bool \<Rightarrow> IPConfig list \<Rightarrow> ('w, unit) act" where
  "forwardLoop K v4 v6 [] = aret ()"
| "forwardLoop K v4 v6 (ipc # ips) =
     (if ipc_Version ipc = ''4'' \<and> \<not> v4 then abind (k_EnableIP4Forward K) (\<lambda>_. forwardLoop K True v6 ips)
      else if ipc_Version ipc = ''6'' \<and> \<not> v6 then abind (k_EnableIP6Forward K) (\<lambda>_. forwardLoop K v4 True ips)
      else forwardLoop K v4 v6 ips)"

definition EnableForward :: "'w kern \<Rightarrow> IPConfig list \<Rightarrow> ('w, unit) act" where
  "EnableForward K ips = forwardLoop K False False ips"

text \<open>\<^verbatim>\<open>net.IP.IsGlobalUnicast\<close>.\<close>

definition IsGlobalUnicast :: "ip \<Rightarrow> bool" where
  "IsGlobalUnicast a \<longleftrightarrow>
     (case To4 a of
        Some x \<Rightarrow> x \<noteq> [255, 255, 255, 255] \<and> x \<noteq> [0, 0, 0, 0] \<and> x ! 0 \<noteq> 127 \<and> unat (x ! 0) div 16 \<noteq> 14 \<and> \<not> (x ! 0 = 169 \<and> x ! 1 = 254)
      | None \<Rightarrow> length a = 16 \<and> a \<noteq> replicate 16 0 \<and> a \<noteq> replicate 15 0 @ [1] \<and> a ! 0 \<noteq> 255 \<and>
                \<not> (a ! 0 = 254 \<and> unat (a ! 1) div 64 = 2))"

definition linkGone :: string where "linkGone = ''Link not found''"

definition DelLinkByNameAddr :: "'w kern \<Rightarrow> string \<Rightarrow> ('w, ipnet list) act" where
  "DelLinkByNameAddr K ifName =
     acase (k_LinkByName K ifName)
       (\<lambda>iface.
        abind (awrap (\<lambda>e. ''failed to get IP addresses for '' @ quote ifName @ '': '' @ e) (k_AddrList K iface)) (\<lambda>addrs.
        abind (awrap (\<lambda>e. ''failed to delete '' @ quote ifName @ '': '' @ e) (k_LinkDel K iface)) (\<lambda>_.
        aret (filter (\<lambda>addr. IsGlobalUnicast (IPNet_IP addr)) addrs))))
       (\<lambda>e. if e = linkGone then aerr ErrLinkNotFound else aerr (''failed to lookup '' @ quote ifName @ '': '' @ e))"

text \<open>\<^verbatim>\<open>ns.WithNetNSPath\<close>.\<close>

definition WithNetNSPath :: "'w kern \<Rightarrow> string \<Rightarrow> ('w, 'a) act \<Rightarrow> ('w, 'a) act" where
  "WithNetNSPath K path m = abind (k_GetNS K path) (\<lambda>_. nsDo K path m)"

section \<open>The dummy interface of the node\<close>

definition dummyByName :: "'w kern \<Rightarrow> 'w routeops \<Rightarrow> string \<Rightarrow> ('w, nlLink) act" where
  "dummyByName K V dname =
     abind (awrap (\<lambda>e. ''could not lookup '' @ quote dname @ '': '' @ e) (k_LinkByName K dname)) (\<lambda>l.
     if v_isDummy V l then aret l else aerr (quote dname @ '' already exists but is not a dummy''))"

definition ensureDummy :: "'w kern \<Rightarrow> 'w routeops \<Rightarrow> string \<Rightarrow> ('w, nlLink) act" where
  "ensureDummy K V dummyName =
     abind (acase (v_LinkAddDummy V dummyName) aret
              (\<lambda>e. if e \<noteq> EEXIST then aerr (''could not add '' @ quote dummyName @ '': '' @ e) else aret ())) (\<lambda>_.
     abind (dummyByName K V dummyName) (\<lambda>dummy.
     abind (v_LinkSetUp V dummy) (\<lambda>_.
     abind (awrap (\<lambda>e. ''could not set promiscuous mode on '' @ quote dummyName @ '': '' @ e) (v_SetPromiscOn V dummy)) (\<lambda>_.
     aret dummy))))"

definition deleteAddr :: "'w routeops \<Rightarrow> nlLink \<Rightarrow> ipnet \<Rightarrow> ('w, unit) act" where
  "deleteAddr V dummy ipn =
     awrap (\<lambda>e. ''could not remove IP address from '' @ quote (lk_Name dummy) @ '': '' @ e) (v_AddrDel V dummy ipn)"

text \<open>The loop over the addresses; \<open>True\<close> is the early return because the address is there.\<close>

fun addrLoop :: "'w routeops \<Rightarrow> nlLink \<Rightarrow> int \<Rightarrow> ipnet \<Rightarrow> bool \<Rightarrow> ipnet list \<Rightarrow> ('w, bool) act" where
  "addrLoop V dummy family ipn forceAddress [] = aret False"
| "addrLoop V dummy family ipn forceAddress (a # addrs) =
     (if netString a = netString ipn then aret True
      else if family = FAMILY_V4 \<or> netContains a (IPNet_IP ipn) \<or> netContains ipn (IPNet_IP a)
      then (if forceAddress
            then abind (deleteAddr V dummy a) (\<lambda>_. addrLoop V dummy family ipn forceAddress addrs)
            else aerr (quote (lk_Name dummy) @ '' already has an IP address different from '' @ netString ipn))
      else addrLoop V dummy family ipn forceAddress addrs)"

definition ensureAddr :: "'w routeops \<Rightarrow> nlLink \<Rightarrow> int \<Rightarrow> ipnet \<Rightarrow> bool \<Rightarrow> ('w, unit) act" where
  "ensureAddr V dummy family ipn forceAddress =
     abind (acase (v_AddrList V dummy family) aret
              (\<lambda>e. if e \<noteq> ENOENT then aerr (''could not get list of IP addresses: '' @ e) else aret [])) (\<lambda>addrs.
     abind (addrLoop V dummy family ipn forceAddress addrs) (\<lambda>found.
     if found then aret ()
     else
     abind (acase (v_AddrAdd V dummy ipn) aret
              (\<lambda>e. if e \<noteq> EEXIST then aerr (''could not add IP address to '' @ quote (lk_Name dummy) @ '': '' @ e) else aret ())) (\<lambda>_.
     awrap (\<lambda>e. ''could not set dummy's mac: '' @ e) (v_SetHardwareAddr V dummy (lk_HardwareAddr dummy)))))"

definition gatewayIP :: ip where
  "gatewayIP = ParseIP ''169.254.1.1''"

definition gatewayNet :: ipnet where
  "gatewayNet = \<lparr>IPNet_IP = gatewayIP, IPNet_Mask = CIDRMask 32 32\<rparr>"

definition setupDummy :: "'w kern \<Rightarrow> 'w routeops \<Rightarrow> ('w, unit) act" where
  "setupDummy K V =
     abind (awrap (\<lambda>e. ''failed to create dummy '' @ quote ''dummy0'' @ '': '' @ e) (ensureDummy K V ''dummy0'')) (\<lambda>dummy.
     ensureAddr V dummy FAMILY_ALL gatewayNet False)"

section \<open>The two ends\<close>

text \<open>The routes of one address: to the gateway on the link, and everything else to the gateway.\<close>

definition gatewayRoutes :: "nlLink \<Rightarrow> IPConfig \<Rightarrow> ipnet \<Rightarrow> nlRoute list" where
  "gatewayRoutes contVeth ipc defaultGwCidr =
     (let addrBits = (if ipc_Version ipc = ''6'' then 128 else 32) in
      [emptyRoute\<lparr>nr_LinkIndex := lk_Index contVeth,
                  nr_Dst := Some \<lparr>IPNet_IP = gatewayIP, IPNet_Mask = CIDRMask addrBits addrBits\<rparr>,
                  nr_Scope := SCOPE_LINK, nr_Src := IPNet_IP (ipc_Address ipc)\<rparr>,
       emptyRoute\<lparr>nr_LinkIndex := lk_Index contVeth, nr_Dst := Some defaultGwCidr,
                  nr_Scope := SCOPE_UNIVERSE, nr_Gw := gatewayIP\<rparr>])"

definition addGatewayRoutes :: "'w kern \<Rightarrow> 'w routeops \<Rightarrow> nlLink \<Rightarrow> IPConfig list \<Rightarrow> ('w, unit) act" where
  "addGatewayRoutes K V contVeth ips = afor ips (\<lambda>ipc.
     abind (awrap (\<lambda>e. ''failed to parse default gw cidr :'' @ e) (alift (ParseCIDR ''0.0.0.0/0''))) (\<lambda>(_, defaultGwCidr).
     afor (gatewayRoutes contVeth ipc defaultGwCidr) (\<lambda>r.
       awrap (\<lambda>e. ''failed to add route '' @ v_showRoute V r @ '': '' @ e) (k_RouteAdd K r))))"

definition vr_setupContainerVeth ::
  "'w kern \<Rightarrow> 'w routeops \<Rightarrow> 'w ipamops \<Rightarrow> string \<Rightarrow> string \<Rightarrow> int \<Rightarrow> cniResult \<Rightarrow>
     ('w, Interface \<times> Interface \<times> cniResult) act" where
  "vr_setupContainerVeth K V I netns ifName mtu pr0 =
     nsDo K netns
       (abind (k_SetupVeth K ifName mtu) (\<lambda>(hostVeth, contVeth0).
        (let hostInterface = \<lparr>if_Name = lk_Name hostVeth, if_Mac = lk_Mac hostVeth, if_Sandbox = []\<rparr>;
             containerInterface = \<lparr>if_Name = lk_Name contVeth0, if_Mac = lk_Mac contVeth0, if_Sandbox = netns\<rparr>;
             pr = pr0\<lparr>re_IPs := map (\<lambda>ipc. ipc\<lparr>ipc_Interface := Some 1\<rparr>) (re_IPs pr0),
                      re_Interfaces := [hostInterface, containerInterface]\<rparr>
         in
         abind (ip_ConfigureIface I ifName pr) (\<lambda>_.
         abind (awrap (\<lambda>e. ''failed to look up '' @ quote ifName @ '': '' @ e) (k_InterfaceByName K ifName)) (\<lambda>contVeth.
         abind (awrap (\<lambda>e. ''failed to list route: '' @ e) (v_RouteList V)) (\<lambda>routes.
         abind (afor routes (\<lambda>route.
                  awrap (\<lambda>e. ''failed to delete route '' @ v_showRoute V route @ '': '' @ e) (v_RouteDel V route))) (\<lambda>_.
         abind (addGatewayRoutes K V contVeth (re_IPs pr)) (\<lambda>_.
         abind (afor (re_IPs pr) (\<lambda>ipc. if ipc_Version ipc = ''4''
                  then aignore (k_Arp K (IPNet_IP (ipc_Address ipc)) contVeth) else aret ())) (\<lambda>_.
         aret (hostInterface, containerInterface, pr))))))))))"

definition vr_setupHostVeth :: "'w kern \<Rightarrow> string \<Rightarrow> cniResult \<Rightarrow> ('w, unit) act" where
  "vr_setupHostVeth K vethName res =
     abind (awrap (\<lambda>e. ''failed to lookup '' @ quote vethName @ '': '' @ e) (k_LinkByName K vethName)) (\<lambda>veth.
     afor (re_IPs res) (\<lambda>ipc.
       acase (AddRoute K (hostNet (IPNet_IP (ipc_Address ipc))) [] veth) aret
         (\<lambda>e. if \<not> IsExist e then aerr (''failed to add route on host: '' @ e) else aret ())))"

section \<open>The commands\<close>

record VRConf =
  vr_Name :: string
  vr_CNIVersion :: string
  vr_IPAMType :: string
  vr_DNS :: DNS
  vr_IPMasq :: bool
  vr_MTU :: int

definition vethroute_cmdAdd ::
  "'w kern \<Rightarrow> 'w routeops \<Rightarrow> 'w ipamops \<Rightarrow> (string \<Rightarrow> VRConf result) \<Rightarrow> (cniResult \<Rightarrow> string \<Rightarrow> string result) \<Rightarrow> CmdArgs \<Rightarrow> ('w, string) act" where
  "vethroute_cmdAdd K V I unmarshal printResult args =
     abind (awrap (\<lambda>e. ''failed to load netconf: '' @ e) (alift (unmarshal (ca_StdinData args)))) (\<lambda>conf.
     abind (ip_ExecAdd I (vr_IPAMType conf) (ca_StdinData args)) (\<lambda>r.
     abind (alift (ip_NewResult I r)) (\<lambda>res.
     if length (re_IPs res) = 0 then aerr missingIPErr
     else
     abind (awrap (\<lambda>e. ''Could not enable IP forwarding: '' @ e) (EnableForward K (re_IPs res))) (\<lambda>_.
     abind (awrap (\<lambda>e. ''failed to open netns '' @ quote (ca_Netns args) @ '': '' @ e) (k_GetNS K (ca_Netns args))) (\<lambda>_.
     abind (setupDummy K V) (\<lambda>_.
     abind (vr_setupContainerVeth K V I (ca_Netns args) (ca_IfName args) (vr_MTU conf) res) (\<lambda>(hostInterface, containerInterface, res).
     abind (vr_setupHostVeth K (if_Name hostInterface) res) (\<lambda>_.
     abind (if vr_IPMasq conf
            then afor (re_IPs res) (\<lambda>ipc. k_SetupIPMasq K (ipc_Address ipc)
                   (k_FormatChainName K (vr_Name conf) (ca_ContainerID args)) (k_FormatComment K (vr_Name conf) (ca_ContainerID args)))
            else aret ()) (\<lambda>_.
     alift (printResult (res\<lparr>re_DNS := vr_DNS conf, re_Interfaces := [hostInterface, containerInterface]\<rparr>) (vr_CNIVersion conf)))))))))))"

text \<open>The loop that assigns the error of every teardown, of which the last one is returned.\<close>

fun lastError :: "('a \<Rightarrow> ('w, unit) act) \<Rightarrow> 'a list \<Rightarrow> string option \<Rightarrow> ('w, unit) act" where
  "lastError f [] e = (case e of None \<Rightarrow> aret () | Some t \<Rightarrow> aerr t)"
| "lastError f (x # xs) _ = acase (f x) (\<lambda>_. lastError f xs None) (\<lambda>t. lastError f xs (Some t))"

definition vethroute_cmdDel ::
  "'w kern \<Rightarrow> 'w ipamops \<Rightarrow> (string \<Rightarrow> VRConf result) \<Rightarrow> CmdArgs \<Rightarrow> ('w, unit) act" where
  "vethroute_cmdDel K I unmarshal args =
     abind (awrap (\<lambda>e. ''failed to load netconf: '' @ e) (alift (unmarshal (ca_StdinData args)))) (\<lambda>conf.
     abind (ip_ExecDel I (vr_IPAMType conf) (ca_StdinData args)) (\<lambda>_.
     if ca_Netns args = [] then aret ()
     else
     abind (WithNetNSPath K (ca_Netns args)
              (acase (DelLinkByNameAddr K (ca_IfName args)) aret
                 (\<lambda>e. if e = ErrLinkNotFound then aret [] else aerr e))) (\<lambda>ipnets.
     if length ipnets \<noteq> 0 \<and> vr_IPMasq conf
     then lastError (\<lambda>ipn. k_TeardownIPMasq K ipn
            (k_FormatChainName K (vr_Name conf) (ca_ContainerID args)) (k_FormatComment K (vr_Name conf) (ca_ContainerID args))) ipnets None
     else aret ())))"

end
