(* ===== verification/IPVlan.thy ===== *)
theory IPVlan
  imports VethRoute
begin

text \<open>
  \<^verbatim>\<open>cmd/ipvlan/ipvlan.go\<close>: the plugin that gives a container an ipvlan interface on an interface of the node. Its
  further calls are the record \<open>ipvlanops\<close>, the decoders of the configuration the record \<open>ivcodec\<close>. \<^verbatim>\<open>RenameLink\<close> and
  \<^verbatim>\<open>DelLinkByName\<close> are translated from \<^verbatim>\<open>vendor/github.com/containernetworking/plugins/pkg/ip\<close>.
\<close>

section \<open>Configuration\<close>

datatype IPVlanMode = IPVLAN_MODE_L2 | IPVLAN_MODE_L3 | IPVLAN_MODE_L3S

record IPVlanConf =
  iv_CNIVersion :: string
  iv_IPAMType :: string
  iv_DNS :: DNS
  iv_RawPrevResult :: "string option"
  iv_PrevResult :: "cniResult option"
  iv_Master :: string
  iv_Mode :: string
  iv_MTU :: int

definition chainMaster :: "IPVlanConf \<Rightarrow> IPVlanConf result" where
  "chainMaster n =
     (if iv_Master n = [] then
        (case iv_PrevResult n of
           None \<Rightarrow> Err (quote ''master'' @ '' field is required. It specifies the host interface name to virtualize'')
         | Some prev \<Rightarrow>
           (if length (re_Interfaces prev) = 1 \<and> if_Name (re_Interfaces prev ! 0) \<noteq> []
            then Ok (n\<lparr>iv_Master := if_Name (re_Interfaces prev ! 0)\<rparr>)
            else Err ''chained master failure. PrevResult lacks a single named interface''))
      else Ok n)"

definition rwrap :: "(string \<Rightarrow> string) \<Rightarrow> 'a result \<Rightarrow> 'a result" where
  "rwrap f r = (case r of Err e \<Rightarrow> Err (f e) | _ \<Rightarrow> r)"

text \<open>The decoders: \<open>iv_unmarshal\<close> for \<^verbatim>\<open>json.Unmarshal\<close>, which does not fill \<^verbatim>\<open>PrevResult\<close> (its tag is
  \<^verbatim>\<open>"-"\<close>), and those of the previous result.\<close>

record ivcodec =
  iv_unmarshal :: "string \<Rightarrow> IPVlanConf result"
  iv_marshal :: "string \<Rightarrow> string result"
  iv_newResult :: "string \<Rightarrow> string \<Rightarrow> string result"
  iv_convertResult :: "string \<Rightarrow> cniResult result"

definition prevResultOf :: "ivcodec \<Rightarrow> IPVlanConf \<Rightarrow> IPVlanConf result" where
  "prevResultOf C n =
     (case iv_RawPrevResult n of
        None \<Rightarrow> Ok n
      | Some raw \<Rightarrow>
        rbind (rwrap (\<lambda>e. ''could not serialize prevResult: '' @ e) (iv_marshal C raw)) (\<lambda>resultBytes.
        rbind (rwrap (\<lambda>e. ''could not parse prevResult: '' @ e) (iv_newResult C (iv_CNIVersion n) resultBytes)) (\<lambda>res.
        rbind (rwrap (\<lambda>e. ''could not convert result to current version: '' @ e) (iv_convertResult C res)) (\<lambda>prev.
        Ok (n\<lparr>iv_RawPrevResult := None, iv_PrevResult := Some prev\<rparr>)))))"

definition iv_loadConf :: "ivcodec \<Rightarrow> string \<Rightarrow> (IPVlanConf \<times> string) result" where
  "iv_loadConf C bytes =
     rbind (rwrap (\<lambda>e. ''failed to load netconf: '' @ e) (iv_unmarshal C bytes)) (\<lambda>n.
     rbind (prevResultOf C (n\<lparr>iv_PrevResult := None\<rparr>)) (\<lambda>n.
     rbind (chainMaster n) (\<lambda>n. Ok (n, iv_CNIVersion n))))"

definition modeFromString :: "string \<Rightarrow> IPVlanMode result" where
  "modeFromString s =
     (if s = [] \<or> s = ''l2'' then Ok IPVLAN_MODE_L2
      else if s = ''l3'' then Ok IPVLAN_MODE_L3
      else if s = ''l3s'' then Ok IPVLAN_MODE_L3S
      else Err (''unknown ipvlan mode: '' @ quote s))"

section \<open>Creating the interface\<close>

text \<open>\<open>p_LinkAddIPVlan mtu name parent ns mode\<close> is \<^verbatim>\<open>netlink.LinkAdd\<close> of an \<^verbatim>\<open>IPVlan\<close>.\<close>

record 'w ipvlanops =
  p_RandomVethName :: "('w, string) act"
  p_LinkAddIPVlan :: "int \<Rightarrow> string \<Rightarrow> int \<Rightarrow> string \<Rightarrow> IPVlanMode \<Rightarrow> ('w, unit) act"
  p_LinkSetName :: "nlLink \<Rightarrow> string \<Rightarrow> ('w, unit) act"

definition RenameLink :: "'w kern \<Rightarrow> 'w ipvlanops \<Rightarrow> string \<Rightarrow> string \<Rightarrow> ('w, unit) act" where
  "RenameLink K N curName newName = abind (k_LinkByName K curName) (\<lambda>link. p_LinkSetName N link newName)"

definition DelLinkByName :: "'w kern \<Rightarrow> string \<Rightarrow> ('w, unit) act" where
  "DelLinkByName K ifName =
     acase (k_LinkByName K ifName)
       (\<lambda>iface. awrap (\<lambda>e. ''failed to delete '' @ quote ifName @ '': '' @ e) (k_LinkDel K iface))
       (\<lambda>e. if e = linkGone then aerr ErrLinkNotFound else aerr (''failed to lookup '' @ quote ifName @ '': '' @ e))"

definition createIpvlan :: "'w kern \<Rightarrow> 'w ipvlanops \<Rightarrow> IPVlanConf \<Rightarrow> string \<Rightarrow> string \<Rightarrow> ('w, Interface) act" where
  "createIpvlan K N conf ifName netns =
     abind (alift (modeFromString (iv_Mode conf))) (\<lambda>mode.
     abind (awrap (\<lambda>e. ''failed to lookup master '' @ quote (iv_Master conf) @ '': '' @ e) (k_LinkByName K (iv_Master conf))) (\<lambda>m.
     abind (p_RandomVethName N) (\<lambda>tmpName.
     abind (awrap (\<lambda>e. ''failed to create ipvlan: '' @ e) (p_LinkAddIPVlan N (iv_MTU conf) tmpName (lk_Index m) netns mode)) (\<lambda>_.
     nsDo K netns
       (abind (awrap (\<lambda>e. ''failed to rename ipvlan to '' @ quote ifName @ '': '' @ e) (RenameLink K N tmpName ifName)) (\<lambda>_.
        abind (awrap (\<lambda>e. ''failed to refetch ipvlan '' @ quote ifName @ '': '' @ e) (k_LinkByName K ifName)) (\<lambda>contIpvlan.
        aret \<lparr>if_Name = ifName, if_Mac = lk_Mac contIpvlan, if_Sandbox = netns\<rparr>)))))))"

section \<open>The commands\<close>

text \<open>The result to configure: that of the previous plugin when it has addresses and no IPAM plugin is named, otherwise
  that of the IPAM plugin.\<close>

definition iv_result :: "'w ipamops \<Rightarrow> IPVlanConf \<Rightarrow> CmdArgs \<Rightarrow> ('w, cniResult) act" where
  "iv_result I n args =
     (case (case iv_PrevResult n of
              Some prev \<Rightarrow> if iv_IPAMType n = [] \<and> length (re_IPs prev) > 0 then Some prev else None
            | None \<Rightarrow> None) of
        Some prev \<Rightarrow> aret prev
      | None \<Rightarrow>
        abind (ip_ExecAdd I (iv_IPAMType n) (ca_StdinData args)) (\<lambda>r.
        abind (alift (ip_NewResult I r)) (\<lambda>res.
        if length (re_IPs res) = 0 then aerr missingIPErr else aret res)))"

definition ipvlan_cmdAdd ::
  "'w kern \<Rightarrow> 'w ipvlanops \<Rightarrow> 'w ipamops \<Rightarrow> ivcodec \<Rightarrow> (cniResult \<Rightarrow> string \<Rightarrow> string result) \<Rightarrow>
     CmdArgs \<Rightarrow> ('w, string) act" where
  "ipvlan_cmdAdd K N I C printResult args =
     abind (alift (iv_loadConf C (ca_StdinData args))) (\<lambda>(n, cniVersion).
     abind (awrap (\<lambda>e. ''failed to open netns '' @ quote (ca_Netns args) @ '': '' @ e) (k_GetNS K (ca_Netns args))) (\<lambda>_.
     abind (createIpvlan K N n (ca_IfName args) (ca_Netns args)) (\<lambda>ipvlanInterface.
     abind (iv_result I n args) (\<lambda>res0.
     (let res = res0\<lparr>re_IPs := map (\<lambda>ipc. ipc\<lparr>ipc_Interface := Some 0\<rparr>) (re_IPs res0), re_Interfaces := [ipvlanInterface]\<rparr> in
      abind (nsDo K (ca_Netns args) (ip_ConfigureIface I (ca_IfName args) res)) (\<lambda>_.
      alift (printResult (res\<lparr>re_DNS := iv_DNS n\<rparr>) cniVersion)))))))"

definition ipvlan_cmdDel ::
  "'w kern \<Rightarrow> 'w ipamops \<Rightarrow> ivcodec \<Rightarrow> CmdArgs \<Rightarrow> ('w, unit) act" where
  "ipvlan_cmdDel K I C args =
     abind (alift (iv_loadConf C (ca_StdinData args))) (\<lambda>(n, _).
     abind (if iv_IPAMType n \<noteq> [] then ip_ExecDel I (iv_IPAMType n) (ca_StdinData args) else aret ()) (\<lambda>_.
     if ca_Netns args = [] then aret ()
     else WithNetNSPath K (ca_Netns args)
            (acase (DelLinkByName K (ca_IfName args)) aret
               (\<lambda>e. if e \<noteq> ErrLinkNotFound then aerr e else aret ()))))"

end
