(* ===== verification/VethRouteProps.thy ===== *)
theory VethRouteProps
  imports VethRoute Triples VethHostProps
begin

text \<open>
  The properties of \<^verbatim>\<open>cmd/veth-route\<close>: what a successful ADD makes of the routes of the container and of the node, and
  what \<^verbatim>\<open>ensureAddr\<close> does to the addresses of the dummy interface.
\<close>

section \<open>Routes\<close>

text \<open>
  \<open>rts w n\<close> are the routes of the namespace \<open>n\<close>, \<open>cur w\<close> is the namespace of the calling thread.
  What netlink documents: a list of the routes changes nothing, a route is removed or added in the thread's namespace,
  and since \<^verbatim>\<open>RouteAdd\<close> passes \<^verbatim>\<open>NLM_F_EXCL\<close> it refuses a route to a destination that has one. Setting up
  interfaces and addresses may change routes but not the namespace of the thread, iptables and ARP change no routes.
\<close>

type_synonym routes = "string \<Rightarrow> nlRoute list"

definition adds_route :: "('w \<Rightarrow> routes) \<Rightarrow> ('w \<Rightarrow> string) \<Rightarrow> (nlRoute \<Rightarrow> ('w, unit) act) \<Rightarrow> bool" where
  "adds_route rts cur m \<longleftrightarrow> (\<forall>r c M. post (netAt rts cur c M) (m r)
     (\<lambda>_ w. netAt rts cur c (M(c := M c @ [r])) w \<and> nr_Dst r \<notin> nr_Dst ` set (M c))
     (\<lambda>e w. netAt rts cur c M w \<and> (IsExist e \<longrightarrow> nr_Dst r \<in> nr_Dst ` set (M c))))"

definition removes_route :: "('w \<Rightarrow> routes) \<Rightarrow> ('w \<Rightarrow> string) \<Rightarrow> (nlRoute \<Rightarrow> ('w, unit) act) \<Rightarrow> bool" where
  "removes_route rts cur m \<longleftrightarrow> (\<forall>r c M. post (netAt rts cur c M) (m r)
     (\<lambda>_. netAt rts cur c (M(c := filter (\<lambda>x. x \<noteq> r) (M c)))) (\<lambda>_. netAt rts cur c M))"

definition kernel_routes ::
  "'w kern \<Rightarrow> 'w routeops \<Rightarrow> 'w ipamops \<Rightarrow> ('w \<Rightarrow> routes) \<Rightarrow> ('w \<Rightarrow> string) \<Rightarrow> string \<Rightarrow> bool" where
  "kernel_routes K V I rts cur home \<longleftrightarrow>
     adds_route rts cur (k_RouteAdd K) \<and> removes_route rts cur (v_RouteDel V) \<and>
     (\<forall>c M. post (netAt rts cur c M) (v_RouteList V) (\<lambda>r w. netAt rts cur c M w \<and> r = M c) (\<lambda>_. netAt rts cur c M)) \<and>
     (\<forall>n c M. post (netAt rts cur c M) (k_nsSet K n) (\<lambda>_. netAt rts cur n M) (\<lambda>_. netAt rts cur c M)) \<and>
     (\<forall>c M. post (netAt rts cur c M) (k_nsBack K) (\<lambda>_. netAt rts cur home M) (\<lambda>_. netAt rts cur home M)) \<and>
     (\<forall>c M n a l s t. stays (netAt rts cur c M) (k_LinkByName K n) \<and> stays (netAt rts cur c M) (k_InterfaceByName K n) \<and>
        stays (netAt rts cur c M) (k_Arp K a l) \<and> stays (netAt rts cur c M) (k_SetupIPMasq K s n t)) \<and>
     (\<forall>c s t r i. stays (\<lambda>w. cur w = c) (ip_ExecAdd I s t) \<and> stays (\<lambda>w. cur w = c) (ip_ConfigureIface I s r) \<and>
        stays (\<lambda>w. cur w = c) (k_SetupVeth K s i) \<and> stays (\<lambda>w. cur w = c) (k_GetNS K s) \<and>
        stays (\<lambda>w. cur w = c) (k_EnableIP4Forward K) \<and> stays (\<lambda>w. cur w = c) (k_EnableIP6Forward K)) \<and>
     (\<forall>c s l f n h. stays (\<lambda>w. cur w = c) (v_LinkAddDummy V s) \<and> stays (\<lambda>w. cur w = c) (v_LinkSetUp V l) \<and>
        stays (\<lambda>w. cur w = c) (v_SetPromiscOn V l) \<and> stays (\<lambda>w. cur w = c) (v_AddrList V l f) \<and>
        stays (\<lambda>w. cur w = c) (v_AddrAdd V l n) \<and> stays (\<lambda>w. cur w = c) (v_AddrDel V l n) \<and>
        stays (\<lambda>w. cur w = c) (v_SetHardwareAddr V l h))"

lemma kernel_routesD:
  assumes "kernel_routes K V I rts cur home"
  shows "adds_route rts cur (k_RouteAdd K)" "removes_route rts cur (v_RouteDel V)"
    "post (netAt rts cur c M) (v_RouteList V) (\<lambda>r w. netAt rts cur c M w \<and> r = M c) (\<lambda>_. netAt rts cur c M)"
    "post (netAt rts cur c M) (k_nsSet K n) (\<lambda>_. netAt rts cur n M) (\<lambda>_. netAt rts cur c M)"
    "post (netAt rts cur c M) (k_nsBack K) (\<lambda>_. netAt rts cur home M) (\<lambda>_. netAt rts cur home M)"
    "stays (netAt rts cur c M) (k_LinkByName K n)" "stays (netAt rts cur c M) (k_InterfaceByName K n)"
    "stays (netAt rts cur c M) (k_Arp K a l)" "stays (netAt rts cur c M) (k_SetupIPMasq K s n t)"
  using assms unfolding kernel_routes_def by simp_all

lemma kernel_routes_stay:
  assumes "kernel_routes K V I rts cur home"
  shows "stays (\<lambda>w. cur w = c) (ip_ExecAdd I s t)" "stays (\<lambda>w. cur w = c) (ip_ConfigureIface I s r)"
    "stays (\<lambda>w. cur w = c) (k_SetupVeth K s i)" "stays (\<lambda>w. cur w = c) (k_GetNS K s)"
    "stays (\<lambda>w. cur w = c) (k_EnableIP4Forward K)" "stays (\<lambda>w. cur w = c) (k_EnableIP6Forward K)"
    "stays (\<lambda>w. cur w = c) (v_LinkAddDummy V s)" "stays (\<lambda>w. cur w = c) (v_LinkSetUp V l)"
    "stays (\<lambda>w. cur w = c) (v_SetPromiscOn V l)" "stays (\<lambda>w. cur w = c) (v_AddrList V l f)"
    "stays (\<lambda>w. cur w = c) (v_AddrAdd V l n)" "stays (\<lambda>w. cur w = c) (v_AddrDel V l n)"
    "stays (\<lambda>w. cur w = c) (v_SetHardwareAddr V l h)"
  using assms unfolding kernel_routes_def
  by blast+

definition defaultNet :: ipnet where
  "defaultNet = \<lparr>IPNet_IP = [0, 0, 0, 0], IPNet_Mask = CIDRMask 0 32\<rparr>"

lemma ParseCIDR_default: "ParseCIDR ''0.0.0.0/0'' = Ok (v4InV6Prefix @ [0, 0, 0, 0], defaultNet)"
  by code_simp

lemma forwardLoop_stays: "stays J (k_EnableIP4Forward K) \<Longrightarrow> stays J (k_EnableIP6Forward K) \<Longrightarrow> stays J (forwardLoop K v4 v6 ips)"
  by (induction K v4 v6 ips rule: forwardLoop.induct) (auto intro!: stays_intros)

lemma addrLoop_stays: "(\<And>a. stays J (v_AddrDel V d a)) \<Longrightarrow> stays J (addrLoop V d f n force as)"
  by (induction V d f n force as rule: addrLoop.induct) (auto simp: deleteAddr_def intro!: stays_intros)

lemma setupDummy_stays:
  assumes "kernel_routes K V I rts cur home"
  shows "stays (\<lambda>w. cur w = c) (setupDummy K V)"
  unfolding setupDummy_def ensureDummy_def dummyByName_def ensureAddr_def
  by (intro stays_intros addrLoop_stays kernel_routes_stay[OF assms] stays_netAt_cur[OF kernel_routesD(6)[OF assms]])

text \<open>Deleting every listed route.\<close>

lemma delete_all_routes:
  assumes K: "kernel_routes K V I rts cur home"
  shows "post (netAt rts cur c M) (afor (M c) (\<lambda>r. awrap (f r) (v_RouteDel V r))) (\<lambda>_. netAt rts cur c (M(c := []))) (\<lambda>_ _. True)"
proof -
  let ?P = "\<lambda>gone. netAt rts cur c (M(c := filter (\<lambda>x. x \<notin> set gone) (M c)))"
  have "post (?P gone) (awrap (f r) (v_RouteDel V r)) (\<lambda>_. ?P (gone @ [r])) (\<lambda>_ _. True)" for gone r
  proof -
    have e: "(M(c := filter (\<lambda>x. x \<notin> set gone) (M c)))(c := filter (\<lambda>x. x \<noteq> r) ((M(c := filter (\<lambda>x. x \<notin> set gone) (M c))) c)) =
        M(c := filter (\<lambda>x. x \<notin> set (gone @ [r])) (M c))" by (simp add: fun_eq_iff conj_commute)
    show ?thesis
      using kernel_routesD(2)[OF K, unfolded removes_route_def, rule_format, of c "M(c := filter (\<lambda>x. x \<notin> set gone) (M c))" r, unfolded e]
      by (intro post_awrap) (rule post_ok)
  qed
  then have "post (?P []) (afor (M c) (\<lambda>r. awrap (f r) (v_RouteDel V r))) (\<lambda>_. ?P (M c)) (\<lambda>_ _. True)"
    by (rule post_afor)
  moreover have "M(c := filter (\<lambda>x. x \<notin> set (M c)) (M c)) = M(c := [])" by (simp add: fun_eq_iff filter_empty_conv)
  ultimately show ?thesis by simp
qed

text \<open>Adding routes, each of which must be the first to its destination.\<close>

lemma add_routes:
  assumes K: "kernel_routes K V I rts cur home"
  shows "post (\<lambda>w. netAt rts cur c (M(c := L)) w \<and> distinct (map nr_Dst L)) (afor rs (\<lambda>r. awrap (f r) (k_RouteAdd K r)))
     (\<lambda>_ w. netAt rts cur c (M(c := L @ rs)) w \<and> distinct (map nr_Dst (L @ rs))) (\<lambda>_ _. True)"
proof -
  let ?P = "\<lambda>new w. netAt rts cur c (M(c := L @ new)) w \<and> distinct (map nr_Dst (L @ new))"
  have "post (?P new) (awrap (f r) (k_RouteAdd K r)) (\<lambda>_. ?P (new @ [r])) (\<lambda>_ _. True)" for new r
    by (rule post_awrap, rule post_conj, rule post_weaken[OF kernel_routesD(1)[OF K, unfolded adds_route_def, rule_format, of c "M(c := L @ new)" r]])
       (auto simp: netAt_def)
  then have "post (?P []) (afor rs (\<lambda>r. awrap (f r) (k_RouteAdd K r))) (\<lambda>_. ?P rs) (\<lambda>_ _. True)" by (rule post_afor)
  then show ?thesis by simp
qed

lemma awrap_alift_Ok: "abind (awrap f (alift (Ok x))) g = g x"
  by (simp add: alift_def awrap_def acase_def abind_def aret_def)

definition gatewayTable :: "nlLink \<Rightarrow> IPConfig list \<Rightarrow> nlRoute list" where
  "gatewayTable contVeth ips = concat (map (\<lambda>ipc. gatewayRoutes contVeth ipc defaultNet) ips)"

lemma addGatewayRoutes_effect:
  assumes K: "kernel_routes K V I rts cur home"
  shows "post (netAt rts cur c (M(c := []))) (addGatewayRoutes K V contVeth ips)
     (\<lambda>_ w. netAt rts cur c (M(c := gatewayTable contVeth ips)) w \<and> distinct (map nr_Dst (gatewayTable contVeth ips))) (\<lambda>_ _. True)"
proof -
  let ?P = "\<lambda>ips w. netAt rts cur c (M(c := gatewayTable contVeth ips)) w \<and> distinct (map nr_Dst (gatewayTable contVeth ips))"
  have snoc: "gatewayTable contVeth (ips @ [ipc]) = gatewayTable contVeth ips @ gatewayRoutes contVeth ipc defaultNet" for ips ipc
    by (simp add: gatewayTable_def)
  have "post (?P []) (addGatewayRoutes K V contVeth ips) (\<lambda>_. ?P ips) (\<lambda>_ _. True)"
    unfolding addGatewayRoutes_def ParseCIDR_default
  proof (rule post_afor)
    fix ready ipc and f g :: "string \<Rightarrow> string"
    show "post (?P ready) (abind (awrap f (alift (Ok (v4InV6Prefix @ [0, 0, 0, 0], defaultNet)))) (\<lambda>(_, defaultGwCidr).
        afor (gatewayRoutes contVeth ipc defaultGwCidr) (\<lambda>r. awrap (h r) (k_RouteAdd K r)))) (\<lambda>_. ?P (ready @ [ipc])) (\<lambda>_ _. True)" for h
      unfolding awrap_alift_Ok snoc case_prod_conv by (rule add_routes[OF K])
  qed
  then show ?thesis by (simp add: gatewayTable_def)
qed

text \<open>Only one address can have the default route.\<close>

lemma gatewayTable_distinct: "distinct (map nr_Dst (gatewayTable contVeth ips)) \<Longrightarrow> length ips \<le> 1"
proof (rule ccontr)
  assume d: "distinct (map nr_Dst (gatewayTable contVeth ips))" and "\<not> length ips \<le> 1"
  then obtain a b rest where "ips = a # b # rest" by (cases ips; cases "tl ips") auto
  with d show False by (simp add: gatewayTable_def gatewayRoutes_def Let_def)
qed

lemma gatewayTable_Interface [simp]:
  "gatewayTable contVeth (map (\<lambda>ipc. ipc\<lparr>ipc_Interface := i\<rparr>) ips) = gatewayTable contVeth ips"
  by (simp add: gatewayTable_def gatewayRoutes_def comp_def)

definition gatewayAt :: "('w \<Rightarrow> routes) \<Rightarrow> ('w \<Rightarrow> string) \<Rightarrow> string \<Rightarrow> IPConfig list \<Rightarrow> string \<Rightarrow> cniResult \<Rightarrow> 'w \<Rightarrow> bool" where
  "gatewayAt rts cur netns ips d pr w \<longleftrightarrow>
     (\<exists>contVeth M. netAt rts cur d M w \<and> M netns = gatewayTable contVeth ips) \<and> length ips \<le> 1 \<and>
     map ipc_Address (re_IPs pr) = map ipc_Address ips"

lemma container_routes_effect:
  assumes K: "kernel_routes K V I rts cur home" and q: "re_IPs q = map (\<lambda>ipc. ipc\<lparr>ipc_Interface := i\<rparr>) ips"
  shows "post (\<lambda>w. cur w = netns)
     (abind (ip_ConfigureIface I ifName q) (\<lambda>_. abind (awrap f1 (k_InterfaceByName K ifName)) (\<lambda>contVeth.
      abind (awrap f2 (v_RouteList V)) (\<lambda>routes. abind (afor routes (\<lambda>route. awrap (f3 route) (v_RouteDel V route))) (\<lambda>_.
      abind (addGatewayRoutes K V contVeth (re_IPs q)) (\<lambda>_.
      abind (afor (re_IPs q) (\<lambda>ipc. if ipc_Version ipc = ''4'' then aignore (k_Arp K (IPNet_IP (ipc_Address ipc)) contVeth) else aret ())) (\<lambda>_.
      aret (h, c, q))))))))
     (\<lambda>(_, _, pr'). gatewayAt rts cur netns ips netns pr') (\<lambda>_ _. True)"
proof -
  let ?Q = "\<lambda>(_, _, pr'). gatewayAt rts cur netns ips netns pr'" and ?T = "\<lambda>_ _. True"
  have fin: "post (\<lambda>w. netAt rts cur netns (M(netns := gatewayTable contVeth ips)) w \<and> distinct (map nr_Dst (gatewayTable contVeth ips)))
      (abind (afor (re_IPs q) (\<lambda>ipc. if ipc_Version ipc = ''4'' then aignore (k_Arp K (IPNet_IP (ipc_Address ipc)) contVeth) else aret ())) (\<lambda>_.
      aret (h, c, q))) ?Q ?T" for contVeth M
    by (rule post_conj, rule post_abind[OF stays_ok], intro stays_intros kernel_routesD(8)[OF K], rule post_leaf)
       (auto simp: gatewayAt_def q comp_def dest: gatewayTable_distinct intro!: exI[of _ contVeth] exI[of _ "M(netns := gatewayTable contVeth ips)"])
  have tables: "post (netAt rts cur netns M) (abind (awrap f2 (v_RouteList V)) (\<lambda>routes. abind (afor routes (\<lambda>route. awrap (f3 route) (v_RouteDel V route))) (\<lambda>_.
      abind (addGatewayRoutes K V contVeth (re_IPs q)) (\<lambda>_.
      abind (afor (re_IPs q) (\<lambda>ipc. if ipc_Version ipc = ''4'' then aignore (k_Arp K (IPNet_IP (ipc_Address ipc)) contVeth) else aret ())) (\<lambda>_.
      aret (h, c, q)))))) ?Q ?T" for contVeth M
    apply (rule post_abind[OF post_awrap[OF post_ok[OF kernel_routesD(3)[OF K]]]])
    apply (rule post_conj, simp only:)
    apply (rule post_abind[OF delete_all_routes[OF K]])
    apply (rule post_abind[OF addGatewayRoutes_effect[OF K]])
    using fin by (simp add: q)
  show ?thesis
    by (rule post_abind[OF stays_ok[OF kernel_routes_stay(2)[OF K]]], rule post_from_cur,
        rule post_abind[OF post_awrap[OF stays_ok[OF kernel_routesD(7)[OF K]]]], rule tables)
qed

lemma setupContainerVeth_effect:
  assumes K: "kernel_routes K V I rts cur home"
  shows "post (\<lambda>w. cur w = home) (vr_setupContainerVeth K V I netns ifName mtu pr)
     (\<lambda>(_, _, pr'). gatewayAt rts cur netns (re_IPs pr) home pr') (\<lambda>_ _. True)"
proof -
  have ret: "post (case x of (_, _, pr') \<Rightarrow> gatewayAt rts cur netns (re_IPs pr) netns pr') (aignore (k_nsBack K))
      (\<lambda>_. case x of (_, _, pr') \<Rightarrow> gatewayAt rts cur netns (re_IPs pr) home pr')
      (\<lambda>_. case x of (_, _, pr') \<Rightarrow> gatewayAt rts cur netns (re_IPs pr) home pr')" for x :: "Interface \<times> Interface \<times> cniResult"
    unfolding gatewayAt_def split_beta
    by (rule post_aignore, intro post_conj post_ex, rule post_weaken[OF kernel_routesD(5)[OF K]]) blast+
  have enter: "post (\<lambda>w. cur w = home) (k_nsSet K netns) (\<lambda>_ w. cur w = netns) (\<lambda>_ _. True)"
    by (rule post_from_cur, rule post_weaken[OF kernel_routesD(4)[OF K]]) (auto simp: netAt_def)
  show ?thesis unfolding vr_setupContainerVeth_def nsDo_def Let_def
    apply (rule post_abind[OF post_awrap[OF enter]])
    apply (rule post_adefer[OF _ ret post_aignore[OF post_any]])
    apply (rule post_abind[OF stays_ok[OF kernel_routes_stay(3)[OF K]]])
    subgoal for _ x by (cases x) (simp only: prod.case, rule container_routes_effect[OF K, where i = "Some 1"], simp)
    done
qed

text \<open>The routes of the node to the container's addresses.\<close>

lemma setupHostVeth_effect:
  assumes K: "kernel_routes K V I rts cur home"
  shows "post (netAt rts cur c M) (vr_setupHostVeth K vethName res)
     (\<lambda>_ w. \<exists>L. netAt rts cur c (M(c := L)) w \<and> (\<forall>ipc\<in>set (re_IPs res). Some (hostNet (IPNet_IP (ipc_Address ipc))) \<in> nr_Dst ` set L)) (\<lambda>_ _. True)"
proof -
  let ?d = "\<lambda>ipc :: IPConfig. hostNet (IPNet_IP (ipc_Address ipc))"
  let ?P = "\<lambda>(ips :: IPConfig list) w. \<exists>L. netAt rts cur c (M(c := L)) w \<and> (\<forall>ipc\<in>set ips. Some (?d ipc) \<in> nr_Dst ` set L)"
  have "post (?P ips) (acase (AddRoute K (?d ipc) [] veth) aret (\<lambda>e. if \<not> IsExist e then aerr (f e) else aret ()))
      (\<lambda>_. ?P (ips @ [ipc])) (\<lambda>_ _. True)" for ips ipc veth f
  proof (intro post_ex post_conj)
    fix L :: "nlRoute list" assume L: "\<forall>ipc\<in>set ips. Some (?d ipc) \<in> nr_Dst ` set L"
    let ?r = "emptyRoute\<lparr>nr_LinkIndex := lk_Index veth, nr_Scope := SCOPE_UNIVERSE, nr_Dst := Some (?d ipc), nr_Gw := []\<rparr>"
    have a: "post (netAt rts cur c (M(c := L))) (AddRoute K (?d ipc) [] veth) (\<lambda>_. ?P (ips @ [ipc]))
        (\<lambda>e w. IsExist e \<longrightarrow> ?P (ips @ [ipc]) w)"
    proof (rule post_weaken[OF kernel_routesD(1)[OF K, unfolded adds_route_def, rule_format, of c "M(c := L)" ?r, folded AddRoute_def]])
      show "?P (ips @ [ipc]) w" if "netAt rts cur c ((M(c := L))(c := (M(c := L)) c @ [?r])) w \<and> nr_Dst ?r \<notin> nr_Dst ` set ((M(c := L)) c)" for w
        using that L by (intro exI[of _ "L @ [?r]"]) auto
      show "IsExist e \<longrightarrow> ?P (ips @ [ipc]) w" if "netAt rts cur c (M(c := L)) w \<and> (IsExist e \<longrightarrow> nr_Dst ?r \<in> nr_Dst ` set ((M(c := L)) c))" for e w
        using that L by (intro impI exI[of _ L]) auto
    qed auto
    show "post (netAt rts cur c (M(c := L))) (acase (AddRoute K (?d ipc) [] veth) aret (\<lambda>e. if \<not> IsExist e then aerr (f e) else aret ()))
        (\<lambda>_. ?P (ips @ [ipc])) (\<lambda>_ _. True)"
      by (rule post_acase[OF a]) (auto intro!: post_leaf)
  qed
  note step = this
  have "post (?P []) (afor (re_IPs res) (\<lambda>ipc. acase (AddRoute K (?d ipc) [] veth) aret (\<lambda>e. if \<not> IsExist e then aerr (f e) else aret ())))
      (\<lambda>_. ?P (re_IPs res)) (\<lambda>_ _. True)" for veth f by (rule post_afor[where P = ?P], rule step)
  note loop = this
  have start: "netAt rts cur c M w \<Longrightarrow> ?P [] w" for w by (auto intro: exI[of _ "M c"])
  show ?thesis unfolding vr_setupHostVeth_def
    by (rule post_abind[OF post_awrap[OF stays_ok[OF kernel_routesD(6)[OF K]]]], rule post_weaken[OF loop start]) assumption+
qed

text \<open>What a successful ADD makes of the routes.\<close>

definition routedBy :: "'w ipamops \<Rightarrow> ('w \<Rightarrow> routes) \<Rightarrow> string \<Rightarrow> string \<Rightarrow> 'w \<Rightarrow> bool" where
  "routedBy I rts netns home w \<longleftrightarrow> (\<exists>r res ipc contVeth. ip_NewResult I r = Ok res \<and> re_IPs res = [ipc] \<and>
     rts w netns = gatewayRoutes contVeth ipc defaultNet \<and> Some (hostNet (IPNet_IP (ipc_Address ipc))) \<in> nr_Dst ` set (rts w home))"

lemma host_side_effect:
  assumes K: "kernel_routes K V I rts cur home" and ns: "netns \<noteq> home" and r: "ip_NewResult I r = Ok res" "re_IPs res \<noteq> []"
  shows "post (gatewayAt rts cur netns (re_IPs res) home pr)
     (abind (vr_setupHostVeth K n pr) (\<lambda>_. abind (if b then afor (re_IPs pr) (\<lambda>ipc. k_SetupIPMasq K (ipc_Address ipc) ch co) else aret ()) (\<lambda>_.
        alift out))) (\<lambda>_. routedBy I rts netns home) (\<lambda>_ _. True)"
  unfolding gatewayAt_def
proof (intro post_conj post_ex)
  let ?masq = "if b then afor (re_IPs pr) (\<lambda>ipc. k_SetupIPMasq K (ipc_Address ipc) ch co) else aret ()"
  let ?hit = "\<lambda>L. \<forall>ipc\<in>set (re_IPs pr). Some (hostNet (IPNet_IP (ipc_Address ipc))) \<in> nr_Dst ` set L"
  fix contVeth M
  assume len: "length (re_IPs res) \<le> 1 \<and> map ipc_Address (re_IPs pr) = map ipc_Address (re_IPs res)"
    and M: "M netns = gatewayTable contVeth (re_IPs res)"
  obtain ipc where ipc: "re_IPs res = [ipc]" using r(2) len by (cases "re_IPs res") auto
  then obtain ipc' where ipc': "re_IPs pr = [ipc']" "ipc_Address ipc' = ipc_Address ipc" using len by auto
  have Q: "routedBy I rts netns home w" if "netAt rts cur home (M(home := L)) w" "?hit L" for L w
    unfolding routedBy_def using that M ipc ipc' r(1) ns
    by (intro exI[of _ r] exI[of _ res] exI[of _ ipc] exI[of _ contVeth]) (auto simp: netAt_def gatewayTable_def)
  have "post (\<lambda>w. netAt rts cur home (M(home := L)) w \<and> ?hit L) (abind ?masq (\<lambda>_. alift out)) (\<lambda>_. routedBy I rts netns home) (\<lambda>_ _. True)" for L
    by (rule post_conj, rule post_abind[OF stays_ok], intro stays_intros kernel_routesD(9)[OF K], rule post_leaf(4)[OF Q]) auto
  then show "post (netAt rts cur home M) (abind (vr_setupHostVeth K n pr) (\<lambda>_. abind ?masq (\<lambda>_. alift out))) (\<lambda>_. routedBy I rts netns home) (\<lambda>_ _. True)"
    by (intro post_abind[OF setupHostVeth_effect[OF K]] post_ex)
qed

text \<open>C18. When ADD of \<^verbatim>\<open>veth-route\<close> succeeds, the IPAM plugin gave exactly one address, the routes of the
  container are exactly the link route to 169.254.1.1 and the default route through it, whatever routes there were
  before, and the node has a route to the address. A result with two addresses can never be set up, because each
  address would need a default route of its own.\<close>

theorem ADD_sends_all_to_gateway:
  assumes K: "kernel_routes K V I rts cur home" and w: "cur w = home" and ns: "ca_Netns args \<noteq> home"
    and add: "vethroute_cmdAdd K V I unmarshal printResult args w = (Ok out, w')"
  shows "\<exists>r res ipc contVeth. ip_NewResult I r = Ok res \<and> re_IPs res = [ipc] \<and>
     rts w' (ca_Netns args) = gatewayRoutes contVeth ipc defaultNet \<and>
     Some (hostNet (IPNet_IP (ipc_Address ipc))) \<in> nr_Dst ` set (rts w' home)"
proof -
  let ?home = "\<lambda>w. cur w = home" and ?Q = "\<lambda>_. routedBy I rts (ca_Netns args) home" and ?T = "\<lambda>_ _. True"
  note stay = stays_ok[OF kernel_routes_stay(1)[OF K]] stays_ok[OF kernel_routes_stay(4)[OF K]]
  have fwd: "stays ?home (EnableForward K ips)" for ips
    unfolding EnableForward_def by (rule forwardLoop_stays[OF kernel_routes_stay(5,6)[OF K]])
  have "post ?home (vethroute_cmdAdd K V I unmarshal printResult args) ?Q ?T"
    unfolding vethroute_cmdAdd_def
    apply (rule post_abind[OF stays_ok], intro stays_intros)
    apply (rule post_abind[OF stay(1)], rule post_abind[OF post_ok[OF post_alift]], rule post_conj, rule post_if)
     apply (rule post_leaf, simp)
    apply (rule post_abind[OF post_awrap[OF stays_ok[OF fwd]]])
    apply (rule post_abind[OF post_awrap[OF stay(2)]])
    apply (rule post_abind[OF stays_ok[OF setupDummy_stays[OF K]]])
    apply (rule post_abind[OF setupContainerVeth_effect[OF K]])
    subgoal for _ _ _ _ _ _ x by (cases x) (simp only: prod.case, rule host_side_effect[OF K ns], assumption, simp)
    done
  from post_Ok[OF this w add] show ?thesis by (simp add: routedBy_def)
qed

section \<open>The address of the dummy interface\<close>

text \<open>
  \<open>adr w i\<close> are the addresses of the interface with index \<open>i\<close>. What netlink documents: listing changes nothing,
  \<^verbatim>\<open>ENOENT\<close> stands for no addresses, adding fails with \<^verbatim>\<open>EEXIST\<close> when the address is there, and a
  failed call changes nothing.
\<close>

definition kernel_addrs :: "'w routeops \<Rightarrow> ('w \<Rightarrow> int \<Rightarrow> ipnet list) \<Rightarrow> bool" where
  "kernel_addrs V adr \<longleftrightarrow> (\<forall>l n h A.
     post (\<lambda>w. adr w = A) (v_AddrList V l FAMILY_ALL) (\<lambda>r w. adr w = A \<and> r = A (lk_Index l))
       (\<lambda>e w. adr w = A \<and> (e = ENOENT \<longrightarrow> A (lk_Index l) = [])) \<and>
     post (\<lambda>w. adr w = A) (v_AddrAdd V l n) (\<lambda>_ w. adr w = A(lk_Index l := A (lk_Index l) @ [n]))
       (\<lambda>e w. adr w = A \<and> (e = EEXIST \<longrightarrow> netString n \<in> netString ` set (A (lk_Index l)))) \<and>
     post (\<lambda>w. adr w = A) (v_AddrDel V l n) (\<lambda>_ w. adr w = A(lk_Index l := filter (\<lambda>x. x \<noteq> n) (A (lk_Index l)))) (\<lambda>_ w. adr w = A) \<and>
     stays (\<lambda>w. adr w = A) (v_SetHardwareAddr V l h))"

lemma kernel_addrsD:
  assumes "kernel_addrs V adr"
  shows "post (\<lambda>w. adr w = A) (v_AddrList V l FAMILY_ALL) (\<lambda>r w. adr w = A \<and> r = A (lk_Index l))
       (\<lambda>e w. adr w = A \<and> (e = ENOENT \<longrightarrow> A (lk_Index l) = []))"
    "post (\<lambda>w. adr w = A) (v_AddrAdd V l n) (\<lambda>_ w. adr w = A(lk_Index l := A (lk_Index l) @ [n]))
       (\<lambda>e w. adr w = A \<and> (e = EEXIST \<longrightarrow> netString n \<in> netString ` set (A (lk_Index l))))"
    "post (\<lambda>w. adr w = A) (v_AddrDel V l n) (\<lambda>_ w. adr w = A(lk_Index l := filter (\<lambda>x. x \<noteq> n) (A (lk_Index l)))) (\<lambda>_ w. adr w = A)"
    "stays (\<lambda>w. adr w = A) (v_SetHardwareAddr V l h)"
  using assms unfolding kernel_addrs_def by simp_all

definition overlaps :: "ipnet \<Rightarrow> ipnet \<Rightarrow> bool" where
  "overlaps a n \<longleftrightarrow> netContains a (IPNet_IP n) \<or> netContains n (IPNet_IP a)"

text \<open>\<open>D\<close> are the addresses the loop removed.\<close>

definition looped :: "('w \<Rightarrow> int \<Rightarrow> ipnet list) \<Rightarrow> (int \<Rightarrow> ipnet list) \<Rightarrow> int \<Rightarrow> ipnet \<Rightarrow> bool \<Rightarrow> ipnet list \<Rightarrow> bool \<Rightarrow> 'w \<Rightarrow> bool" where
  "looped adr A i n force as found w \<longleftrightarrow> (\<exists>D. adr w = A(i := filter (\<lambda>x. x \<notin> D) (A i)) \<and>
     D \<subseteq> {a \<in> set as. force \<and> overlaps a n \<and> netString a \<noteq> netString n} \<and>
     (if found then netString n \<in> netString ` set as
      else netString n \<notin> netString ` set as \<and> {a \<in> set as. overlaps a n} \<subseteq> D))"

lemma addrLoop_effect:
  assumes V: "kernel_addrs V adr"
  shows "post (\<lambda>w. adr w = A) (addrLoop V d FAMILY_ALL n force as) (looped adr A (lk_Index d) n force as)
     (\<lambda>_ w. force \<or> adr w = A)"
proof (induction as arbitrary: A)
  case Nil
  show ?case by (auto intro!: post_leaf simp: looped_def)
next
  case (Cons a as)
  let ?i = "lk_Index d"
  let ?A = "A(?i := filter (\<lambda>x. x \<noteq> a) (A ?i))"
  have f: "FAMILY_ALL \<noteq> FAMILY_V4" by (simp add: FAMILY_ALL_def FAMILY_V4_def)
  consider "netString a = netString n" | "netString a \<noteq> netString n" "overlaps a n" "force"
    | "netString a \<noteq> netString n" "overlaps a n" "\<not> force" | "netString a \<noteq> netString n" "\<not> overlaps a n" by blast
  then show ?case
  proof cases
    case 1
    then show ?thesis by (auto intro!: post_leaf exI[of _ "{}"] simp: looped_def)
  next
    case 2
    have step: "looped adr A ?i n force (a # as) found w" if "looped adr ?A ?i n force as found w" for found w
    proof -
      from that obtain D where D: "adr w = ?A(?i := filter (\<lambda>x. x \<notin> D) (?A ?i))"
        "D \<subseteq> {a \<in> set as. force \<and> overlaps a n \<and> netString a \<noteq> netString n}"
        "if found then netString n \<in> netString ` set as else netString n \<notin> netString ` set as \<and> {a \<in> set as. overlaps a n} \<subseteq> D"
        unfolding looped_def by blast
      have "adr w = A(?i := filter (\<lambda>x. x \<notin> insert a D) (A ?i))" using D(1) by (simp add: fun_eq_iff conj_commute)
      then show ?thesis unfolding looped_def using 2 D(2,3) by (intro exI[of _ "insert a D"]) (auto split: if_splits)
    qed
    have del: "post (\<lambda>w. adr w = A) (deleteAddr V d a) (\<lambda>_ w. adr w = ?A) (\<lambda>_ _. True)"
      unfolding deleteAddr_def by (rule post_awrap, rule post_ok[OF kernel_addrsD(3)[OF V]])
    have "post (\<lambda>w. adr w = A) (abind (deleteAddr V d a) (\<lambda>_. addrLoop V d FAMILY_ALL n force as))
        (looped adr A ?i n force (a # as)) (\<lambda>_ _. True)"
      by (rule post_abind[OF del], rule post_weaken[OF Cons.IH]) (assumption, erule step, simp)
    then show ?thesis using 2 f by (simp add: overlaps_def)
  next
    case 3
    then show ?thesis using f by (auto intro!: post_leaf simp: overlaps_def)
  next
    case 4
    have "looped adr A ?i n force (a # as) found w" if "looped adr A ?i n force as found w" for found w
      using that 4 unfolding looped_def by (fastforce split: if_splits)
    then show ?thesis using 4 f by (auto simp: overlaps_def intro!: post_weaken[OF Cons.IH])
  qed
qed

text \<open>The list of the addresses, where \<^verbatim>\<open>ENOENT\<close> means none.\<close>

lemma listAddrs_effect:
  assumes V: "kernel_addrs V adr"
  shows "post (\<lambda>w. adr w = A) (acase (v_AddrList V d FAMILY_ALL) aret (\<lambda>e. if e \<noteq> ENOENT then aerr (f e) else aret []))
     (\<lambda>r w. adr w = A \<and> r = A (lk_Index d)) (\<lambda>_ w. adr w = A)"
  by (rule post_acase[OF kernel_addrsD(1)[OF V]]) (auto intro!: post_leaf)

lemma addAddr_effect:
  assumes V: "kernel_addrs V adr" and new: "netString n \<notin> netString ` set (B (lk_Index d))"
  shows "post (\<lambda>w. adr w = B) (acase (v_AddrAdd V d n) aret (\<lambda>e. if e \<noteq> EEXIST then aerr (f e) else aret ()))
     (\<lambda>_ w. adr w = B(lk_Index d := B (lk_Index d) @ [n])) (\<lambda>_ _. True)"
  by (rule post_acase[OF kernel_addrsD(2)[OF V]]) (use new in \<open>auto intro!: post_leaf\<close>)

definition ensured :: "(int \<Rightarrow> ipnet list) \<Rightarrow> int \<Rightarrow> ipnet \<Rightarrow> bool \<Rightarrow> (int \<Rightarrow> ipnet list) \<Rightarrow> bool" where
  "ensured A i n force B \<longleftrightarrow> netString n \<in> netString ` set (B i) \<and> (\<forall>j. j \<noteq> i \<longrightarrow> B j = A j) \<and> set (B i) \<subseteq> insert n (set (A i)) \<and>
     (\<forall>a \<in> set (A i) - set (B i). force \<and> overlaps a n \<and> netString a \<noteq> netString n) \<and>
     (netString n \<notin> netString ` set (A i) \<longrightarrow> (\<forall>a \<in> set (B i). overlaps a n \<longrightarrow> a = n))"

lemma looped_ensured:
  assumes "looped adr A i n force (A i) True w"
  shows "ensured A i n force (adr w)"
proof -
  from assms obtain D where B: "adr w = A(i := filter (\<lambda>x. x \<notin> D) (A i))"
    and D: "D \<subseteq> {a \<in> set (A i). force \<and> overlaps a n \<and> netString a \<noteq> netString n}" and hit: "netString n \<in> netString ` set (A i)"
    unfolding looped_def by auto
  obtain a where a: "a \<in> set (A i)" "netString a = netString n" using hit by auto
  then have "a \<notin> D" using D by auto
  with a have "netString n \<in> netString ` set (adr w i)" unfolding B by (intro image_eqI[of _ _ a]) simp_all
  then show ?thesis unfolding ensured_def B using D hit by auto
qed

lemma added_ensured:
  assumes "looped adr A i n force (A i) False w"
  shows "netString n \<notin> netString ` set (adr w i) \<and> ensured A i n force ((adr w)(i := adr w i @ [n]))"
  using assms unfolding looped_def ensured_def by auto

lemma ensureAddr_effect:
  assumes V: "kernel_addrs V adr"
  shows "post (\<lambda>w. adr w = A) (ensureAddr V d FAMILY_ALL n force) (\<lambda>_ w. ensured A (lk_Index d) n force (adr w)) (\<lambda>_ _. True)"
proof -
  let ?i = "lk_Index d" and ?T = "\<lambda>_ _. True"
  have hw: "post (\<lambda>w. adr w = B) (awrap g (v_SetHardwareAddr V d h)) (\<lambda>_ w. adr w = B) ?T" for B g h
    by (rule post_awrap, rule stays_ok[OF kernel_addrsD(4)[OF V]])
  have add: "post (looped adr A ?i n force (A ?i) False)
      (abind (acase (v_AddrAdd V d n) aret (\<lambda>e. if e \<noteq> EEXIST then aerr (f e) else aret ())) (\<lambda>_. awrap g (v_SetHardwareAddr V d h)))
      (\<lambda>_ w. ensured A ?i n force (adr w)) ?T" for f g h
  proof (rule postI)
    fix w assume l: "looped adr A ?i n force (A ?i) False w"
    note e = added_ensured[OF l]
    have "post (\<lambda>v. adr v = adr w) (abind (acase (v_AddrAdd V d n) aret (\<lambda>e. if e \<noteq> EEXIST then aerr (f e) else aret ())) (\<lambda>_. awrap g (v_SetHardwareAddr V d h)))
        (\<lambda>_ v. adr v = (adr w)(?i := adr w ?i @ [n])) ?T"
      by (rule post_abind[OF addAddr_effect[OF V, where B = "adr w" and d = d, OF conjunct1[OF e]] hw])
    from this refl show "case abind (acase (v_AddrAdd V d n) aret (\<lambda>e. if e \<noteq> EEXIST then aerr (f e) else aret ())) (\<lambda>_. awrap g (v_SetHardwareAddr V d h)) w of
        (Ok x, w') \<Rightarrow> ensured A ?i n force (adr w') | (Err e, w') \<Rightarrow> True | (Panic, w') \<Rightarrow> True"
      by (cases rule: postE) (use e in \<open>simp_all\<close>)
  qed
  show ?thesis unfolding ensureAddr_def
    apply (rule post_abind[OF post_ok[OF listAddrs_effect[OF V]]])
    apply (rule post_conj, simp only:)
    apply (rule post_abind[OF post_ok[OF addrLoop_effect[OF V]]])
    subgoal for _ found by (cases found) (auto intro!: post_leaf looped_ensured add)
    done
qed

lemma ensureAddr_again:
  assumes V: "kernel_addrs V adr" and hit: "netString n \<in> netString ` set (A (lk_Index d))"
  shows "stays (\<lambda>w. adr w = A) (ensureAddr V d FAMILY_ALL n False)"
proof -
  have l: "found \<and> adr w = A" if "looped adr A (lk_Index d) n False (A (lk_Index d)) found w" for found w
    using that hit by (auto simp: looped_def split: if_splits)
  show ?thesis unfolding ensureAddr_def stays_def
    apply (rule post_abind[OF listAddrs_effect[OF V]])
    apply (rule post_conj, simp only:)
    apply (rule post_abind[OF post_weaken[OF addrLoop_effect[OF V], where Q = "\<lambda>found w. adr w = A \<and> found"]])
       apply assumption
    subgoal for _ found w using l by blast
     apply simp
    apply (rule post_conj)
    apply (auto intro: post_leaf)
    done
qed


section \<open>A small kernel\<close>

record demoroutes =
  dr_tables :: "(string \<times> nlRoute list) list"
  dr_cur :: string
  dr_addrs :: "(int \<times> ipnet list) list"

definition dr_rts :: "demoroutes \<Rightarrow> routes" where
  "dr_rts w n = (case map_of (dr_tables w) n of Some L \<Rightarrow> L | None \<Rightarrow> [])"

definition dr_adr :: "demoroutes \<Rightarrow> int \<Rightarrow> ipnet list" where
  "dr_adr w i = (case map_of (dr_addrs w) i of Some L \<Rightarrow> L | None \<Rightarrow> [])"

definition dr_setRoutes :: "nlRoute list \<Rightarrow> demoroutes \<Rightarrow> demoroutes" where
  "dr_setRoutes L w = w\<lparr>dr_tables := AList.update (dr_cur w) L (dr_tables w)\<rparr>"

definition dr_setAddrs :: "int \<Rightarrow> ipnet list \<Rightarrow> demoroutes \<Rightarrow> demoroutes" where
  "dr_setAddrs i L w = w\<lparr>dr_addrs := AList.update i L (dr_addrs w)\<rparr>"

lemma dr_sets [simp]:
  "dr_rts (dr_setRoutes L w) = (dr_rts w)(dr_cur w := L)" "dr_cur (dr_setRoutes L w) = dr_cur w"
  "dr_adr (dr_setAddrs i B w) = (dr_adr w)(i := B)" "dr_cur (dr_setAddrs i B w) = dr_cur w"
  "dr_rts (w\<lparr>dr_cur := n\<rparr>) = dr_rts w"
  by (auto simp: dr_rts_def dr_setRoutes_def dr_adr_def dr_setAddrs_def fun_eq_iff update_conv')

definition dr_kern :: "demoroutes kern" where
  "dr_kern = \<lparr>k_LinkByName = (\<lambda>n. aret (demo_link n)), k_LinkByIndex = (\<lambda>i. aret (demo_link ''veth1'')),
     k_LinkDel = (\<lambda>_. aret ()), k_AddrList = (\<lambda>_. aret []), k_InterfaceByName = (\<lambda>n. aret (demo_link n)), k_VethPeerIndex = (\<lambda>_. aret 7),
     k_SetupVeth = (\<lambda>n m. aret (demo_link ''veth1'', demo_link n)),
     k_RouteAdd = (\<lambda>r w. if nr_Dst r \<in> nr_Dst ` set (dr_rts w (dr_cur w)) then (Err EEXIST, w)
        else (Ok (), dr_setRoutes (dr_rts w (dr_cur w) @ [r]) w)),
     k_RuleList = (\<lambda>f. aret []), k_RuleAdd = (\<lambda>r. aret ()), k_RuleDel = (\<lambda>_. aret ()),
     k_GetNS = (\<lambda>_. aret ()), k_nsSet = (\<lambda>ns w. (Ok (), w\<lparr>dr_cur := ns\<rparr>)), k_nsBack = (\<lambda>w. (Ok (), w\<lparr>dr_cur := ''host''\<rparr>)), k_iptables = aret (),
     k_AppendUnique = (\<lambda>_ _ _. aret ()), k_Sysctl = (\<lambda>_ _. aret ()), k_EnableIP4Forward = aret (), k_EnableIP6Forward = aret (),
     k_SetupIPMasq = (\<lambda>_ _ _. aret ()), k_TeardownIPMasq = (\<lambda>_ _ _. aret ()), k_Arp = (\<lambda>_ _. aret ()), k_Intn = (\<lambda>_. aret 0),
     k_FormatChainName = (\<lambda>n i. n), k_FormatComment = (\<lambda>n i. n), k_showLink = lk_Name, k_showRule = (\<lambda>_. ''rule'')\<rparr>"

definition dr_ops :: "demoroutes routeops" where
  "dr_ops = \<lparr>v_RouteList = (\<lambda>w. (Ok (dr_rts w (dr_cur w)), w)),
     v_RouteDel = (\<lambda>r w. (Ok (), dr_setRoutes (filter (\<lambda>x. x \<noteq> r) (dr_rts w (dr_cur w))) w)),
     v_LinkAddDummy = (\<lambda>_. aerr EEXIST), v_isDummy = (\<lambda>_. True), v_LinkSetUp = (\<lambda>_. aret ()), v_SetPromiscOn = (\<lambda>_. aret ()),
     v_AddrList = (\<lambda>l f w. (Ok (dr_adr w (lk_Index l)), w)),
     v_AddrAdd = (\<lambda>l n w. if n \<in> set (dr_adr w (lk_Index l)) then (Err EEXIST, w) else (Ok (), dr_setAddrs (lk_Index l) (dr_adr w (lk_Index l) @ [n]) w)),
     v_AddrDel = (\<lambda>l n w. (Ok (), dr_setAddrs (lk_Index l) (filter (\<lambda>x. x \<noteq> n) (dr_adr w (lk_Index l))) w)),
     v_SetHardwareAddr = (\<lambda>_ _. aret ()), v_showRoute = (\<lambda>_. ''route'')\<rparr>"

definition dr_ipam :: "demoroutes ipamops" where
  "dr_ipam = \<lparr>ip_ExecAdd = (\<lambda>t d. aret ''result''), ip_ExecDel = (\<lambda>t d. aret ()),
     ip_NewResult = (\<lambda>_. Ok \<lparr>re_Interfaces = [], re_IPs = [demo_ipc], re_Routes = [], re_DNS = noDNS\<rparr>), ip_ConfigureIface = (\<lambda>_ _. aret ())\<rparr>"

lemma dr_routes: "kernel_routes dr_kern dr_ops dr_ipam dr_rts dr_cur ''host''"
proof -
  have a: "adds_route dr_rts dr_cur (k_RouteAdd dr_kern)"
    by (auto simp: adds_route_def post_def netAt_def dr_kern_def)
  have r: "removes_route dr_rts dr_cur (v_RouteDel dr_ops)"
    by (auto simp: removes_route_def post_def netAt_def dr_ops_def)
  have s: "stays J (aret x)" "stays J (aerr e)" "stays J (v_AddrList dr_ops l f)" for J :: "demoroutes \<Rightarrow> bool" and x :: 'a and e l f
    by (simp_all add: stays_intros) (simp add: stays_def post_def dr_ops_def)
  have t: "stays (\<lambda>w. dr_cur w = c) (v_AddrAdd dr_ops l n)" "stays (\<lambda>w. dr_cur w = c) (v_AddrDel dr_ops l n)" for c l n
    by (simp_all add: stays_def post_def dr_ops_def)
  show ?thesis unfolding kernel_routes_def
    by (intro conjI allI a r s t) (auto simp: post_def netAt_def dr_kern_def dr_ops_def dr_ipam_def intro: stays_intros)
qed

lemma dr_address: "kernel_addrs dr_ops dr_adr"
  by (auto simp: kernel_addrs_def dr_ops_def post_def EEXIST_def ENOENT_def intro: stays_intros)

definition dr_start :: demoroutes where
  "dr_start = \<lparr>dr_tables = [(''/ns'', [emptyRoute\<lparr>nr_Dst := Some defaultNet, nr_Gw := [10, 0, 0, 1]\<rparr>])], dr_cur = ''host'', dr_addrs = []\<rparr>"

definition dr_conf :: VRConf where
  "dr_conf = \<lparr>vr_Name = ''net'', vr_CNIVersion = ''0.3.1'', vr_IPAMType = ''tcnp-ipam'', vr_DNS = noDNS, vr_IPMasq = True, vr_MTU = 1500\<rparr>"

theorem ADD_sends_all_to_gateway_witness:
  "\<exists>out w' contVeth. vethroute_cmdAdd dr_kern dr_ops dr_ipam (\<lambda>_. Ok dr_conf) (\<lambda>r v. Ok v) demo_args dr_start = (Ok out, w') \<and>
     dr_rts w' ''/ns'' = gatewayRoutes contVeth demo_ipc defaultNet"
proof -
  let ?add = "vethroute_cmdAdd dr_kern dr_ops dr_ipam (\<lambda>_. Ok dr_conf) (\<lambda>r v. Ok v) demo_args dr_start"
  have "is_Ok (fst ?add)" by code_simp
  then obtain out w' where a: "?add = (Ok out, w')" by (cases ?add) (auto simp: is_Ok_iff)
  have c: "dr_cur dr_start = ''host''" and n: "ca_Netns demo_args \<noteq> ''host''" and ns: "ca_Netns demo_args = ''/ns''"
    by (simp_all add: dr_start_def demo_args_def)
  from ADD_sends_all_to_gateway[OF dr_routes c n a, unfolded ns] a show ?thesis by (auto simp: dr_ipam_def)
qed


end
