(* ===== verification/IPVlanProps.thy ===== *)
theory IPVlanProps
  imports IPVlan VethRouteProps
begin

text \<open>
  The properties of \<^verbatim>\<open>cmd/ipvlan\<close>: a configuration that loads names its master, and DEL undoes ADD.
\<close>

section \<open>The configuration\<close>

lemma rwrap_eq_Ok [simp]: "rwrap f r = Ok x \<longleftrightarrow> r = Ok x"
  by (cases r) (simp_all add: rwrap_def)

lemma rwrap_eq_Panic [simp]: "rwrap f r = Panic \<longleftrightarrow> r = Panic"
  by (cases r) (simp_all add: rwrap_def)

lemma prevResultOf_keeps: "prevResultOf C n = Ok n' \<Longrightarrow> iv_Master n' = iv_Master n \<and> iv_CNIVersion n' = iv_CNIVersion n"
  by (auto simp: prevResultOf_def rbind_eq_Ok split: option.splits)

lemma chainMaster_Ok:
  assumes "chainMaster n = Ok n'"
  shows "iv_Master n' \<noteq> [] \<and> iv_CNIVersion n' = iv_CNIVersion n \<and> iv_PrevResult n' = iv_PrevResult n \<and>
    (if iv_Master n \<noteq> [] then n' = n
     else \<exists>prev i. iv_PrevResult n = Some prev \<and> re_Interfaces prev = [i] \<and> if_Name i = iv_Master n')"
proof (cases "iv_Master n = []")
  case True
  with assms obtain prev where p: "iv_PrevResult n = Some prev" "length (re_Interfaces prev) = 1" "if_Name (re_Interfaces prev ! 0) \<noteq> []"
    and n': "n' = n\<lparr>iv_Master := if_Name (re_Interfaces prev ! 0)\<rparr>"
    by (auto simp: chainMaster_def split: option.splits if_splits)
  from p(2) obtain i where "re_Interfaces prev = [i]" by (cases "re_Interfaces prev") auto
  with True p n' show ?thesis by simp
qed (use assms in \<open>simp add: chainMaster_def\<close>)

text \<open>A configuration of \<^verbatim>\<open>ipvlan\<close> that loads has a master: the one it names, or, when it names none, the single
  named interface of the previous result. Loading never panics when the decoders do not.\<close>

theorem ipvlan_conf_has_master:
  assumes n0: "iv_unmarshal C bytes = Ok n0"
  shows "case iv_loadConf C bytes of
      Ok (n, v) \<Rightarrow> iv_Master n \<noteq> [] \<and> v = iv_CNIVersion n0 \<and>
        (if iv_Master n0 \<noteq> [] then iv_Master n = iv_Master n0
         else \<exists>prev i. iv_PrevResult n = Some prev \<and> re_Interfaces prev = [i] \<and> if_Name i = iv_Master n)
    | Err _ \<Rightarrow> True
    | Panic \<Rightarrow> (\<exists>x. iv_marshal C x = Panic) \<or> (\<exists>x y. iv_newResult C x y = Panic) \<or> (\<exists>x. iv_convertResult C x = Panic)"
proof (cases "iv_loadConf C bytes")
  case (Ok nv)
  then obtain n v where nv: "nv = (n, v)" by (cases nv)
  with Ok n0 obtain n1 where 1: "prevResultOf C (n0\<lparr>iv_PrevResult := None\<rparr>) = Ok n1" and 2: "chainMaster n1 = Ok n" "v = iv_CNIVersion n"
    by (auto simp: iv_loadConf_def rbind_eq_Ok)
  from prevResultOf_keeps[OF 1] chainMaster_Ok[OF 2(1)] Ok nv 2(2) show ?thesis by (auto split: if_splits)
next
  case Panic
  have "chainMaster n \<noteq> Panic" for n by (auto simp: chainMaster_def split: option.splits)
  with Panic n0 have "prevResultOf C (n0\<lparr>iv_PrevResult := None\<rparr>) = Panic" by (auto simp: iv_loadConf_def rbind_eq_Panic)
  with Panic show ?thesis by (auto simp: prevResultOf_def rbind_eq_Panic split: option.splits)
qed simp

section \<open>ADD and DEL\<close>

text \<open>
  \<open>nms w n\<close> are the names of the interfaces in the namespace \<open>n\<close>. What netlink documents: a lookup finds a name
  of the thread's namespace, and \<^verbatim>\<open>Link not found\<close> means that there is none; a new interface and a new name must
  not be taken; a failed call changes nothing. The other calls do not create, rename or remove interfaces.
\<close>

type_synonym names = "string \<Rightarrow> string set"

definition kernel_names ::
  "'w kern \<Rightarrow> 'w ipvlanops \<Rightarrow> 'w ipamops \<Rightarrow> ('w \<Rightarrow> names) \<Rightarrow> ('w \<Rightarrow> string) \<Rightarrow> string \<Rightarrow> bool" where
  "kernel_names K N I nms cur home \<longleftrightarrow> switches K nms cur home \<and>
     (\<forall>n c M. post (netAt nms cur c M) (k_LinkByName K n) (\<lambda>l w. netAt nms cur c M w \<and> lk_Name l = n \<and> n \<in> M c)
        (\<lambda>e w. netAt nms cur c M w \<and> (e = linkGone \<longrightarrow> n \<notin> M c))) \<and>
     (\<forall>l c M. post (netAt nms cur c M) (k_LinkDel K l) (\<lambda>_. netAt nms cur c (M(c := M c - {lk_Name l}))) (\<lambda>_. netAt nms cur c M)) \<and>
     (\<forall>l n c M. post (netAt nms cur c M) (p_LinkSetName N l n)
        (\<lambda>_ w. netAt nms cur c (M(c := insert n (M c - {lk_Name l}))) w \<and> n \<notin> M c - {lk_Name l}) (\<lambda>_. netAt nms cur c M)) \<and>
     (\<forall>mtu n p ns mode c M. post (netAt nms cur c M) (p_LinkAddIPVlan N mtu n p ns mode)
        (\<lambda>_ w. netAt nms cur c (M(ns := insert n (M ns))) w \<and> n \<notin> M ns) (\<lambda>_. netAt nms cur c M)) \<and>
     (\<forall>c M p t d r. stays (netAt nms cur c M) (k_GetNS K p) \<and> stays (netAt nms cur c M) (p_RandomVethName N) \<and>
        stays (netAt nms cur c M) (ip_ExecAdd I t d) \<and> stays (netAt nms cur c M) (ip_ExecDel I t d) \<and>
        stays (netAt nms cur c M) (ip_ConfigureIface I t r))"

lemma kernel_namesD:
  assumes "kernel_names K N I nms cur home"
  shows "switches K nms cur home"
    "post (netAt nms cur c M) (k_LinkByName K n) (\<lambda>l w. netAt nms cur c M w \<and> lk_Name l = n \<and> n \<in> M c)
        (\<lambda>e w. netAt nms cur c M w \<and> (e = linkGone \<longrightarrow> n \<notin> M c))"
    "post (netAt nms cur c M) (k_LinkDel K l) (\<lambda>_. netAt nms cur c (M(c := M c - {lk_Name l}))) (\<lambda>_. netAt nms cur c M)"
    "post (netAt nms cur c M) (p_LinkSetName N l n)
        (\<lambda>_ w. netAt nms cur c (M(c := insert n (M c - {lk_Name l}))) w \<and> n \<notin> M c - {lk_Name l}) (\<lambda>_. netAt nms cur c M)"
    "post (netAt nms cur c M) (p_LinkAddIPVlan N mtu n p ns mode)
        (\<lambda>_ w. netAt nms cur c (M(ns := insert n (M ns))) w \<and> n \<notin> M ns) (\<lambda>_. netAt nms cur c M)"
    "stays (netAt nms cur c M) (k_GetNS K path)" "stays (netAt nms cur c M) (p_RandomVethName N)"
    "stays (netAt nms cur c M) (ip_ExecAdd I t d)" "stays (netAt nms cur c M) (ip_ExecDel I t d)"
    "stays (netAt nms cur c M) (ip_ConfigureIface I t r)"
  using assms unfolding kernel_names_def by simp_all

text \<open>The new interface appears under its name, which was free.\<close>

lemma createIpvlan_effect:
  assumes K: "kernel_names K N I nms cur home"
  shows "post (netAt nms cur home M) (createIpvlan K N conf ifName netns)
     (\<lambda>i w. \<exists>L. netAt nms cur home L w \<and> L = M(netns := insert ifName (M netns)) \<and> ifName \<notin> M netns) (\<lambda>_ _. True)"
proof -
  let ?T = "\<lambda>_ _. True"
  let ?R = "\<lambda>(_ :: Interface) L. L = M(netns := insert ifName (M netns)) \<and> ifName \<notin> M netns"
  have inner: "post (netAt nms cur netns (M(netns := insert tmp (M netns))))
      (abind (awrap f (RenameLink K N tmp ifName)) (\<lambda>_. abind (awrap g (k_LinkByName K ifName)) (\<lambda>l. aret (h l))))
      (\<lambda>x w. \<exists>L. netAt nms cur netns L w \<and> ?R x L) ?T" if tmp: "tmp \<notin> M netns" for tmp f g h
  proof -
    let ?M = "M(netns := insert tmp (M netns))"
    have ren: "post (netAt nms cur netns ?M) (RenameLink K N tmp ifName)
        (\<lambda>_ w. netAt nms cur netns (M(netns := insert ifName (M netns))) w \<and> ifName \<notin> M netns) ?T"
      unfolding RenameLink_def
      by (rule post_abind[OF post_ok[OF kernel_namesD(2)[OF K]]], rule post_conj, rule post_weaken[OF kernel_namesD(4)[OF K]])
         (use tmp in \<open>auto simp: insert_Diff_if\<close>)
    show ?thesis
      by (rule post_abind[OF post_awrap[OF ren]], rule post_conj, rule post_abind[OF post_awrap[OF post_ok[OF kernel_namesD(2)[OF K]]]])
         (auto intro!: post_leaf)
  qed
  show ?thesis unfolding createIpvlan_def
    apply (rule post_abind[OF post_ok[OF post_alift]], rule post_conj)
    apply (rule post_abind[OF post_awrap[OF post_ok[OF kernel_namesD(2)[OF K]]]], rule post_conj)
    apply (rule post_abind[OF stays_ok[OF kernel_namesD(7)[OF K]]])
    apply (rule post_abind[OF post_awrap[OF post_ok[OF kernel_namesD(5)[OF K]]]], rule post_conj)
    apply (rule post_nsDo[OF kernel_namesD(1)[OF K] inner])
    apply assumption
    done
qed

lemma ipvlan_ADD_effect:
  assumes K: "kernel_names K N I nms cur home"
  shows "post (netAt nms cur home M) (ipvlan_cmdAdd K N I C printResult args)
     (\<lambda>_ w. netAt nms cur home (M(ca_Netns args := insert (ca_IfName args) (M (ca_Netns args)))) w \<and> ca_IfName args \<notin> M (ca_Netns args)) (\<lambda>_ _. True)"
proof -
  let ?M = "M(ca_Netns args := insert (ca_IfName args) (M (ca_Netns args)))"
  have res: "stays (netAt nms cur c L) (iv_result I n args)" for c L n
    unfolding iv_result_def by (auto intro!: stays_intros kernel_namesD(8)[OF K] split: option.splits)
  have conf: "post (netAt nms cur home ?M) (nsDo K (ca_Netns args) (ip_ConfigureIface I (ca_IfName args) r))
      (\<lambda>_ w. \<exists>L. netAt nms cur home L w \<and> L = ?M) (\<lambda>_ _. True)" for r
    by (rule post_nsDo[OF kernel_namesD(1)[OF K]], rule post_weaken[OF stays_ok[OF kernel_namesD(10)[OF K]]]) auto
  show ?thesis unfolding ipvlan_cmdAdd_def Let_def
    apply (rule post_abind[OF post_ok[OF post_alift]], rule post_conj)
    apply (simp only: split: prod.split, intro allI impI)
    apply (rule post_abind[OF post_awrap[OF stays_ok[OF kernel_namesD(6)[OF K]]]])
    apply (rule post_abind[OF createIpvlan_effect[OF K]], rule post_ex, rule post_conj, elim conjE, simp only:)
    apply (rule post_abind[OF stays_ok[OF res]], rule post_abind[OF conf], rule post_ex, rule post_conj)
    apply (rule post_leaf(4), simp_all)
    done
qed

text \<open>DEL leaves no interface of the name behind.\<close>

lemma ipvlan_DEL_effect:
  assumes K: "kernel_names K N I nms cur home" and ns: "ca_Netns args \<noteq> []"
  shows "post (netAt nms cur home M) (ipvlan_cmdDel K I C args)
     (\<lambda>_. netAt nms cur home (M(ca_Netns args := M (ca_Netns args) - {ca_IfName args}))) (\<lambda>_ _. True)"
proof -
  let ?n = "ca_Netns args" and ?i = "ca_IfName args" and ?T = "\<lambda>_ _. True"
  let ?M = "M(?n := M ?n - {?i})"
  have gone: "post (netAt nms cur ?n M) (k_LinkByName K ?i) (\<lambda>l w. netAt nms cur ?n M w \<and> lk_Name l = ?i)
      (\<lambda>e w. e = linkGone \<longrightarrow> netAt nms cur ?n ?M w)"
  proof (rule post_weaken[OF kernel_namesD(2)[OF K]])
    show "e = linkGone \<longrightarrow> netAt nms cur ?n ?M w" if "netAt nms cur ?n M w \<and> (e = linkGone \<longrightarrow> ?i \<notin> M ?n)" for e w
      using that by (auto simp: netAt_def)
  qed auto
  have del: "post (netAt nms cur ?n M) (DelLinkByName K ?i) (\<lambda>_. netAt nms cur ?n ?M) (\<lambda>e w. e = ErrLinkNotFound \<longrightarrow> netAt nms cur ?n ?M w)"
  proof -
    have "post (\<lambda>w. netAt nms cur ?n M w \<and> lk_Name l = ?i) (awrap f (k_LinkDel K l)) (\<lambda>_. netAt nms cur ?n ?M)
        (\<lambda>e w. e = ErrLinkNotFound \<longrightarrow> netAt nms cur ?n ?M w)" if "\<And>e. f e \<noteq> ErrLinkNotFound" for l f
      unfolding awrap_def
      by (rule post_conj, rule post_acase[OF kernel_namesD(3)[OF K]]) (use that in \<open>auto intro!: post_leaf\<close>)
    then show ?thesis unfolding DelLinkByName_def
      by (intro post_acase[OF gone]) (auto simp: ErrLinkNotFound_def intro!: post_leaf)
  qed
  have inner: "post (netAt nms cur ?n M) (acase (DelLinkByName K ?i) aret (\<lambda>e. if e \<noteq> ErrLinkNotFound then aerr e else aret ()))
      (\<lambda>_ w. \<exists>L. netAt nms cur ?n L w \<and> L = ?M) ?T"
    by (rule post_acase[OF del]) (auto intro!: post_leaf)
  have ipam: "stays (netAt nms cur home M) (if b then ip_ExecDel I t d else aret ())" for b t d
    by (intro stays_intros kernel_namesD(9)[OF K])
  show ?thesis unfolding ipvlan_cmdDel_def WithNetNSPath_def
    apply (rule post_abind[OF post_ok[OF post_alift]], rule post_conj)
    apply (simp only: split: prod.split, intro allI impI)
    apply (rule post_abind[OF stays_ok[OF ipam]], simp only: ns if_False)
    apply (rule post_abind[OF stays_ok[OF kernel_namesD(6)[OF K]]])
    apply (rule post_weaken[OF post_nsDo[OF kernel_namesD(1)[OF K] inner]], auto)
    done
qed

text \<open>C20. DEL of \<^verbatim>\<open>ipvlan\<close> undoes ADD: ADD that succeeds adds exactly one interface, under the wanted name, which was
  free, in the namespace of the container, and DEL that succeeds after it restores the interfaces of every namespace.\<close>

theorem ipvlan_DEL_undoes_ADD:
  assumes K: "kernel_names K N I nms cur home" and w: "cur w = home" and ns: "ca_Netns args \<noteq> []"
    and add: "ipvlan_cmdAdd K N I C printResult args w = (Ok out, w1)" and del: "ipvlan_cmdDel K I C args w1 = (Ok (), w2)"
  shows "ca_IfName args \<notin> nms w (ca_Netns args) \<and>
     nms w1 = (nms w)(ca_Netns args := insert (ca_IfName args) (nms w (ca_Netns args))) \<and> nms w2 = nms w"
proof -
  have "netAt nms cur home (nms w) w" using w by (simp add: netAt_def)
  from post_Ok[OF ipvlan_ADD_effect[OF K] this add]
  have 1: "cur w1 = home" "nms w1 = (nms w)(ca_Netns args := insert (ca_IfName args) (nms w (ca_Netns args)))"
    "ca_IfName args \<notin> nms w (ca_Netns args)" by (simp_all add: netAt_def)
  then have "netAt nms cur home (nms w1) w1" by (simp add: netAt_def)
  from post_Ok[OF ipvlan_DEL_effect[OF K ns] this del]
  have 2: "nms w2 = (nms w1)(ca_Netns args := nms w1 (ca_Netns args) - {ca_IfName args})" by (simp add: netAt_def)
  have "nms w2 = nms w" unfolding 2 1(2) using 1(3) by (simp add: fun_eq_iff)
  with 1 show ?thesis by simp
qed

section \<open>A small kernel\<close>

record demonames =
  dn_names :: "(string \<times> string) list"
  dn_cur :: string

definition dn_nms :: "demonames \<Rightarrow> names" where
  "dn_nms w ns = {n. (ns, n) \<in> set (dn_names w)}"

definition dn_kern :: "demonames kern" where
  "dn_kern = \<lparr>k_LinkByName = (\<lambda>n w. if (dn_cur w, n) \<in> set (dn_names w) then (Ok (demo_link n), w) else (Err linkGone, w)),
     k_LinkByIndex = (\<lambda>i. aret (demo_link ''veth1'')),
     k_LinkDel = (\<lambda>l w. (Ok (), w\<lparr>dn_names := filter (\<lambda>x. x \<noteq> (dn_cur w, lk_Name l)) (dn_names w)\<rparr>)), k_AddrList = (\<lambda>_. aret []),
     k_InterfaceByName = (\<lambda>n. aret (demo_link n)), k_VethPeerIndex = (\<lambda>_. aret 7),
     k_SetupVeth = (\<lambda>n m. aret (demo_link ''veth1'', demo_link n)), k_RouteAdd = (\<lambda>r. aret ()),
     k_RuleList = (\<lambda>f. aret []), k_RuleAdd = (\<lambda>r. aret ()), k_RuleDel = (\<lambda>_. aret ()),
     k_GetNS = (\<lambda>_. aret ()), k_nsSet = (\<lambda>ns w. (Ok (), w\<lparr>dn_cur := ns\<rparr>)), k_nsBack = (\<lambda>w. (Ok (), w\<lparr>dn_cur := ''host''\<rparr>)), k_iptables = aret (),
     k_AppendUnique = (\<lambda>_ _ _. aret ()), k_Sysctl = (\<lambda>_ _. aret ()), k_EnableIP4Forward = aret (), k_EnableIP6Forward = aret (),
     k_SetupIPMasq = (\<lambda>_ _ _. aret ()), k_TeardownIPMasq = (\<lambda>_ _ _. aret ()), k_Arp = (\<lambda>_ _. aret ()), k_Intn = (\<lambda>_. aret 0),
     k_FormatChainName = (\<lambda>n i. n), k_FormatComment = (\<lambda>n i. n), k_showLink = lk_Name, k_showRule = (\<lambda>_. ''rule'')\<rparr>"

definition dn_ops :: "demonames ipvlanops" where
  "dn_ops = \<lparr>p_RandomVethName = aret ''veth0a1b'',
     p_LinkAddIPVlan = (\<lambda>mtu n p ns mode w. if (ns, n) \<in> set (dn_names w) then (Err EEXIST, w) else (Ok (), w\<lparr>dn_names := (ns, n) # dn_names w\<rparr>)),
     p_LinkSetName = (\<lambda>l n w. if (dn_cur w, n) \<in> set (dn_names w) then (Err EEXIST, w)
        else (Ok (), w\<lparr>dn_names := (dn_cur w, n) # filter (\<lambda>x. x \<noteq> (dn_cur w, lk_Name l)) (dn_names w)\<rparr>))\<rparr>"

definition dn_ipam :: "demonames ipamops" where
  "dn_ipam = \<lparr>ip_ExecAdd = (\<lambda>t d. aret ''result''), ip_ExecDel = (\<lambda>t d. aret ()),
     ip_NewResult = (\<lambda>_. Ok \<lparr>re_Interfaces = [], re_IPs = [demo_ipc], re_Routes = [], re_DNS = noDNS\<rparr>), ip_ConfigureIface = (\<lambda>_ _. aret ())\<rparr>"

definition dn_codec :: ivcodec where
  "dn_codec = \<lparr>iv_unmarshal = (\<lambda>_. Ok \<lparr>iv_CNIVersion = ''0.3.1'', iv_IPAMType = ''tcnp-ipam'', iv_DNS = noDNS, iv_RawPrevResult = Some ''prev'',
        iv_PrevResult = None, iv_Master = [], iv_Mode = ''l3'', iv_MTU = 1500\<rparr>),
     iv_marshal = Ok, iv_newResult = (\<lambda>_. Ok),
     iv_convertResult = (\<lambda>_. Ok \<lparr>re_Interfaces = [\<lparr>if_Name = ''eth0'', if_Mac = [], if_Sandbox = []\<rparr>], re_IPs = [], re_Routes = [], re_DNS = noDNS\<rparr>)\<rparr>"

definition dn_start :: demonames where
  "dn_start = \<lparr>dn_names = [(''host'', ''eth0''), (''/ns'', ''lo'')], dn_cur = ''host''\<rparr>"

lemma demo_link_Name [simp]: "lk_Name (demo_link n) = n"
  by (simp add: demo_link_def)

lemma dn_kernel: "kernel_names dn_kern dn_ops dn_ipam dn_nms dn_cur ''host''"
proof -
  have s: "stays J (aret x)" for J :: "demonames \<Rightarrow> bool" and x :: 'a by (rule stays_intros)
  show ?thesis unfolding kernel_names_def switches_def
    by (intro conjI allI) (auto simp: post_def netAt_def dn_nms_def dn_kern_def dn_ops_def dn_ipam_def fun_eq_iff intro: s)
qed

theorem ipvlan_DEL_undoes_ADD_witness:
  "\<exists>out w1 w2. ipvlan_cmdAdd dn_kern dn_ops dn_ipam dn_codec (\<lambda>r v. Ok v) demo_args dn_start = (Ok out, w1) \<and>
     ipvlan_cmdDel dn_kern dn_ipam dn_codec demo_args w1 = (Ok (), w2) \<and> ''eth0'' \<in> dn_nms w1 ''/ns'' \<and> dn_nms w2 = dn_nms dn_start"
proof -
  let ?add = "ipvlan_cmdAdd dn_kern dn_ops dn_ipam dn_codec (\<lambda>r v. Ok v) demo_args dn_start"
  have "is_Ok (fst ?add)" by code_simp
  then obtain out w1 where a: "?add = (Ok out, w1)" by (cases ?add) (auto simp: is_Ok_iff)
  let ?del = "ipvlan_cmdDel dn_kern dn_ipam dn_codec demo_args w1"
  have "is_Ok (fst (ipvlan_cmdDel dn_kern dn_ipam dn_codec demo_args (snd ?add)))" by code_simp
  then obtain w2 where d: "?del = (Ok (), w2)" using a by (cases ?del) (auto simp: is_Ok_iff)
  have c: "dn_cur dn_start = ''host''" and n: "ca_Netns demo_args \<noteq> []" and ns: "ca_Netns demo_args = ''/ns''" "ca_IfName demo_args = ''eth0''"
    by (simp_all add: dn_start_def demo_args_def)
  from ipvlan_DEL_undoes_ADD[OF dn_kernel c n a d, unfolded ns] a d show ?thesis by auto
qed

theorem ipvlan_conf_has_master_witness:
  "case iv_loadConf dn_codec [] of Ok (n, v) \<Rightarrow> iv_Master n = ''eth0'' \<and> v = ''0.3.1'' | _ \<Rightarrow> False"
proof -
  obtain n0 where n0: "iv_unmarshal dn_codec [] = Ok n0" "iv_CNIVersion n0 = ''0.3.1''" by (simp add: dn_codec_def)
  have "case iv_loadConf dn_codec [] of Ok (n, v) \<Rightarrow> iv_Master n = ''eth0'' | _ \<Rightarrow> False" by code_simp
  with ipvlan_conf_has_master[OF n0(1)] n0(2) show ?thesis by (auto split: result.splits)
qed

end
