(* ===== verification/IPTables_Locks.thy ===== *)
theory IPTables_Locks
  imports IPTables Triples
begin

text \<open>
  \<^verbatim>\<open>pkg/utils/iptables/iptables_linux.go\<close>: the locks an \<^verbatim>\<open>iptables-restore\<close> without \<^verbatim>\<open>--wait\<close> needs, a lock on a
  file for the versions 1.6 and an abstract socket for the versions 1.4. The calls of the system are the record \<open>lockops\<close>;
  files and sockets are numbers. How often \<^verbatim>\<open>wait.PollImmediate\<close> asks within two seconds is up to the clock, so the
  numbers of further attempts are parameters.
\<close>

section \<open>Definitions\<close>

record 'w lockops =
  lo_OpenFile :: "string \<Rightarrow> ('w, nat) act"
  lo_Flock :: "nat \<Rightarrow> ('w, unit) act"
  lo_CloseFile :: "nat \<Rightarrow> ('w, unit) act"
  lo_ListenUnix :: "string \<Rightarrow> ('w, nat) act"
  lo_CloseSocket :: "nat \<Rightarrow> ('w, unit) act"

record locker =
  lock16 :: "nat option"
  lock14 :: "nat option"

text \<open>\<^verbatim>\<open>utilerrors.NewAggregate\<close>: the text of a list of errors, each text once; an empty list is no error.\<close>

definition aggregateText :: "string list \<Rightarrow> string" where
  "aggregateText errs =
     (let texts = rev (remdups (rev errs)) in
      if length texts = 1 then hd texts else ''['' @ join '', '' texts @ '']'')"

definition locker_Close :: "'w lockops \<Rightarrow> locker \<Rightarrow> ('w, unit) act" where
  "locker_Close L l =
     abind (case lock16 l of Some f \<Rightarrow> acase (lo_CloseFile L f) (\<lambda>_. aret []) (\<lambda>e. aret [e]) | None \<Rightarrow> aret []) (\<lambda>errs16.
     abind (case lock14 l of Some s \<Rightarrow> acase (lo_CloseSocket L s) (\<lambda>_. aret []) (\<lambda>e. aret [e]) | None \<Rightarrow> aret []) (\<lambda>errs14.
     (case errs16 @ errs14 of [] \<Rightarrow> aret () | errs \<Rightarrow> aerr (aggregateText errs))))"

text \<open>\<^verbatim>\<open>wait.PollImmediate\<close> with a condition that returns no error: one attempt at once and \<open>n\<close> further ones.\<close>

fun PollImmediate :: "nat \<Rightarrow> ('w, 'a option) act \<Rightarrow> ('w, 'a) act" where
  "PollImmediate n cond = abind cond (\<lambda>r. case r of
      Some x \<Rightarrow> aret x
    | None \<Rightarrow> (case n of 0 \<Rightarrow> aerr ''timed out waiting for the condition'' | Suc m \<Rightarrow> PollImmediate m cond))"

declare PollImmediate.simps [simp del]

definition grabIptablesFileLock :: "'w lockops \<Rightarrow> nat \<Rightarrow> ('w, unit) act" where
  "grabIptablesFileLock L f = lo_Flock L f"

definition grabIptablesLocks :: "'w lockops \<Rightarrow> nat \<Rightarrow> nat \<Rightarrow> string \<Rightarrow> ('w, locker) act" where
  "grabIptablesLocks L n16 n14 lockfilePath =
     (let fail = (\<lambda>l e. abind (aignore (locker_Close L l)) (\<lambda>_. aerr e)) in
      acase (lo_OpenFile L lockfilePath)
        (\<lambda>f. let l = \<lparr>lock16 = Some f, lock14 = None\<rparr> in
          acase (PollImmediate n16 (acase (grabIptablesFileLock L f) (\<lambda>_. aret (Some ())) (\<lambda>_. aret None)))
            (\<lambda>_. acase (PollImmediate n14 (acase (lo_ListenUnix L ''@xtables'') (\<lambda>s. aret (Some s)) (\<lambda>_. aret None)))
               (\<lambda>s. aret (l\<lparr>lock14 := Some s\<rparr>))
               (\<lambda>e. fail l (''failed to acquire old iptables lock: '' @ e)))
            (\<lambda>e. fail l (''failed to acquire new iptables lock: '' @ e)))
        (\<lambda>e. fail \<lparr>lock16 = None, lock14 = None\<rparr> (''failed to open iptables lock '' @ lockfilePath @ '': '' @ e)))"

text \<open>\<^verbatim>\<open>iptables_unsupported.go\<close>: the same two functions where the system is not Linux.\<close>

definition unsupportedErr :: string where
  "unsupportedErr = ''iptables unsupported on this platform''"

definition unsupported_grabIptablesFileLock :: "nat \<Rightarrow> ('w, unit) act" where
  "unsupported_grabIptablesFileLock f = aerr unsupportedErr"

definition unsupported_grabIptablesLocks :: "string \<Rightarrow> ('w, locker) act" where
  "unsupported_grabIptablesLocks lockfilePath = aerr unsupportedErr"

section \<open>Holding the locks\<close>

text \<open>
  \<open>held w\<close> are the open files, the locked ones among them and the listening sockets. What the system documents: a
  failed call changes nothing, except that a file or socket is closed even when closing reports an error.
\<close>

type_synonym held = "nat set \<times> nat set \<times> nat set"

definition lock_laws :: "'w lockops \<Rightarrow> ('w \<Rightarrow> held) \<Rightarrow> bool" where
  "lock_laws L held \<longleftrightarrow>
     (\<forall>p F K S. post (\<lambda>w. held w = (F, K, S)) (lo_OpenFile L p) (\<lambda>f w. held w = (insert f F, K, S) \<and> f \<notin> F \<and> f \<notin> K) (\<lambda>_ w. held w = (F, K, S))) \<and>
     (\<forall>f F K S. post (\<lambda>w. held w = (F, K, S)) (lo_Flock L f) (\<lambda>_ w. held w = (F, insert f K, S)) (\<lambda>_ w. held w = (F, K, S))) \<and>
     (\<forall>f F K S. post (\<lambda>w. held w = (F, K, S)) (lo_CloseFile L f) (\<lambda>_ w. held w = (F - {f}, K - {f}, S)) (\<lambda>_ w. held w = (F - {f}, K - {f}, S))) \<and>
     (\<forall>n F K S. post (\<lambda>w. held w = (F, K, S)) (lo_ListenUnix L n) (\<lambda>s w. held w = (F, K, insert s S) \<and> s \<notin> S) (\<lambda>_ w. held w = (F, K, S))) \<and>
     (\<forall>s F K S. post (\<lambda>w. held w = (F, K, S)) (lo_CloseSocket L s) (\<lambda>_ w. held w = (F, K, S - {s})) (\<lambda>_ w. held w = (F, K, S - {s})))"

lemma lock_lawsD:
  assumes "lock_laws L held"
  shows "post (\<lambda>w. held w = (F, K, S)) (lo_OpenFile L p) (\<lambda>f w. held w = (insert f F, K, S) \<and> f \<notin> F \<and> f \<notin> K) (\<lambda>_ w. held w = (F, K, S))"
    "post (\<lambda>w. held w = (F, K, S)) (lo_Flock L f) (\<lambda>_ w. held w = (F, insert f K, S)) (\<lambda>_ w. held w = (F, K, S))"
    "post (\<lambda>w. held w = (F, K, S)) (lo_CloseFile L f) (\<lambda>_ w. held w = (F - {f}, K - {f}, S)) (\<lambda>_ w. held w = (F - {f}, K - {f}, S))"
    "post (\<lambda>w. held w = (F, K, S)) (lo_ListenUnix L n) (\<lambda>s w. held w = (F, K, insert s S) \<and> s \<notin> S) (\<lambda>_ w. held w = (F, K, S))"
    "post (\<lambda>w. held w = (F, K, S)) (lo_CloseSocket L s) (\<lambda>_ w. held w = (F, K, S - {s})) (\<lambda>_ w. held w = (F, K, S - {s}))"
  using assms unfolding lock_laws_def by simp_all

lemma PollImmediate_post:
  assumes "post P cond (\<lambda>r w. case r of Some x \<Rightarrow> Q x w | None \<Rightarrow> P w) (\<lambda>_. P)"
  shows "post P (PollImmediate n cond) Q (\<lambda>_. P)"
proof (induction n)
  case 0
  show ?case by (subst PollImmediate.simps, rule post_abind[OF assms]) (auto intro!: post_leaf split: option.splits)
next
  case (Suc n)
  show ?case by (subst PollImmediate.simps, rule post_abind[OF assms]) (auto intro!: post_leaf Suc split: option.splits)
qed

text \<open>Closing gives back what the locker has.\<close>

lemma locker_Close_effect:
  assumes L: "lock_laws L held"
  shows "post (\<lambda>w. held w = (F, K, S)) (locker_Close L l)
     (\<lambda>_ w. held w = (F - set_option (lock16 l), K - set_option (lock16 l), S - set_option (lock14 l)))
     (\<lambda>_ w. held w = (F - set_option (lock16 l), K - set_option (lock16 l), S - set_option (lock14 l)))"
proof -
  let ?F = "F - set_option (lock16 l)" and ?K = "K - set_option (lock16 l)" and ?S = "S - set_option (lock14 l)"
  have 1: "post (\<lambda>w. held w = (F, K, S)) (case lock16 l of Some f \<Rightarrow> acase (lo_CloseFile L f) (\<lambda>_. aret []) (\<lambda>e. aret [e]) | None \<Rightarrow> aret [])
      (\<lambda>_ w. held w = (?F, ?K, S)) E" for E
    by (cases "lock16 l") (auto intro!: post_leaf post_acase[OF lock_lawsD(3)[OF L]])
  have 2: "post (\<lambda>w. held w = (?F, ?K, S)) (case lock14 l of Some s \<Rightarrow> acase (lo_CloseSocket L s) (\<lambda>_. aret []) (\<lambda>e. aret [e]) | None \<Rightarrow> aret [])
      (\<lambda>_ w. held w = (?F, ?K, ?S)) E" for E
    by (cases "lock14 l") (auto intro!: post_leaf post_acase[OF lock_lawsD(5)[OF L]])
  show ?thesis unfolding locker_Close_def
    by (rule post_abind[OF 1], rule post_abind[OF 2]) (auto intro!: post_leaf split: list.splits)
qed

text \<open>On success both locks are held, on an error nothing more than before.\<close>

lemma grabIptablesLocks_effect:
  assumes L: "lock_laws L held"
  shows "post (\<lambda>w. held w = (F, K, S)) (grabIptablesLocks L n16 n14 path)
     (\<lambda>l w. \<exists>f s. l = \<lparr>lock16 = Some f, lock14 = Some s\<rparr> \<and> held w = (insert f F, insert f K, insert s S) \<and> f \<notin> F \<and> f \<notin> K \<and> s \<notin> S)
     (\<lambda>_ w. held w = (F, K, S))"
proof -
  let ?E = "\<lambda>(_ :: string) w. held w = (F, K, S)"
  have fail: "post (\<lambda>w. held w = (F', K', S)) (abind (aignore (locker_Close L l)) (\<lambda>_. aerr e)) Q ?E"
    if "F' - set_option (lock16 l) = F" "K' - set_option (lock16 l) = K" "lock14 l = None" for F' K' l e Q
    using that by (intro post_abind[OF post_aignore[OF locker_Close_effect[OF L]]] post_leaf) simp
  have flock: "post (\<lambda>w. held w = (F', K, S)) (PollImmediate n16 (acase (grabIptablesFileLock L f) (\<lambda>_. aret (Some ())) (\<lambda>_. aret None)))
      (\<lambda>_ w. held w = (F', insert f K, S)) (\<lambda>_ w. held w = (F', K, S))" for F' f
    by (rule PollImmediate_post, unfold grabIptablesFileLock_def, rule post_acase[OF lock_lawsD(2)[OF L]]) (auto intro!: post_leaf)
  have sock: "post (\<lambda>w. held w = (F', K', S)) (PollImmediate n14 (acase (lo_ListenUnix L n) (\<lambda>s. aret (Some s)) (\<lambda>_. aret None)))
      (\<lambda>s w. held w = (F', K', insert s S) \<and> s \<notin> S) (\<lambda>_ w. held w = (F', K', S))" for F' K' n
    by (rule PollImmediate_post, rule post_acase[OF lock_lawsD(4)[OF L]]) (auto intro!: post_leaf)
  show ?thesis unfolding grabIptablesLocks_def Let_def
    apply (rule post_acase[OF lock_lawsD(1)[OF L]])
     apply (rule post_conj, elim conjE)
     apply (rule post_acase[OF flock])
      apply (rule post_acase[OF sock])
       apply (auto intro!: post_leaf fail)
    done
qed

text \<open>What is known of a command: it leaves the locks alone, provided it runs while both are held.\<close>

definition runs_under_locks :: "'w xexec \<Rightarrow> ('w \<Rightarrow> held) \<Rightarrow> bool" where
  "runs_under_locks exec held \<longleftrightarrow> (\<forall>prog args data w F K S. held w = (F, K, S) \<and> K \<noteq> {} \<and> S \<noteq> {} \<longrightarrow>
     held (snd (exec prog args data w)) = held w)"

lemma restoreInternal_locked:
  assumes L: "lock_laws L held" and x: "runs_under_locks exec held" and rn: "rn_restoreWaitFlag rn = []"
  shows "post (\<lambda>w. held w = (F, K, S)) (restoreInternal exec (grabIptablesLocks L n16 n14) (locker_Close L) rn args data flush counters)
     (\<lambda>_ w. held w = (F, K, S)) (\<lambda>_ w. held w = (F, K, S))"
proof -
  let ?run = "\<lambda>as w. case exec (iptablesRestoreCommand (rn_protocol rn)) as data w of
      ((_, None), w') \<Rightarrow> (Ok (), w') | ((out, Some e), w') \<Rightarrow> (Err (ce_text e @ '' ('' @ out @ '')''), w')"
  have run: "stays (\<lambda>w. held w = (F', insert f K', insert s S')) (?run as)" for F' f K' s S' as
    unfolding stays_def
  proof (rule postI)
    fix w assume w: "held w = (F', insert f K', insert s S')"
    obtain out e w' where r: "exec (iptablesRestoreCommand (rn_protocol rn)) as data w = ((out, e), w')" by (metis prod.exhaust)
    have "held w' = held w" using x w r unfolding runs_under_locks_def by (metis insert_not_empty snd_conv)
    then show "case ?run as w of (Ok x, w') \<Rightarrow> held w' = (F', insert f K', insert s S') | (Err e, w') \<Rightarrow> held w' = (F', insert f K', insert s S')
        | (Panic, w') \<Rightarrow> True" using r w by (cases e) simp_all
  qed
  have body: "post (\<lambda>w. \<exists>f s. l = \<lparr>lock16 = Some f, lock14 = Some s\<rparr> \<and> held w = (insert f F, insert f K, insert s S) \<and> f \<notin> F \<and> f \<notin> K \<and> s \<notin> S)
      (adefer (locker_Close L l) (?run as)) (\<lambda>_ w. held w = (F, K, S)) (\<lambda>_ w. held w = (F, K, S))" for l as
  proof (rule post_ex, rule post_ex)
    fix f s
    let ?P = "\<lambda>w. held w = (insert f F, insert f K, insert s S)"
    have "post ?P (adefer (locker_Close L l) (?run as)) (\<lambda>_ w. held w = (F, K, S)) (\<lambda>_ w. held w = (F, K, S))"
      if l: "l = \<lparr>lock16 = Some f, lock14 = Some s\<rparr>" and n: "f \<notin> F \<and> f \<notin> K \<and> s \<notin> S"
    proof -
      have c: "post ?P (locker_Close L l) (\<lambda>_ w. held w = (F, K, S)) (\<lambda>_ w. held w = (F, K, S))"
        using locker_Close_effect[OF L, of "insert f F" "insert f K" "insert s S" l] l n by simp
      show ?thesis by (rule post_adefer[OF stays_post[OF run] c c])
    qed
    then show "post (\<lambda>w. l = \<lparr>lock16 = Some f, lock14 = Some s\<rparr> \<and> ?P w \<and> f \<notin> F \<and> f \<notin> K \<and> s \<notin> S)
        (adefer (locker_Close L l) (?run as)) (\<lambda>_ w. held w = (F, K, S)) (\<lambda>_ w. held w = (F, K, S))"
      by (cases "l = \<lparr>lock16 = Some f, lock14 = Some s\<rparr> \<and> f \<notin> F \<and> f \<notin> K \<and> s \<notin> S") (auto simp: post_def)
  qed
  show ?thesis unfolding restoreInternal_def Let_def rn
    by (simp only: simp_thms if_True, rule post_abind[OF grabIptablesLocks_effect[OF L] body])
qed

text \<open>C19. A restore without \<^verbatim>\<open>--wait\<close> runs the command only while it holds both the file lock and the socket lock, and
  whatever happens (a lock that cannot be had, a command that fails) all locks it took are released at the end.\<close>

theorem Restore_holds_and_releases_locks:
  assumes L: "lock_laws L held" and x: "runs_under_locks exec held" and rn: "rn_restoreWaitFlag rn = []" and w: "held w = (F, {}, {})"
    and r: "ipt_Restore exec (grabIptablesLocks L n16 n14) (locker_Close L) rn table data flush counters w = (res, w')" and p: "res \<noteq> Panic"
  shows "held w' = (F, {}, {})"
proof (cases res)
  case (Ok u)
  then show ?thesis using post_Ok[OF restoreInternal_locked[OF L x rn] w] r by (simp add: ipt_Restore_def)
next
  case (Err e)
  then show ?thesis using post_Err[OF restoreInternal_locked[OF L x rn] w] r by (simp add: ipt_Restore_def)
qed (use p in simp)

text \<open>Where the system is not Linux such a restore fails without running a command.\<close>

lemma unsupported_runs_nothing:
  assumes "rn_restoreWaitFlag rn = []"
  shows "ipt_Restore exec unsupported_grabIptablesLocks (locker_Close L) rn table data flush counters w = (Err unsupportedErr, w)"
    and "ipt_RestoreAll exec unsupported_grabIptablesLocks (locker_Close L) rn data flush counters w = (Err unsupportedErr, w)"
  using assms by (simp_all add: ipt_Restore_def ipt_RestoreAll_def restoreInternal_def unsupported_grabIptablesLocks_def abind_def aerr_def)

section \<open>A small system\<close>

text \<open>The numbers handed out are new, and the command fails.\<close>

record demolocks =
  dk_files :: "nat list"
  dk_locked :: "nat list"
  dk_socks :: "nat list"

definition dk_held :: "demolocks \<Rightarrow> held" where
  "dk_held w = (set (dk_files w), set (dk_locked w), set (dk_socks w))"

definition dk_new :: "nat list \<Rightarrow> nat" where
  "dk_new xs = Suc (sum_list xs)"

lemma dk_new_fresh: "dk_new xs \<notin> set xs"
  using member_le_sum_list[of "dk_new xs" xs] by (auto simp: dk_new_def)

definition dk_ops :: "demolocks lockops" where
  "dk_ops = \<lparr>lo_OpenFile = (\<lambda>p w. let f = dk_new (dk_files w @ dk_locked w) in (Ok f, w\<lparr>dk_files := f # dk_files w\<rparr>)),
     lo_Flock = (\<lambda>f w. (Ok (), w\<lparr>dk_locked := f # dk_locked w\<rparr>)),
     lo_CloseFile = (\<lambda>f w. (Ok (), w\<lparr>dk_files := removeAll f (dk_files w), dk_locked := removeAll f (dk_locked w)\<rparr>)),
     lo_ListenUnix = (\<lambda>n w. let s = dk_new (dk_socks w) in (Ok s, w\<lparr>dk_socks := s # dk_socks w\<rparr>)),
     lo_CloseSocket = (\<lambda>s w. (Ok (), w\<lparr>dk_socks := removeAll s (dk_socks w)\<rparr>))\<rparr>"

definition dk_exec :: "demolocks xexec" where
  "dk_exec prog args data w = ((''out'', Some \<lparr>ce_text = ''exit status 1'', ce_exit = Some 1\<rparr>), w)"

lemma dk_new_files: "dk_new (xs @ ys) \<notin> set xs" "dk_new (xs @ ys) \<notin> set ys"
  using dk_new_fresh[of "xs @ ys"] by simp_all

lemma dk_laws: "lock_laws dk_ops dk_held"
  using dk_new_fresh dk_new_files by (auto simp: lock_laws_def dk_ops_def dk_held_def post_def Let_def)

theorem Restore_holds_and_releases_locks_witness:
  "\<exists>e w'. ipt_Restore dk_exec (grabIptablesLocks dk_ops 9 9) (locker_Close dk_ops) (demo_runner\<lparr>rn_restoreWaitFlag := []\<rparr>) ''nat'' [] False False
      \<lparr>dk_files = [4], dk_locked = [], dk_socks = []\<rparr> = (Err e, w') \<and> dk_held w' = ({4}, {}, {})"
proof -
  let ?w = "\<lparr>dk_files = [4], dk_locked = [], dk_socks = []\<rparr>"
  let ?r = "ipt_Restore dk_exec (grabIptablesLocks dk_ops 9 9) (locker_Close dk_ops) (demo_runner\<lparr>rn_restoreWaitFlag := []\<rparr>) ''nat'' [] False False ?w"
  have "is_Err (fst ?r)" by code_simp
  then obtain e w' where r: "?r = (Err e, w')" by (cases ?r) (auto simp: is_Err_iff)
  have x: "runs_under_locks dk_exec dk_held" by (simp add: runs_under_locks_def dk_exec_def)
  have "dk_held ?w = ({4}, {}, {})" by (simp add: dk_held_def)
  from Restore_holds_and_releases_locks[OF dk_laws x _ this r] r show ?thesis by simp
qed

end
