(* ===== verification/DBus.thy ===== *)
theory DBus
  imports Go_Prelude
begin

text \<open>
  \<^verbatim>\<open>pkg/utils/dbus/dbus.go\<close>: the interfaces \<^verbatim>\<open>Interface\<close>, \<^verbatim>\<open>Connection\<close>, \<^verbatim>\<open>Object\<close> and \<^verbatim>\<open>Call\<close> are the record
  \<open>busops\<close> over the types of connections, objects and calls, and the locale \<open>shared_bus\<close> is what they promise; the
  implementation \<^verbatim>\<open>dbusImpl\<close> forwards to the library godbus, the record \<open>godbus\<close>, and keeps the two connections. A channel is a
  number.
\<close>

record ('w, 'c, 'o, 'r) busops =
  bus_SystemBus :: "('w, 'c) act"
  bus_SessionBus :: "('w, 'c) act"
  bus_BusObject :: "'c \<Rightarrow> 'o"
  bus_Object :: "'c \<Rightarrow> string \<Rightarrow> string \<Rightarrow> 'o"
  bus_Signal :: "'c \<Rightarrow> nat \<Rightarrow> ('w, unit) act"
  bus_Call :: "'o \<Rightarrow> string \<Rightarrow> string list \<Rightarrow> ('w, 'r) act"
  bus_Store :: "'r \<Rightarrow> string list result"

text \<open>A bus is connected to when it is first asked for, and the connection is kept.\<close>

locale shared_bus =
  fixes B :: "('w, 'c, 'o, 'r) busops"
  assumes system_shared: "bus_SystemBus B w = (Ok c, w') \<Longrightarrow> bus_SystemBus B w' = (Ok c, w')"
    and session_shared: "bus_SessionBus B w = (Ok c, w') \<Longrightarrow> bus_SessionBus B w' = (Ok c, w')"
begin

lemma second_user:
  assumes "bus_SystemBus B w = (Ok c, w')"
  shows "abind (bus_SystemBus B) (\<lambda>_. bus_SystemBus B) w = (Ok c, w')"
  using assms system_shared[OF assms] by (simp add: abind_def)

end

section \<open>The implementation over godbus\<close>

record ('w, 'g, 'b, 'r) godbus =
  gd_SystemBus :: "('w, 'g) act"
  gd_SessionBus :: "('w, 'g) act"
  gd_BusObject :: "'g \<Rightarrow> 'b"
  gd_Object :: "'g \<Rightarrow> string \<Rightarrow> string \<Rightarrow> 'b"
  gd_Signal :: "'g \<Rightarrow> nat \<Rightarrow> ('w, unit) act"
  gd_Call :: "'b \<Rightarrow> string \<Rightarrow> string list \<Rightarrow> ('w, 'r) act"
  gd_Store :: "'r \<Rightarrow> string list result"

datatype 'g connImpl = ConnImpl (ci_conn: 'g)
datatype 'b objectImpl = ObjectImpl (oi_object: 'b)
datatype 'r callImpl = CallImpl (ca_call: 'r)

record 'g dbusImpl =
  db_systemBus :: "'g connImpl option"
  db_sessionBus :: "'g connImpl option"

definition dbus_New :: "'g dbusImpl" where
  "dbus_New = \<lparr>db_systemBus = None, db_sessionBus = None\<rparr>"

text \<open>The calls of the library, which do not see the state of \<^verbatim>\<open>dbusImpl\<close>.\<close>

definition onBus :: "('w, 'a) act \<Rightarrow> ('g dbusImpl \<times> 'w, 'a) act" where
  "onBus m = (\<lambda>(db, w). case m w of (r, w') \<Rightarrow> (r, (db, w')))"

definition SystemBus :: "('w, 'g, 'b, 'r) godbus \<Rightarrow> ('g dbusImpl \<times> 'w, 'g connImpl) act" where
  "SystemBus G = (\<lambda>(db, w). case db_systemBus db of
      None \<Rightarrow> abind (onBus (gd_SystemBus G)) (\<lambda>bus (db, w). (Ok (ConnImpl bus), (db\<lparr>db_systemBus := Some (ConnImpl bus)\<rparr>, w))) (db, w)
    | Some c \<Rightarrow> (Ok c, (db, w)))"

definition SessionBus :: "('w, 'g, 'b, 'r) godbus \<Rightarrow> ('g dbusImpl \<times> 'w, 'g connImpl) act" where
  "SessionBus G = (\<lambda>(db, w). case db_sessionBus db of
      None \<Rightarrow> abind (onBus (gd_SessionBus G)) (\<lambda>bus (db, w). (Ok (ConnImpl bus), (db\<lparr>db_sessionBus := Some (ConnImpl bus)\<rparr>, w))) (db, w)
    | Some c \<Rightarrow> (Ok c, (db, w)))"

definition BusObject :: "('w, 'g, 'b, 'r) godbus \<Rightarrow> 'g connImpl \<Rightarrow> 'b objectImpl" where
  "BusObject G conn = ObjectImpl (gd_BusObject G (ci_conn conn))"

definition conn_Object :: "('w, 'g, 'b, 'r) godbus \<Rightarrow> 'g connImpl \<Rightarrow> string \<Rightarrow> string \<Rightarrow> 'b objectImpl" where
  "conn_Object G conn name path = ObjectImpl (gd_Object G (ci_conn conn) name path)"

definition conn_Signal :: "('w, 'g, 'b, 'r) godbus \<Rightarrow> 'g connImpl \<Rightarrow> nat \<Rightarrow> ('w, unit) act" where
  "conn_Signal G conn ch = gd_Signal G (ci_conn conn) ch"

definition obj_Call :: "('w, 'g, 'b, 'r) godbus \<Rightarrow> 'b objectImpl \<Rightarrow> string \<Rightarrow> string list \<Rightarrow> ('w, 'r callImpl) act" where
  "obj_Call G obj method args = abind (gd_Call G (oi_object obj) method args) (\<lambda>c. aret (CallImpl c))"

definition call_Store :: "('w, 'g, 'b, 'r) godbus \<Rightarrow> 'r callImpl \<Rightarrow> string list result" where
  "call_Store G call = gd_Store G (ca_call call)"

definition dbusOps :: "('w, 'g, 'b, 'r) godbus \<Rightarrow> ('g dbusImpl \<times> 'w, 'g connImpl, 'b objectImpl, 'r callImpl) busops" where
  "dbusOps G = \<lparr>bus_SystemBus = SystemBus G, bus_SessionBus = SessionBus G, bus_BusObject = BusObject G, bus_Object = conn_Object G,
     bus_Signal = (\<lambda>c ch. onBus (conn_Signal G c ch)), bus_Call = (\<lambda>ob m as. onBus (obj_Call G ob m as)), bus_Store = call_Store G\<rparr>"

lemma SystemBus_Ok: "SystemBus G s = (Ok c, s') \<Longrightarrow> db_systemBus (fst s') = Some c"
  by (auto simp: SystemBus_def abind_def onBus_def split: prod.splits option.splits result.splits)

lemma SessionBus_Ok: "SessionBus G s = (Ok c, s') \<Longrightarrow> db_sessionBus (fst s') = Some c"
  by (auto simp: SessionBus_def abind_def onBus_def split: prod.splits option.splits result.splits)

lemma SystemBus_again: "db_systemBus (fst s) = Some c \<Longrightarrow> SystemBus G s = (Ok c, s)"
  by (cases s) (simp add: SystemBus_def)

lemma SessionBus_again: "db_sessionBus (fst s) = Some c \<Longrightarrow> SessionBus G s = (Ok c, s)"
  by (cases s) (simp add: SessionBus_def)

interpretation db: shared_bus "dbusOps G" for G :: "('w, 'g, 'b, 'r) godbus"
  by unfold_locales (simp_all add: dbusOps_def SystemBus_again[OF SystemBus_Ok] SessionBus_again[OF SessionBus_Ok])

end
