(* ===== verification/FirewallD.thy ===== *)
theory FirewallD
  imports IPTables DBus
begin

text \<open>
  The part of \<^verbatim>\<open>pkg/utils/iptables/iptables.go\<close> that follows restarts of FirewallD over D-Bus. The
  channel of the runner is the number \<open>ch\<close>, and what is received from it is a list: \<open>None\<close> is the \<^verbatim>\<open>nil\<close> that
  \<^verbatim>\<open>Destroy\<close> sends.
\<close>

section \<open>Definitions\<close>

datatype busValue = BusString string | BusOther

record busSignal =
  sig_Name :: string
  sig_Body :: "busValue list"

definition firewalldName :: string where "firewalldName = ''org.fedoraproject.FirewallD1''"
definition firewalldPath :: string where "firewalldPath = ''/org/fedoraproject/FirewallD1''"
definition firewalldInterface :: string where "firewalldInterface = ''org.fedoraproject.FirewallD1''"

text \<open>\<^verbatim>\<open>sq\<close> puts single quotes around a text.\<close>

definition sq :: "string \<Rightarrow> string" where
  "sq s = [CHR 0x27] @ s @ [CHR 0x27]"

definition reloadedMatch :: string where
  "reloadedMatch = ''type='' @ sq ''signal'' @ '',sender='' @ sq firewalldName @ '',path='' @ sq firewalldPath @ '',interface='' @
     sq firewalldInterface @ '',member='' @ sq ''Reloaded''"

definition ownerMatch :: string where
  "ownerMatch = ''type='' @ sq ''signal'' @ '',interface='' @ sq ''org.freedesktop.DBus'' @ '',member='' @ sq ''NameOwnerChanged'' @ '',path='' @
     sq ''/org/freedesktop/DBus'' @ '',sender='' @ sq ''org.freedesktop.DBus'' @ '',arg0='' @ sq firewalldName"

text \<open>The result is the connection the handler listens on: without one there is no channel and no handler.\<close>

definition connectToFirewallD :: "('w, 'c, 'o, 'r) busops \<Rightarrow> nat \<Rightarrow> ('w, 'c option) act" where
  "connectToFirewallD B ch =
     acase (bus_SystemBus B)
       (\<lambda>bus. abind (bus_Call B (bus_BusObject B bus) ''org.freedesktop.DBus.AddMatch'' [reloadedMatch]) (\<lambda>_.
             abind (bus_Call B (bus_BusObject B bus) ''org.freedesktop.DBus.AddMatch'' [ownerMatch]) (\<lambda>_.
             abind (bus_Signal B bus ch) (\<lambda>_. aret (Some bus)))))
       (\<lambda>_. aret None)"

text \<open>\<^verbatim>\<open>New\<close>: the runner and, when D-Bus is there, the connection its handler listens on.\<close>

definition iptables_NewRunner :: "'w xexec \<Rightarrow> ('w, 'c, 'o, 'r) busops \<Rightarrow> nat \<Rightarrow> Protocol \<Rightarrow> ('w, iptables_runner \<times> 'c option) act" where
  "iptables_NewRunner exec B ch protocol =
     abind (newInternal exec protocol []) (\<lambda>rn. abind (connectToFirewallD B ch) (\<lambda>bus. aret (rn, bus)))"

definition AddReloadFunc :: "('w, unit) act list \<Rightarrow> ('w, unit) act \<Rightarrow> ('w, unit) act list" where
  "AddReloadFunc reloadFuncs f = reloadFuncs @ [f]"

text \<open>The functions return nothing; only a panic ends the loop.\<close>

definition reload :: "('w, unit) act list \<Rightarrow> ('w, unit) act" where
  "reload reloadFuncs = afor reloadFuncs aignore"

text \<open>The type assertion of an element of the body; both it and the index panic when they fail.\<close>

definition bodyString :: "busSignal \<Rightarrow> nat \<Rightarrow> string option" where
  "bodyString s i = (if i < length (sig_Body s) then (case sig_Body s ! i of BusString t \<Rightarrow> Some t | BusOther \<Rightarrow> None) else None)"

fun dbusSignalHandler :: "('w, 'c, 'o, 'r) busops \<Rightarrow> 'c \<Rightarrow> nat \<Rightarrow> ('w, unit) act list \<Rightarrow> busSignal option list \<Rightarrow> ('w, unit) act" where
  "dbusSignalHandler B bus ch reloadFuncs [] = aret ()"
| "dbusSignalHandler B bus ch reloadFuncs (None # received) = bus_Signal B bus ch"
| "dbusSignalHandler B bus ch reloadFuncs (Some s # received) =
     (if sig_Name s = ''org.freedesktop.DBus.NameOwnerChanged'' then
        (case (bodyString s 0, bodyString s 2) of
           (Some nm, Some new_owner) \<Rightarrow>
             (if nm \<noteq> firewalldName \<or> length new_owner = 0 then dbusSignalHandler B bus ch reloadFuncs received
              else abind (bus_Call B (bus_Object B bus firewalldName firewalldPath) (firewalldInterface @ ''.getDefaultZone'') []) (\<lambda>_.
                   abind (reload reloadFuncs) (\<lambda>_. dbusSignalHandler B bus ch reloadFuncs received)))
         | _ \<Rightarrow> apanic)
      else if sig_Name s = firewalldInterface @ ''.Reloaded'' then
        abind (reload reloadFuncs) (\<lambda>_. dbusSignalHandler B bus ch reloadFuncs received)
      else dbusSignalHandler B bus ch reloadFuncs received)"

definition runner_Destroy :: "bool \<Rightarrow> busSignal option list \<Rightarrow> busSignal option list" where
  "runner_Destroy hasSignal channel = (if hasSignal then channel @ [None] else channel)"

definition ipt_IsIpv6 :: "iptables_runner \<Rightarrow> bool" where
  "ipt_IsIpv6 rn = (rn_protocol rn = ProtocolIpv6)"

definition ipt_GetVersion :: "'w xexec \<Rightarrow> iptables_runner \<Rightarrow> ('w, string) act" where
  "ipt_GetVersion exec rn = getIPTablesVersionString exec (rn_protocol rn)"

section \<open>Reloads\<close>

text \<open>The signals that mean that FirewallD dropped all rules.\<close>

definition restarted :: "busSignal \<Rightarrow> bool" where
  "restarted s \<longleftrightarrow> sig_Name s = firewalldInterface @ ''.Reloaded'' \<or>
     sig_Name s = ''org.freedesktop.DBus.NameOwnerChanged'' \<and> bodyString s 0 = Some firewalldName \<and> bodyString s 2 \<notin> {None, Some []}"

definition wellFormed :: "busSignal \<Rightarrow> bool" where
  "wellFormed s \<longleftrightarrow> (sig_Name s = ''org.freedesktop.DBus.NameOwnerChanged'' \<longrightarrow> bodyString s 0 \<noteq> None \<and> bodyString s 2 \<noteq> None)"

lemma abind_aret [simp]: "abind (aret x) f = f x"
  by (simp add: abind_def aret_def)

lemma signal_names: "''org.freedesktop.DBus.NameOwnerChanged'' \<noteq> firewalldInterface @ ''.Reloaded''"
  by (simp add: firewalldInterface_def)

text \<open>Every signal of a restart runs all functions once, in the order in which they were added.\<close>

theorem handler_reloads_per_restart:
  fixes B :: "('w, 'c, 'o, 'r) busops"
  assumes calls: "\<And>ob m as w. \<exists>r. bus_Call B ob m as w = (Ok r, w)" and wf: "list_all wellFormed sigs"
  shows "dbusSignalHandler B bus ch fs (map Some sigs @ rest) =
    abind (afor (filter restarted sigs) (\<lambda>_. reload fs)) (\<lambda>_. dbusSignalHandler B bus ch fs rest)"
  using wf
proof (induction sigs)
  case Nil
  then show ?case by simp
next
  case (Cons s sigs)
  have call: "abind (bus_Call B ob m as) (\<lambda>_. f) = f" for ob m as and f :: "('w, unit) act"
  proof
    fix w show "abind (bus_Call B ob m as) (\<lambda>_. f) w = f w" using calls[of ob m as w] by (auto simp: abind_def)
  qed
  show ?case
  proof (cases "sig_Name s = ''org.freedesktop.DBus.NameOwnerChanged''")
    case True
    then obtain a b where ab: "bodyString s 0 = Some a" "bodyString s 2 = Some b" using Cons.prems by (auto simp: wellFormed_def)
    show ?thesis using Cons True signal_names ab by (auto simp: restarted_def call abind_assoc)
  next
    case False
    then show ?thesis using Cons by (auto simp: restarted_def abind_assoc)
  qed
qed

section \<open>The channel after Destroy\<close>

text \<open>
  The documented behaviour of godbus: \<^verbatim>\<open>Signal\<close> adds a channel to those registered on a connection (\<open>regs\<close>), and a call of a method
  does not touch them. \<open>untouched regs\<close>: a reload function returns and does not touch them either.
\<close>

definition signal_adds :: "('w, 'g, 'b, 'r) godbus \<Rightarrow> ('w \<Rightarrow> 'g \<Rightarrow> nat list) \<Rightarrow> bool" where
  "signal_adds G regs \<longleftrightarrow> (\<forall>g ch w. \<exists>w'. gd_Signal G g ch w = (Ok (), w') \<and> regs w' = (regs w)(g := regs w g @ [ch])) \<and>
     (\<forall>ob m as w. \<exists>r w'. gd_Call G ob m as w = (Ok r, w') \<and> regs w' = regs w)"

definition untouched :: "('s \<Rightarrow> 'x) \<Rightarrow> ('s, 'a) act \<Rightarrow> bool" where
  "untouched v m \<longleftrightarrow> (\<forall>s. \<exists>r s'. m s = (Ok r, s') \<and> v s' = v s)"

lemma untouched_bind: "untouched v m \<Longrightarrow> (\<And>x. untouched v (f x)) \<Longrightarrow> untouched v (abind m f)"
  unfolding untouched_def by (metis abind_Ok)

lemma untouched_aret: "untouched v (aret x)"
  by (simp add: untouched_def aret_def)

lemma untouched_reload: "\<forall>f \<in> set fs. untouched v f \<Longrightarrow> untouched v (reload fs)"
proof (induction fs)
  case (Cons f fs)
  have "untouched v (aignore f)" unfolding untouched_def
  proof
    fix s
    obtain r s' where "f s = (Ok r, s')" "v s' = v s" using Cons.prems unfolding untouched_def by (metis list.set_intros(1))
    then show "\<exists>r s'. aignore f s = (Ok r, s') \<and> v s' = v s" by (simp add: aignore_def acase_def aret_def)
  qed
  then show ?case using Cons by (simp add: reload_def untouched_bind)
qed (simp add: reload_def untouched_aret)

lemma onBus_Ok: "m w = (Ok x, w') \<Longrightarrow> onBus m (db, w) = (Ok x, (db, w'))"
  by (simp add: onBus_def)

lemma dbus_calls_keep: "signal_adds G regs \<Longrightarrow> untouched (\<lambda>s. regs (snd s)) (bus_Call (dbusOps G) ob m as)"
proof -
  assume a: "signal_adds G regs"
  have "\<exists>r s'. onBus (obj_Call G ob m as) (db, w) = (Ok r, s') \<and> regs (snd s') = regs w" for db w
  proof -
    obtain r w' where "gd_Call G (oi_object ob) m as w = (Ok r, w')" "regs w' = regs w" using a unfolding signal_adds_def by blast
    then show ?thesis by (auto simp: onBus_def obj_Call_def abind_def aret_def)
  qed
  then show ?thesis by (auto simp: untouched_def dbusOps_def)
qed

lemma dbus_signal_adds:
  assumes "signal_adds G regs"
  shows "\<exists>w'. bus_Signal (dbusOps G) (ConnImpl g) ch (db, w) = (Ok (), (db, w')) \<and> regs w' = (regs w)(g := regs w g @ [ch])"
proof -
  obtain w' where "gd_Signal G g ch w = (Ok (), w')" "regs w' = (regs w)(g := regs w g @ [ch])"
    using assms unfolding signal_adds_def by blast
  then show ?thesis by (simp add: dbusOps_def onBus_def conn_Signal_def)
qed

text \<open>The handler, from its first signal to the \<^verbatim>\<open>nil\<close> of \<^verbatim>\<open>Destroy\<close>.\<close>

lemma handler_registers_again:
  assumes G: "signal_adds G regs" and fs: "\<forall>f \<in> set fs. untouched (\<lambda>s. regs (snd s)) f" and wf: "list_all wellFormed sigs"
  shows "\<exists>s'. dbusSignalHandler (dbusOps G) (ConnImpl g) ch fs (map Some sigs @ [None]) s = (Ok (), s') \<and>
    regs (snd s') = (regs (snd s))(g := regs (snd s) g @ [ch])"
  using wf
proof (induction sigs arbitrary: s)
  case Nil
  then show ?case using dbus_signal_adds[OF G, of g ch "fst s" "snd s"] by (auto simp: fun_upd_def)
next
  case (Cons x sigs)
  let ?H = "dbusSignalHandler (dbusOps G) (ConnImpl g) ch fs"
  have wf: "list_all wellFormed sigs" using Cons.prems by simp
  note IH = Cons.IH[OF wf]
  have after: "\<exists>s'. abind m (\<lambda>_. ?H (map Some sigs @ [None])) s = (Ok (), s') \<and> regs (snd s') = (regs (snd s))(g := regs (snd s) g @ [ch])"
    if k: "untouched (\<lambda>s. regs (snd s)) m" for m :: "(_, unit) act" and s
  proof -
    obtain r t where "m s = (Ok r, t)" "regs (snd t) = regs (snd s)" using k unfolding untouched_def by blast
    then show ?thesis using IH[of t] by (simp add: abind_Ok fun_upd_def)
  qed
  have rl: "untouched (\<lambda>s. regs (snd s)) (reload fs)" by (rule untouched_reload[OF fs])
  have call: "untouched (\<lambda>s. regs (snd s)) (abind (bus_Call (dbusOps G) ob m as) (\<lambda>_. reload fs))" for ob m as
    by (rule untouched_bind[OF dbus_calls_keep[OF G] rl])
  show ?case
  proof (cases "sig_Name x = ''org.freedesktop.DBus.NameOwnerChanged''")
    case True
    then obtain a b where ab: "bodyString x 0 = Some a" "bodyString x 2 = Some b" using Cons.prems by (auto simp: wellFormed_def)
    note zone = after[OF call[of "bus_Object (dbusOps G) (ConnImpl g) firewalldName firewalldPath" "firewalldInterface @ ''.getDefaultZone''" "[]"], of s]
    show ?thesis using True ab IH[of s] zone by (auto simp: abind_assoc fun_upd_def)
  next
    case False
    then show ?thesis using IH[of s] after[OF rl, of s] by (auto simp: fun_upd_def)
  qed
qed

text \<open>\<^verbatim>\<open>Destroy\<close> is meant to unregister the channel, but the handler calls \<^verbatim>\<open>Signal\<close>, which registers it: whatever signals came
  before, once the handler has ended the channel is registered twice on the system bus, and nothing receives from it any more.\<close>

theorem destroy_registers_channel_again:
  assumes "signal_adds G regs" and "\<forall>f \<in> set fs. untouched (\<lambda>s. regs (snd s)) f" and "list_all wellFormed sigs"
    and "gd_SystemBus G w = (Ok g, w1)"
  shows "\<exists>db' w'. abind (connectToFirewallD (dbusOps G) ch) (\<lambda>bus. case bus of None \<Rightarrow> aret ()
        | Some c \<Rightarrow> dbusSignalHandler (dbusOps G) c ch fs (runner_Destroy True (map Some sigs))) (dbus_New, w) = (Ok (), (db', w')) \<and>
      regs w' g = regs w1 g @ [ch, ch]"
proof -
  let ?v = "\<lambda>s. regs (snd s)"
  obtain db where sb: "bus_SystemBus (dbusOps G) (dbus_New, w) = (Ok (ConnImpl g), (db, w1))"
    using assms(4) by (simp add: dbusOps_def SystemBus_def dbus_New_def abind_def onBus_def)
  obtain r2 s2 where c1: "bus_Call (dbusOps G) (bus_BusObject (dbusOps G) (ConnImpl g)) ''org.freedesktop.DBus.AddMatch'' [reloadedMatch] (db, w1) = (Ok r2, s2)"
    and s2: "?v s2 = regs w1" using dbus_calls_keep[OF assms(1)] unfolding untouched_def by (metis snd_conv)
  obtain r3 s3 where c2: "bus_Call (dbusOps G) (bus_BusObject (dbusOps G) (ConnImpl g)) ''org.freedesktop.DBus.AddMatch'' [ownerMatch] s2 = (Ok r3, s3)"
    and s3: "?v s3 = regs w1" using dbus_calls_keep[OF assms(1)] s2 unfolding untouched_def by metis
  obtain w4 where c3: "bus_Signal (dbusOps G) (ConnImpl g) ch s3 = (Ok (), (fst s3, w4))" and w4: "regs w4 = (regs w1)(g := regs w1 g @ [ch])"
    using dbus_signal_adds[OF assms(1), of g ch "fst s3" "snd s3"] s3 by auto
  have "connectToFirewallD (dbusOps G) ch (dbus_New, w) = (Ok (Some (ConnImpl g)), (fst s3, w4))"
    using sb c1 c2 c3 by (simp add: connectToFirewallD_def acase_def abind_def aret_def)
  then show ?thesis using handler_registers_again[OF assms(1-3), of g ch "(fst s3, w4)"] w4
    by (auto simp: abind_def runner_Destroy_def)
qed

text \<open>A bus that untouched the registered channels of its connections, for the witness.\<close>

definition demo_bus :: "((nat \<Rightarrow> nat list), nat, string, unit) godbus" where
  "demo_bus = \<lparr>gd_SystemBus = aret 1, gd_SessionBus = aret 2, gd_BusObject = (\<lambda>_. ''bus''), gd_Object = (\<lambda>_ n _. n),
     gd_Signal = (\<lambda>g ch w. (Ok (), w(g := w g @ [ch]))), gd_Call = (\<lambda>_ _ _. aret ()), gd_Store = (\<lambda>_. Ok [])\<rparr>"

theorem destroy_registers_channel_again_witness:
  "\<exists>db' w'. abind (connectToFirewallD (dbusOps demo_bus) 7) (\<lambda>bus. case bus of None \<Rightarrow> aret ()
        | Some c \<Rightarrow> dbusSignalHandler (dbusOps demo_bus) c 7 [aret ()]
             (runner_Destroy True (map Some [\<lparr>sig_Name = firewalldInterface @ ''.Reloaded'', sig_Body = []\<rparr>]))) (dbus_New, (\<lambda>_. [])) = (Ok (), (db', w')) \<and>
      w' 1 = [7, 7]"
proof -
  have a: "signal_adds demo_bus (\<lambda>w. w)" by (simp add: signal_adds_def demo_bus_def aret_def)
  have b: "\<forall>f \<in> set [aret ()]. untouched (\<lambda>s. snd s) f" by (simp add: untouched_aret)
  have c: "list_all wellFormed [\<lparr>sig_Name = firewalldInterface @ ''.Reloaded'', sig_Body = []\<rparr>]"
    by (simp add: wellFormed_def firewalldInterface_def)
  have d: "gd_SystemBus demo_bus (\<lambda>_. []) = (Ok 1, \<lambda>_. [])" by (simp add: demo_bus_def aret_def)
  from destroy_registers_channel_again[OF a b c d, of 7] show ?thesis by (simp only: append_Nil)
qed

end
