(* ===== verification/Spec2Isabelle.thy ===== *)
theory Spec2Isabelle
  imports RouteProgram Scheduler PolicyReconcile PasswordTool VethHostProps HostDeviceProps IPVlanProps IPTables_Locks FirewallD
begin

text \<open>
  \<^bold>\<open>A verification development of meliodas\<close>, the container network of a Kubernetes cluster on OpenStack. Paths are
  relative to \<^verbatim>\<open>src/\<close>.

  \<^bold>\<open>The program.\<close> On a node the container runtime calls CNI plugins: \<^verbatim>\<open>cmd/tcnp-ipam\<close> reserves and releases
  addresses; \<^verbatim>\<open>cmd/veth-host\<close>, \<^verbatim>\<open>cmd/veth-route\<close>, \<^verbatim>\<open>cmd/host-device\<close> and \<^verbatim>\<open>cmd/ipvlan\<close> make the
  interface of the container and its routes, most of them after calling the IPAM plugin. Addresses come from neutron, the
  network service of OpenStack, through one of four stores (\<^verbatim>\<open>pkg/ipam/backend/neutron\<close>) behind the interface
  \<^verbatim>\<open>Store\<close>, chosen by the mode of the configuration (\<^verbatim>\<open>pkg/ipam/backend/allocator\<close>). A route controller
  (\<^verbatim>\<open>pkg/controller\<close>, \<^verbatim>\<open>pkg/openstack/neutron/router\<close>) keeps the routes of the neutron router in step with the
  pods, from a work queue fed by pod events. A network policy controller (\<^verbatim>\<open>pkg/policy\<close>,
  \<^verbatim>\<open>pkg/api/k8s/eventhandler\<close>) turns network policies into iptables chains and ipsets through \<^verbatim>\<open>pkg/utils/iptables\<close>
  and \<^verbatim>\<open>pkg/utils/ipset\<close>. A scheduler plugin (\<^verbatim>\<open>pkg/scheduling\<close>, \<^verbatim>\<open>pkg/qos\<close>) orders pods and scores nodes by
  their free addresses and interfaces. The two controllers are programs (\<^verbatim>\<open>cmd/veth-route-controller\<close>,
  \<^verbatim>\<open>cmd/network-policy-controller\<close>) that stop on a signal (\<^verbatim>\<open>pkg/signals\<close>) and may elect a leader;
  \<^verbatim>\<open>scripts/encrypt.go\<close> encrypts the password that the plugins read from their configuration.

  \<^bold>\<open>How Go is modelled.\<close> A function that may fail returns a \<open>result\<close>: \<open>Ok\<close>, \<open>Err\<close> with the text of the error, or \<open>Panic\<close>
  (a nil dereference, an index out of range, a failed type assertion). A function with effects is an \<open>act\<close>: it takes the
  state and returns a result and the next state, also after an error. \<open>abind\<close> is the early return on an error, \<open>acase\<close> a
  branch on it, \<open>aignore\<close> an error that is only logged, \<open>adefer\<close> a deferred call, \<open>afor\<close> a loop over a slice.
  Maps with an order that matters are association lists. IP addresses and masks are lists of bytes as in \<^verbatim>\<open>net.IP\<close>, with
  4 or 16 elements. Log messages are left out.

  \<^bold>\<open>Theories.\<close>
  \<^item> \<open>Go_Prelude\<close>, \<open>Go_Net\<close>: results, acts, the packages \<^verbatim>\<open>strings\<close>, \<^verbatim>\<open>strconv\<close> and \<^verbatim>\<open>net\<close> as far as used, and the
    generic lemmas on them.
  \<^item> \<open>Ranges\<close>: \<^verbatim>\<open>allocator/range.go\<close> and \<^verbatim>\<open>range_set.go\<close>. \<^verbatim>\<open>Canonicalize\<close> establishes the invariant of a
    range, \<^verbatim>\<open>Overlaps\<close> decides a common address, a canonical set is disjoint, \<^verbatim>\<open>RangeFor\<close> is exact.
  \<^item> \<open>Backend\<close> (configuration, OpenStack client, file lock), \<open>Stores\<close> (the four stores), \<open>Allocator\<close> (the interface, its
    locale, \<^verbatim>\<open>Get\<close> and \<^verbatim>\<open>Release\<close>), \<open>MixPool\<close>, \<open>StoreProps\<close>: the allocator is the bare reservation under the lock and
    frees the lock on every ending; in the mode mix a release undoes a reservation, and the quota is kept.
  \<^item> \<open>IPAMPlugin\<close>: \<^verbatim>\<open>cmd/tcnp-ipam\<close>; DEL after ADD restores the files and the addresses, and the resolver settings are read
    back as written. \<open>K8s\<close>: \<^verbatim>\<open>pkg/api/k8s/k8s.go\<close>, the network annotation and the port files.
  \<^item> \<open>Netlink\<close> (the kernel calls of the plugins), \<open>Triples\<close> (rules for what holds before and after a call), \<open>VethHost\<close>,
    \<open>HostDevice\<close>, \<open>VethRoute\<close>, \<open>IPVlan\<close> and their \<open>Props\<close>: policy routing takes a table of its own; a moved interface comes
    back under its own name; a failed ADD of \<^verbatim>\<open>host-device\<close> gives the address back but for two errors; \<^verbatim>\<open>veth-route\<close>
    sends everything to its gateway; DEL of \<^verbatim>\<open>ipvlan\<close> undoes ADD.
  \<^item> \<open>Router\<close>, \<open>WorkQueue\<close>, \<open>Controller\<close>, \<open>ControllerRuns\<close>: one worker as a function and several workers as the step
    relation \<open>cstep\<close>, with pods that come, change and go (\<open>istepU\<close>); no item is held twice, the controller makes progress, with
    one worker the routes are in step, up to updates of the pods, whenever the controller is at rest, with two they need not be.
  \<^item> \<open>Lifecycle\<close>: the main functions, the election callbacks, the client sets and \<^verbatim>\<open>pkg/signals\<close>, as a process with a function
    \<open>pnext\<close> for every event (a signal, a turn of a goroutine, an answer of the API server) and statements on all schedules: one
    signal stops a program, a program works only as the leader, and a signal leaves an elected leader idle but alive.
    \<open>RouteProgram\<close> puts the controller into its process: routes are written by a synced leader only, the program refines the
    controller until \<^verbatim>\<open>Run\<close> returns, and \<^verbatim>\<open>Run\<close> does not wait for its workers.
  \<^item> \<open>IPSet\<close>, \<open>IPSet_Fake\<close>, \<open>IPTables\<close>, \<open>IPTables_Fake\<close>, \<open>IPTables_Locks\<close>, \<open>DBus\<close>, \<open>FirewallD\<close>: the two utilities, their
    in-memory implementations from \<^verbatim>\<open>testing/\<close>, the locks around \<^verbatim>\<open>iptables-restore\<close>, \<^verbatim>\<open>pkg/utils/dbus\<close> and the listener for
    FirewallD.
  \<^item> \<open>Policy\<close> (policies, ipsets and chains), \<open>PolicyEvents\<close> (the manager, its informers and events), \<open>EventHandler\<close>, \<open>PodChains\<close>,
    \<open>PolicySync\<close>: after a sync exactly the wanted ipsets carry the prefix of the controller, and the chain of a selected pod
    jumps to its policies and drops the rest. \<open>PolicyRuns\<close>, \<open>PolicyReconcile\<close>: the manager under every sequence of events and
    timer ticks; it never panics on a well-formed cluster, and every tick and policy event reconciles the ipsets.
  \<^item> \<open>PasswordTool\<close>: \<^verbatim>\<open>scripts/encrypt.go\<close>; the plugins decrypt what the tool prints.
  \<^item> \<open>Scheduler\<close>: the queue order, the collection of the nodes in any order of the workers, and the scores.

  \<^bold>\<open>Interfaces.\<close> \<open>backend_store\<close> and \<open>quota_store\<close> are the contract of a store, interpreted on every store of the factory
  (\<open>st\<close>) and on the two with a quota (\<open>mixq\<close>, \<open>routeq\<close>). \<open>ipset_handle\<close> and \<open>iptables_handle\<close> are the contracts of the
  utilities, in which the lemmas on the policy manager are proved, interpreted on the in-memory implementations (\<open>fake\<close>, \<open>fkt\<close>)
  and, together, on a pair of them (\<open>policy_handles\<close>, \<open>wh\<close>, and \<open>manager_handles\<close>, \<open>mh\<close>, which adds what the runs of the manager
  need). \<open>shared_bus\<close> is the contract of the D-Bus interface, interpreted on its implementation over any godbus (\<open>db\<close>). \<open>work_queue\<close> is the contract of the vendored queue (\<open>wq\<close>),
  \<open>queue_sort\<close> that of a queue-sort plugin of the scheduler (\<open>sch\<close>).

  \<^bold>\<open>Parameters and hypotheses.\<close> Code outside the repository is a parameter: JSON decoders, the block cipher, the OpenStack services
  (record \<open>env\<close>), SHA-256, \<^verbatim>\<open>exec\<close>, the lists of the informers, and the kernel (\<open>kern\<close>, \<open>linkops\<close>, \<open>routeops\<close>, \<open>ipvlanops\<close>,
  \<open>ipamops\<close>, \<open>lockops\<close>), the library godbus (\<open>godbus\<close>), what the programs call while they start (\<open>libs\<close>) and
  \<^verbatim>\<open>aes.NewCipher\<close>. What a property needs of them is a named hypothesis that states documented behaviour:
  \<open>neutron_ports\<close> and \<open>router_ok\<close> for neutron, \<open>kernel_tables\<close>, \<open>marks_keep_rules\<close>, \<open>kernel_links\<close>, \<open>kernel_routes\<close>,
  \<open>kernel_addrs\<close> and \<open>kernel_names\<close> for netlink, \<open>lease_laws\<close> for an IPAM plugin, \<open>lock_laws\<close> for files and sockets, \<open>good_manager\<close> (with \<open>good_kube\<close> and \<open>calm_handles\<close>)
  for the answers of a cluster and handles that do not panic, \<open>signal_adds\<close> for godbus. Every such
  hypothesis is shown to hold for a small concrete instance, on which the witnesses evaluate the model.

  \<^bold>\<open>Bounds.\<close> \<open>runWorker\<close> runs with fuel, and more fuel than items in the queue is enough. The search for a free routing
  table ends at \<^verbatim>\<open>math.MaxUint32\<close>, policy routing makes ten attempts as in the code, and polling for the iptables locks makes
  an arbitrary number of attempts. Integers of the scheduler and table numbers wrap at 64 bits; elsewhere an \<open>int\<close> cannot leave
  the range of a Go \<^verbatim>\<open>int\<close>.

  \<^bold>\<open>Not modelled.\<close> Inside the libraries: how informers fill their caches, how a lease is acquired and renewed, the delays and
  metrics of the work queue. The main function of the scheduler (it registers the plugin and calls the command of Kubernetes),
  versions and test helpers have no logic of their own. The goroutines that synchronize the chains of several pods run one after
  the other. Quoting with \<^verbatim>\<open>%q\<close> is that of texts without characters that need an escape, and the wrapping of netlink objects
  in messages is a parameter.
\<close>

end
